theory Spec2Isabelle
  imports Main
begin

section \<open>Python values as they occur in \<^verbatim>\<open>notion_watch.py\<close>\<close>

text \<open>
  A Python \<^verbatim>\<open>str\<close> is a sequence of Unicode code points; \<^verbatim>\<open>len\<close> and slicing count
  code points. The script's own literals are partly Korean, so strings are modelled as
  lists of code points. \<open>U\<close> embeds an ASCII literal.
\<close>

type_synonym ustring = "nat list"

definition U :: "string \<Rightarrow> ustring" where
  "U s = map of_char s"

text \<open>
  Every value the script handles comes out of a JSON document (\<^verbatim>\<open>resp.json()\<close>,
  \<^verbatim>\<open>json.load\<close>): \<^verbatim>\<open>None\<close>, \<^verbatim>\<open>bool\<close>, \<^verbatim>\<open>int\<close>, \<^verbatim>\<open>str\<close>, \<^verbatim>\<open>list\<close> and \<^verbatim>\<open>dict\<close> with string
  keys. A \<^verbatim>\<open>dict\<close> keeps insertion order, so it is an association list. Numbers with
  a fraction or an exponent (Python floats) are outside this data model.
\<close>

datatype json =
    JNull
  | JBool bool
  | JNum int
  | JStr ustring
  | JArr "json list"
  | JObj "(ustring \<times> json) list"

datatype error =
    AttributeError
  | TypeError
  | JSONDecodeError
  | HTTPError nat
  | RequestException
  | ParserError
  | UnicodeEncodeError

definition ebind :: "error + 'a \<Rightarrow> ('a \<Rightarrow> error + 'b) \<Rightarrow> error + 'b" where
  "ebind m f = (case m of Inl e \<Rightarrow> Inl e | Inr x \<Rightarrow> f x)"

text \<open>Truth value of an object, as \<^verbatim>\<open>if x:\<close> and \<^verbatim>\<open>x or y\<close> test it.\<close>

fun py_truthy :: "json \<Rightarrow> bool" where
  "py_truthy JNull = False"
| "py_truthy (JBool b) = b"
| "py_truthy (JNum n) = (n \<noteq> 0)"
| "py_truthy (JStr s) = (s \<noteq> [])"
| "py_truthy (JArr xs) = (xs \<noteq> [])"
| "py_truthy (JObj kvs) = (kvs \<noteq> [])"

text \<open>\<^verbatim>\<open>x.get(k, d)\<close> with a string key: only a \<^verbatim>\<open>dict\<close> has the method.\<close>

fun py_get :: "json \<Rightarrow> ustring \<Rightarrow> json \<Rightarrow> error + json" where
  "py_get (JObj kvs) k d = Inr (case map_of kvs k of None \<Rightarrow> d | Some v \<Rightarrow> v)"
| "py_get _ k d = Inl AttributeError"

text \<open>
  \<^verbatim>\<open>x.get(k, d)\<close> where the key is itself a value read from the data: a \<^verbatim>\<open>list\<close> or
  \<^verbatim>\<open>dict\<close> key is unhashable, any other non-string key is simply not found.
\<close>

fun py_get_any :: "json \<Rightarrow> json \<Rightarrow> json \<Rightarrow> error + json" where
  "py_get_any (JObj kvs) (JStr k) d = py_get (JObj kvs) k d"
| "py_get_any (JObj kvs) (JArr xs) d = Inl TypeError"
| "py_get_any (JObj kvs) (JObj m) d = Inl TypeError"
| "py_get_any (JObj kvs) _ d = Inr d"
| "py_get_any _ _ d = Inl AttributeError"

text \<open>Iteration (\<^verbatim>\<open>for x in v\<close>, \<^verbatim>\<open>list.extend(v)\<close>, \<^verbatim>\<open>set(v)\<close>).\<close>

fun py_iter :: "json \<Rightarrow> error + json list" where
  "py_iter (JArr xs) = Inr xs"
| "py_iter (JStr s) = Inr (map (\<lambda>c. JStr [c]) s)"
| "py_iter (JObj kvs) = Inr (map (\<lambda>kv. JStr (fst kv)) kvs)"
| "py_iter _ = Inl TypeError"

text \<open>The comprehension \<^verbatim>\<open>[r.get("plain_text", "") for r in rich]\<close>.\<close>

fun plain_texts :: "json list \<Rightarrow> error + json list" where
  "plain_texts [] = Inr []"
| "plain_texts (r # rs) =
     ebind (py_get r (U ''plain_text'') (JStr []))
       (\<lambda>t. ebind (plain_texts rs) (\<lambda>ts. Inr (t # ts)))"

text \<open>\<^verbatim>\<open>"".join(xs)\<close>: every item has to be a \<^verbatim>\<open>str\<close>.\<close>

fun py_join :: "json list \<Rightarrow> error + ustring" where
  "py_join [] = Inr []"
| "py_join (JStr s # xs) = ebind (py_join xs) (\<lambda>r. Inr (s @ r))"
| "py_join (_ # xs) = Inl TypeError"

text \<open>
  \<^verbatim>\<open>"".join([r.get("plain_text", "") for r in v])\<close> for a value \<open>v\<close> read from the data.
\<close>

definition joined_text :: "json \<Rightarrow> error + ustring" where
  "joined_text v = ebind (py_iter v) (\<lambda>rs. ebind (plain_texts rs) py_join)"

text \<open>Decimal digits of \<^verbatim>\<open>str(n)\<close> for an \<^verbatim>\<open>int\<close>.\<close>

fun digits :: "nat \<Rightarrow> ustring" where
  "digits n = (if n < 10 then [48 + n] else digits (n div 10) @ [48 + n mod 10])"

declare digits.simps [simp del]

definition str_int :: "int \<Rightarrow> ustring" where
  "str_int i = (if i < 0 then 45 # digits (nat (- i)) else digits (nat i))"

text \<open>
  \<^verbatim>\<open>str(v)\<close>, which is what an f-string field \<^verbatim>\<open>{v}\<close> inserts. For a \<^verbatim>\<open>list\<close> or \<^verbatim>\<open>dict\<close>
  it is Python's \<^verbatim>\<open>repr\<close>, whose quoting of strings depends on the Unicode database;
  that part is the parameter \<open>repr\<close>.
\<close>

fun py_str :: "(json \<Rightarrow> ustring) \<Rightarrow> json \<Rightarrow> ustring" where
  "py_str repr JNull = U ''None''"
| "py_str repr (JBool b) = (if b then U ''True'' else U ''False'')"
| "py_str repr (JNum n) = str_int n"
| "py_str repr (JStr s) = s"
| "py_str repr v = repr v"

section \<open>Formatter\<close>

text \<open>
  The two placeholder literals of the source, as code points: they are Korean,
  \<^verbatim>\<open>"(\uc81c\ubaa9 \uc5c6\uc74c)"\<close> in \<^verbatim>\<open>page_title\<close> and
  \<^verbatim>\<open>'(\ud14d\uc2a4\ud2b8 \uc5c6\uc74c)'\<close> in \<^verbatim>\<open>format_block_item\<close>.
\<close>

definition no_title :: ustring where
  "no_title = [0x28, 0xC81C, 0xBAA9, 0x20, 0xC5C6, 0xC74C, 0x29]"

definition no_text :: ustring where
  "no_text = [0x28, 0xD14D, 0xC2A4, 0xD2B8, 0x20, 0xC5C6, 0xC74C, 0x29]"

text \<open>
  The loop \<^verbatim>\<open>for v in props.values()\<close> of \<^verbatim>\<open>page_title\<close>: it returns at the first
  title-typed property whose \<^verbatim>\<open>title\<close> list is truthy, and falls through to the
  placeholder after the last property.
\<close>

fun title_scan :: "json list \<Rightarrow> error + ustring" where
  "title_scan [] = Inr no_title"
| "title_scan (v # vs) =
     ebind (py_get v (U ''type'') JNull) (\<lambda>ty.
       if ty = JStr (U ''title'') then
         ebind (py_get v (U ''title'') (JArr [])) (\<lambda>rich.
           if py_truthy rich then
             ebind (joined_text rich) (\<lambda>s.
               Inr (if take 120 s = [] then no_title else take 120 s))
           else title_scan vs)
       else title_scan vs)"

text \<open>\<^verbatim>\<open>props.values()\<close>: only a \<^verbatim>\<open>dict\<close> has the method.\<close>

fun py_values :: "json \<Rightarrow> error + json list" where
  "py_values (JObj kvs) = Inr (map snd kvs)"
| "py_values _ = Inl AttributeError"

definition page_title :: "json \<Rightarrow> error + ustring" where
  "page_title page =
     ebind (py_get page (U ''properties'') (JObj [])) (\<lambda>props.
       ebind (py_values props) title_scan)"

definition notion_home :: ustring where
  "notion_home = U ''https://www.notion.so''"

definition page_url :: "json \<Rightarrow> error + json" where
  "page_url page = py_get page (U ''url'') (JStr notion_home)"

text \<open>Slack block kit pieces, as the dict literals of the source build them.\<close>

definition mrkdwn :: "ustring \<Rightarrow> json" where
  "mrkdwn t = JObj [(U ''type'', JStr (U ''mrkdwn'')), (U ''text'', JStr t)]"

definition section_text :: "ustring \<Rightarrow> json" where
  "section_text t = JObj [(U ''type'', JStr (U ''section'')), (U ''text'', mrkdwn t)]"

definition section_fields :: "ustring list \<Rightarrow> json" where
  "section_fields ts =
     JObj [(U ''type'', JStr (U ''section'')), (U ''fields'', JArr (map mrkdwn ts))]"

definition divider :: json where
  "divider = JObj [(U ''type'', JStr (U ''divider''))]"

text \<open>Fixed parts of the f-strings.\<close>

definition page_header :: ustring where
  "page_header = [0x2A, 0xC0C8, 0x20, 0xD398, 0xC774, 0xC9C0, 0xAC00, 0x20, 0xC0DD, 0xC131,
     0xB418, 0xC5C8, 0xC2B5, 0xB2C8, 0xB2E4, 0x2A]"

definition title_label :: ustring where
  "title_label = [0x2A, 0xC81C, 0xBAA9, 0x3A, 0x2A, 0x0A]"

definition created_label :: ustring where
  "created_label = [0x2A, 0xC0DD, 0xC131, 0xC2DC, 0xAC01, 0x20, 0x28, 0x55, 0x54, 0x43, 0x29,
     0x3A, 0x2A, 0x0A]"

definition block_header :: ustring where
  "block_header = [0x2A, 0xD398, 0xC774, 0xC9C0, 0x20, 0xB0B4, 0x20, 0xC0C8, 0x20, 0xBE14,
     0xB85D, 0x20, 0xCD94, 0xAC00, 0x2A]"

definition type_label :: ustring where
  "type_label = [0x2A, 0xBE14, 0xB85D, 0x20, 0xD0C0, 0xC785, 0x3A, 0x2A, 0x0A]"

definition preview_label :: ustring where
  "preview_label = [0x2A, 0xB0B4, 0xC6A9, 0x20, 0xBBF8, 0xB9AC, 0xBCF4, 0xAE30, 0x3A, 0x2A, 0x0A]"

text \<open>The text of the title field: the label, then \<^verbatim>\<open><{url}|{title}>\<close>.\<close>

definition title_field :: "(json \<Rightarrow> ustring) \<Rightarrow> json \<Rightarrow> ustring \<Rightarrow> ustring" where
  "title_field repr url title =
     title_label @ U ''<'' @ py_str repr url @ U ''|'' @ title @ U ''>''"

definition page_blocks :: "(json \<Rightarrow> ustring) \<Rightarrow> ustring \<Rightarrow> json \<Rightarrow> json \<Rightarrow> json" where
  "page_blocks repr title url created =
     JArr [section_text page_header,
           section_fields [title_field repr url title, created_label @ py_str repr created],
           divider]"

definition format_page_block :: "(json \<Rightarrow> ustring) \<Rightarrow> json \<Rightarrow> error + json" where
  "format_page_block repr page =
     ebind (page_title page) (\<lambda>title.
       ebind (page_url page) (\<lambda>url.
         ebind (py_get page (U ''created_time'') (JStr [])) (\<lambda>created.
           Inr (page_blocks repr title url created))))"

text \<open>
  The \<^verbatim>\<open>if\<close>/\<^verbatim>\<open>elif\<close> of \<^verbatim>\<open>format_block_item\<close> on a \<^verbatim>\<open>dict\<close> \<open>data\<close>; \<^verbatim>\<open>txt\<close> stays \<^verbatim>\<open>""\<close> when
  neither branch is taken.
\<close>

definition block_text :: "(ustring \<times> json) list \<Rightarrow> error + ustring" where
  "block_text kvs =
     (case map_of kvs (U ''rich_text'') of
        Some rt \<Rightarrow>
          if py_truthy rt then ebind (joined_text rt) (\<lambda>s. Inr (take 200 s))
          else (case map_of kvs (U ''text'') of
                  Some t \<Rightarrow>
                    if py_truthy t then ebind (joined_text t) (\<lambda>s. Inr (take 200 s))
                    else Inr []
                | None \<Rightarrow> Inr [])
      | None \<Rightarrow>
          (case map_of kvs (U ''text'') of
             Some t \<Rightarrow>
               if py_truthy t then ebind (joined_text t) (\<lambda>s. Inr (take 200 s))
               else Inr []
           | None \<Rightarrow> Inr []))"

text \<open>The preview shown: \<^verbatim>\<open>txt or\<close> the placeholder.\<close>

definition preview :: "ustring \<Rightarrow> ustring" where
  "preview txt = (if txt = [] then no_text else txt)"

definition block_blocks :: "(json \<Rightarrow> ustring) \<Rightarrow> json \<Rightarrow> json \<Rightarrow> ustring \<Rightarrow> json" where
  "block_blocks repr btype created txt =
     JArr [section_text block_header,
           section_fields [type_label @ U ''`'' @ py_str repr btype @ U ''`'',
                           created_label @ py_str repr created],
           section_text (preview_label @ preview txt),
           divider]"

definition format_block_item :: "(json \<Rightarrow> ustring) \<Rightarrow> json \<Rightarrow> error + json" where
  "format_block_item repr block =
     ebind (py_get block (U ''type'') JNull) (\<lambda>btype.
       ebind (py_get block (U ''created_time'') (JStr [])) (\<lambda>created.
         ebind (py_get_any block btype (JObj [])) (\<lambda>data.
           ebind (case data of JObj kvs \<Rightarrow> block_text kvs | _ \<Rightarrow> Inr []) (\<lambda>txt.
             Inr (block_blocks repr btype created txt)))))"

text \<open>
  Shapes of the data, used to state properties. A property value that the loop of
  \<^verbatim>\<open>page_title\<close> passes over: a \<^verbatim>\<open>dict\<close> that is not title-typed, or whose \<^verbatim>\<open>title\<close>
  list is empty.
\<close>

fun skipped :: "json \<Rightarrow> bool" where
  "skipped (JObj kvs) =
     (map_of kvs (U ''type'') = Some (JStr (U ''title'')) \<longrightarrow>
        \<not> py_truthy (case map_of kvs (U ''title'') of None \<Rightarrow> JArr [] | Some r \<Rightarrow> r))"
| "skipped _ = False"

text \<open>A property value that is a \<^verbatim>\<open>dict\<close> and not title-typed.\<close>

fun not_title :: "json \<Rightarrow> bool" where
  "not_title (JObj kvs) = (map_of kvs (U ''type'') \<noteq> Some (JStr (U ''title'')))"
| "not_title _ = False"

text \<open>
  A record as the workspace API delivers it: a \<^verbatim>\<open>dict\<close> whose \<^verbatim>\<open>properties\<close>, when
  present, is a \<^verbatim>\<open>dict\<close> of property \<^verbatim>\<open>dict\<close>s; a \<^verbatim>\<open>title\<close> entry of a property is a list
  of rich-text \<^verbatim>\<open>dict\<close>s, whose \<^verbatim>\<open>plain_text\<close>, when present, is a string.
\<close>

fun rich_text_obj :: "json \<Rightarrow> bool" where
  "rich_text_obj (JObj kvs) =
     (case map_of kvs (U ''plain_text'') of
        None \<Rightarrow> True | Some (JStr s) \<Rightarrow> True | Some _ \<Rightarrow> False)"
| "rich_text_obj _ = False"

fun property_obj :: "json \<Rightarrow> bool" where
  "property_obj (JObj kvs) =
     (case map_of kvs (U ''title'') of
        None \<Rightarrow> True | Some (JArr rs) \<Rightarrow> list_all rich_text_obj rs | Some _ \<Rightarrow> False)"
| "property_obj _ = False"

fun record_obj :: "json \<Rightarrow> bool" where
  "record_obj (JObj kvs) =
     (case map_of kvs (U ''properties'') of
        None \<Rightarrow> True | Some (JObj ps) \<Rightarrow> list_all property_obj (map snd ps) | Some _ \<Rightarrow> False)"
| "record_obj _ = False"

text \<open>Example records and content units.\<close>

definition hello_page :: json where
  "hello_page = JObj [(U ''id'', JStr (U ''p1'')),
     (U ''properties'', JObj
        [(U ''Status'', JObj [(U ''type'', JStr (U ''select''))]),
         (U ''Name'', JObj [(U ''type'', JStr (U ''title'')),
            (U ''title'', JArr [JObj [(U ''plain_text'', JStr (U ''Hello ''))],
                               JObj [(U ''plain_text'', JStr (U ''World''))]])]),
         (U ''Tags'', JObj [(U ''type'', JStr (U ''multi_select''))])])]"

definition untitled_page :: json where
  "untitled_page = JObj [(U ''id'', JStr (U ''p2'')),
     (U ''properties'', JObj [(U ''Status'', JObj [(U ''type'', JStr (U ''select''))])])]"

definition long_page :: json where
  "long_page = JObj [(U ''id'', JStr (U ''p3'')),
     (U ''properties'', JObj
        [(U ''Name'', JObj [(U ''type'', JStr (U ''title'')),
            (U ''title'', JArr [JObj [(U ''plain_text'', JStr (replicate 70 97))],
                               JObj [(U ''plain_text'', JStr (replicate 60 98))]])])])]"

definition empty_paragraph :: json where
  "empty_paragraph = JObj [(U ''id'', JStr (U ''b1'')), (U ''type'', JStr (U ''paragraph'')),
     (U ''paragraph'', JObj [(U ''rich_text'', JArr [])])]"

definition both_paragraph :: json where
  "both_paragraph = JObj [(U ''id'', JStr (U ''b2'')), (U ''type'', JStr (U ''paragraph'')),
     (U ''created_time'', JStr (U ''2024-01-01T00:00:00.000Z'')),
     (U ''paragraph'', JObj
        [(U ''text'', JArr [JObj [(U ''plain_text'', JStr (U ''old''))]]),
         (U ''rich_text'', JArr [JObj [(U ''plain_text'', JStr (U ''new ''))],
                                 JObj [(U ''plain_text'', JStr (U ''text''))]])])]"

text \<open>
  More example records: one whose first title-typed property has no runs and is followed by
  two that have, one whose only run is the empty string, one with a title of 130
  characters that has a URL and a creation time, and one with a creation time and no URL.
\<close>

definition two_titles_page :: json where
  "two_titles_page = JObj [(U ''id'', JStr (U ''p6'')),
     (U ''properties'', JObj
        [(U ''Status'', JObj [(U ''type'', JStr (U ''select''))]),
         (U ''Old'', JObj [(U ''type'', JStr (U ''title'')), (U ''title'', JArr [])]),
         (U ''Name'', JObj [(U ''type'', JStr (U ''title'')),
            (U ''title'', JArr [JObj [(U ''plain_text'', JStr (U ''Later''))]])]),
         (U ''Alias'', JObj [(U ''type'', JStr (U ''title'')),
            (U ''title'', JArr [JObj [(U ''plain_text'', JStr (U ''Last''))]])])])]"

definition blank_title_page :: json where
  "blank_title_page = JObj [(U ''id'', JStr (U ''p7'')),
     (U ''properties'', JObj
        [(U ''Name'', JObj [(U ''type'', JStr (U ''title'')),
            (U ''title'', JArr [JObj [(U ''plain_text'', JStr [])]])])])]"

definition linked_long_page :: json where
  "linked_long_page = JObj [(U ''id'', JStr (U ''p4'')),
     (U ''created_time'', JStr (U ''2024-06-01T00:00:00.000Z'')),
     (U ''url'', JStr (U ''https://www.notion.so/p4'')),
     (U ''properties'', JObj
        [(U ''Name'', JObj [(U ''type'', JStr (U ''title'')),
            (U ''title'', JArr [JObj [(U ''plain_text'', JStr (replicate 70 97))],
                               JObj [(U ''plain_text'', JStr (replicate 60 98))]])])])]"

definition dated_page :: json where
  "dated_page = JObj [(U ''id'', JStr (U ''p5'')),
     (U ''created_time'', JStr (U ''2024-06-01T00:00:00.000Z'')),
     (U ''properties'', JObj
        [(U ''Status'', JObj [(U ''type'', JStr (U ''select''))]),
         (U ''Name'', JObj [(U ''type'', JStr (U ''title'')),
            (U ''title'', JArr [JObj [(U ''plain_text'', JStr (U ''Hello ''))],
                               JObj [(U ''plain_text'', JStr (U ''World''))]])])])]"

text \<open>
  More example content units: a paragraph with neither \<^verbatim>\<open>rich_text\<close> nor \<^verbatim>\<open>text\<close>, one
  with both empty, one whose \<^verbatim>\<open>rich_text\<close> is a single empty run beside a \<^verbatim>\<open>text\<close>, and one
  whose \<^verbatim>\<open>rich_text\<close> runs have 150 and 100 characters.
\<close>

definition bare_paragraph :: json where
  "bare_paragraph = JObj [(U ''id'', JStr (U ''b3'')), (U ''type'', JStr (U ''paragraph'')),
     (U ''created_time'', JStr (U ''2024-01-01T00:00:00.000Z'')),
     (U ''paragraph'', JObj [(U ''color'', JStr (U ''default''))])]"

definition both_empty_paragraph :: json where
  "both_empty_paragraph = JObj [(U ''id'', JStr (U ''b4'')), (U ''type'', JStr (U ''paragraph'')),
     (U ''created_time'', JStr (U ''2024-01-01T00:00:00.000Z'')),
     (U ''paragraph'', JObj [(U ''rich_text'', JArr []), (U ''text'', JArr [])])]"

definition blank_rich_paragraph :: json where
  "blank_rich_paragraph = JObj [(U ''id'', JStr (U ''b5'')), (U ''type'', JStr (U ''paragraph'')),
     (U ''created_time'', JStr (U ''2024-01-01T00:00:00.000Z'')),
     (U ''paragraph'', JObj
        [(U ''rich_text'', JArr [JObj [(U ''plain_text'', JStr [])]]),
         (U ''text'', JArr [JObj [(U ''plain_text'', JStr (U ''old''))]])])]"

definition long_paragraph :: json where
  "long_paragraph = JObj [(U ''id'', JStr (U ''b6'')), (U ''type'', JStr (U ''paragraph'')),
     (U ''created_time'', JStr (U ''2024-01-01T00:00:00.000Z'')),
     (U ''paragraph'', JObj
        [(U ''rich_text'', JArr [JObj [(U ''plain_text'', JStr (replicate 150 97))],
                                 JObj [(U ''plain_text'', JStr (replicate 100 98))]]),
         (U ''text'', JArr [JObj [(U ''plain_text'', JStr (U ''old''))]])])]"

text \<open>A stand-in for \<^verbatim>\<open>repr\<close> where a concrete one is needed.\<close>

definition no_repr :: "json \<Rightarrow> ustring" where
  "no_repr v = []"

section \<open>The outside world\<close>

text \<open>
  The script talks to three endpoints. The URL of a request is kept in structured
  form: the collection id of \<^verbatim>\<open>/databases/{db_id}/query\<close>, the page id and the cursor
  of \<^verbatim>\<open>/blocks/{page_id}/children\<close> (\<open>None\<close> for the first URL, which has no
  \<^verbatim>\<open>start_cursor\<close>), and the webhook URL.
\<close>

datatype endpoint =
    DbQuery ustring
  | BlockChildren ustring "json option"
  | Webhook

datatype request = POST endpoint json | GET endpoint

text \<open>
  \<^verbatim>\<open>requests.post\<close>/\<^verbatim>\<open>requests.get\<close> either raise (no response: connection error,
  timeout, too many redirects) or return a response with a status code and a body; the
  body is kept as what \<^verbatim>\<open>resp.json()\<close> makes of it, \<open>None\<close> when it is not JSON. The
  script leaves \<^verbatim>\<open>allow_redirects\<close> at its default, so the library itself follows an answer
  with a redirect status (301, 302, 303, 307, 308) and a \<^verbatim>\<open>Location\<close> header: a request of
  this model is one call of \<^verbatim>\<open>requests.post\<close> or \<^verbatim>\<open>requests.get\<close>, and its result is the
  response that call returns, the last one of such a chain. The exchanges inside one call
  are not represented.
\<close>

datatype http_result = NoResponse | Response nat "json option"

text \<open>
  A \<^verbatim>\<open>datetime\<close> is naive or timezone-aware; ordering a naive against an aware one
  raises \<^verbatim>\<open>TypeError\<close>. The number is the instant in microseconds.
\<close>

datatype datetime = Naive int | Aware int

fun dt_gt :: "datetime \<Rightarrow> datetime \<Rightarrow> error + bool" where
  "dt_gt (Aware a) (Aware b) = Inr (b < a)"
| "dt_gt (Naive a) (Naive b) = Inr (b < a)"
| "dt_gt _ _ = Inl TypeError"

text \<open>
  What the run depends on and does not compute itself: the servers (the answer to the
  \<open>k\<close>-th request of the run), the clock (the text \<^verbatim>\<open>datetime.now(timezone.utc).isoformat()\<close>
  gives at the \<open>k\<close>-th reading), \<^verbatim>\<open>dateutil\<close>'s parser, \<^verbatim>\<open>repr\<close>, the order in which
  \<^verbatim>\<open>list(seen_ids)\<close> enumerates a set, and the buffering of the file object: how many
  characters of a text have reached the checkpoint file when writing it fails.
\<close>

record env =
  respond :: "nat \<Rightarrow> request \<Rightarrow> http_result"
  now_text :: "nat \<Rightarrow> ustring"
  parse_dt :: "json \<Rightarrow> error + datetime"
  py_repr :: "json \<Rightarrow> ustring"
  set_order :: "json list \<Rightarrow> json list"
  written :: "ustring \<Rightarrow> nat"

text \<open>The configuration read from the process environment.\<close>

record config =
  DB_IDS :: "ustring list"
  PAGE_IDS :: "ustring list"

text \<open>
  What a run changes: the text of \<^verbatim>\<open>state/notion_state.json\<close> (\<open>None\<close>: no such file),
  the requests sent so far, and the number of clock readings taken.
\<close>

record world =
  state_file :: "ustring option"
  sent :: "request list"
  clock_reads :: nat

definition http_call :: "env \<Rightarrow> request \<Rightarrow> world \<Rightarrow> http_result \<times> world" where
  "http_call env req w = (respond env (length (sent w)) req, w\<lparr>sent := sent w @ [req]\<rparr>)"

definition now_iso :: "env \<Rightarrow> world \<Rightarrow> ustring \<times> world" where
  "now_iso env w = (now_text env (clock_reads w), w\<lparr>clock_reads := Suc (clock_reads w)\<rparr>)"

text \<open>
  \<^verbatim>\<open>Response.raise_for_status()\<close> of the requests library raises \<^verbatim>\<open>HTTPError\<close> for a
  status from 400 to 599 (client error, server error) and returns otherwise.
\<close>

definition raise_for_status :: "nat \<Rightarrow> error + unit" where
  "raise_for_status status =
     (if 400 \<le> status \<and> status < 600 then Inl (HTTPError status) else Inr ())"

section \<open>Notifier\<close>

definition slack_payload :: "ustring \<Rightarrow> json \<Rightarrow> json" where
  "slack_payload text blocks =
     JObj ((U ''text'', JStr text) # (if py_truthy blocks then [(U ''blocks'', blocks)] else []))"

definition slack_post :: "env \<Rightarrow> ustring \<Rightarrow> json \<Rightarrow> world \<Rightarrow> (error + unit) \<times> world" where
  "slack_post env text blocks w =
     (case http_call env (POST Webhook (slack_payload text blocks)) w of
        (NoResponse, w') \<Rightarrow> (Inl RequestException, w')
      | (Response status body, w') \<Rightarrow> (raise_for_status status, w'))"

section \<open>Source client\<close>

text \<open>
  One round of either pagination loop: send the request, \<^verbatim>\<open>raise_for_status()\<close>,
  \<^verbatim>\<open>resp.json()\<close>.
\<close>

definition fetch :: "env \<Rightarrow> request \<Rightarrow> world \<Rightarrow> (error + json) \<times> world" where
  "fetch env req w =
     (case http_call env req w of
        (NoResponse, w') \<Rightarrow> (Inl RequestException, w')
      | (Response status body, w') \<Rightarrow>
          (ebind (raise_for_status status)
             (\<lambda>_. case body of None \<Rightarrow> Inl JSONDecodeError | Some data \<Rightarrow> Inr data), w'))"

text \<open>\<^verbatim>\<open>d[k] = v\<close> on a \<^verbatim>\<open>dict\<close>: a key already there keeps its place.\<close>

fun dict_set :: "(ustring \<times> json) list \<Rightarrow> ustring \<Rightarrow> json \<Rightarrow> (ustring \<times> json) list" where
  "dict_set [] k v = [(k, v)]"
| "dict_set (kv # kvs) k v = (if fst kv = k then (k, v) # kvs else kv # dict_set kvs k v)"

definition created_after :: "json \<Rightarrow> json" where
  "created_after after_iso =
     JObj [(U ''timestamp'', JStr (U ''created_time'')),
           (U ''created_time'', JObj [(U ''after'', after_iso)])]"

definition db_payload :: "json \<Rightarrow> (ustring \<times> json) list" where
  "db_payload after_iso =
     [(U ''page_size'', JNum 50),
      (U ''sorts'', JArr [JObj [(U ''timestamp'', JStr (U ''created_time'')),
                               (U ''direction'', JStr (U ''ascending''))]])]
     @ (if py_truthy after_iso then [(U ''filter'', created_after after_iso)] else [])"

text \<open>
  The \<^verbatim>\<open>while True\<close> loop of \<^verbatim>\<open>query_new_db_pages\<close>. Nothing bounds the number of
  rounds: a server that keeps answering \<^verbatim>\<open>has_more\<close> keeps the loop going, and the
  function then has no value (\<open>None\<close>).
\<close>

partial_function (option) db_pages_loop ::
  "env \<Rightarrow> ustring \<Rightarrow> (ustring \<times> json) list \<Rightarrow> json list \<Rightarrow> world
     \<Rightarrow> ((error + json list) \<times> world) option" where
  "db_pages_loop env db_id payload results w =
     (case fetch env (POST (DbQuery db_id) (JObj payload)) w of
        (Inl e, w') \<Rightarrow> Some (Inl e, w')
      | (Inr data, w') \<Rightarrow>
          (case ebind (py_get data (U ''results'') (JArr [])) py_iter of
             Inl e \<Rightarrow> Some (Inl e, w')
           | Inr rs \<Rightarrow>
               (case py_get data (U ''has_more'') JNull of
                  Inl e \<Rightarrow> Some (Inl e, w')
                | Inr has_more \<Rightarrow>
                    if \<not> py_truthy has_more then Some (Inr (results @ rs), w')
                    else (case py_get data (U ''next_cursor'') JNull of
                            Inl e \<Rightarrow> Some (Inl e, w')
                          | Inr cursor \<Rightarrow>
                              db_pages_loop env db_id
                                (dict_set payload (U ''start_cursor'') cursor)
                                (results @ rs) w'))))"

definition query_new_db_pages ::
  "env \<Rightarrow> ustring \<Rightarrow> json \<Rightarrow> world \<Rightarrow> ((error + json list) \<times> world) option" where
  "query_new_db_pages env db_id after_iso w =
     db_pages_loop env db_id (db_payload after_iso) [] w"

text \<open>
  The inner \<^verbatim>\<open>for blk in data.get("results", [])\<close> of \<^verbatim>\<open>list_new_blocks\<close>: the creation
  time is parsed for every block, also when there is no boundary.
\<close>

fun new_blocks :: "env \<Rightarrow> datetime option \<Rightarrow> json list \<Rightarrow> error + json list" where
  "new_blocks env after_dt [] = Inr []"
| "new_blocks env after_dt (blk # bs) =
     ebind (py_get blk (U ''created_time'') JNull) (\<lambda>ct.
       ebind (parse_dt env ct) (\<lambda>ctime.
         ebind (case after_dt of None \<Rightarrow> Inr True | Some a \<Rightarrow> dt_gt ctime a) (\<lambda>keep.
           ebind (new_blocks env after_dt bs) (\<lambda>rest.
             Inr (if keep then blk # rest else rest)))))"

partial_function (option) blocks_loop ::
  "env \<Rightarrow> ustring \<Rightarrow> datetime option \<Rightarrow> json option \<Rightarrow> json list \<Rightarrow> world
     \<Rightarrow> ((error + json list) \<times> world) option" where
  "blocks_loop env page_id after_dt cursor out w =
     (case fetch env (GET (BlockChildren page_id cursor)) w of
        (Inl e, w') \<Rightarrow> Some (Inl e, w')
      | (Inr data, w') \<Rightarrow>
          (case ebind (ebind (py_get data (U ''results'') (JArr [])) py_iter)
                  (new_blocks env after_dt) of
             Inl e \<Rightarrow> Some (Inl e, w')
           | Inr bs \<Rightarrow>
               (case py_get data (U ''has_more'') JNull of
                  Inl e \<Rightarrow> Some (Inl e, w')
                | Inr has_more \<Rightarrow>
                    if \<not> py_truthy has_more then Some (Inr (out @ bs), w')
                    else (case py_get data (U ''next_cursor'') JNull of
                            Inl e \<Rightarrow> Some (Inl e, w')
                          | Inr next_cursor \<Rightarrow>
                              blocks_loop env page_id after_dt (Some next_cursor)
                                (out @ bs) w'))))"

definition list_new_blocks ::
  "env \<Rightarrow> ustring \<Rightarrow> datetime option \<Rightarrow> world \<Rightarrow> ((error + json list) \<times> world) option" where
  "list_new_blocks env page_id after_dt w = blocks_loop env page_id after_dt None [] w"

section \<open>State store\<close>

subsection \<open>JSON text as \<^verbatim>\<open>json.dump\<close> writes it\<close>

text \<open>
  \<^verbatim>\<open>json.dump(state, f, ensure_ascii=False, indent=2)\<close>. A string is written between
  double quotes with the backslash, the double quote and the control characters below
  \<^verbatim>\<open>0x20\<close> escaped, and every other character as it is. With an indent, items are
  separated by a comma and a line break, keys from values by a colon and a space, and
  an empty list or dict is written without line break.
\<close>

definition hexdig :: "nat \<Rightarrow> nat" where
  "hexdig d = (if d < 10 then 48 + d else 87 + d)"

definition esc_char :: "nat \<Rightarrow> ustring" where
  "esc_char c =
     (if c = 0x5C then [0x5C, 0x5C]
      else if c = 0x22 then [0x5C, 0x22]
      else if c = 0x08 then [0x5C, 0x62]
      else if c = 0x0C then [0x5C, 0x66]
      else if c = 0x0A then [0x5C, 0x6E]
      else if c = 0x0D then [0x5C, 0x72]
      else if c = 0x09 then [0x5C, 0x74]
      else if c < 0x20 then [0x5C, 0x75, 48, 48, hexdig (c div 16), hexdig (c mod 16)]
      else [c])"

definition encode_str :: "ustring \<Rightarrow> ustring" where
  "encode_str s = 0x22 # concat (map esc_char s) @ [0x22]"

definition newline_indent :: "nat \<Rightarrow> ustring" where
  "newline_indent level = 0x0A # replicate (2 * level) 0x20"

fun dump :: "nat \<Rightarrow> json \<Rightarrow> ustring"
  and dump_items :: "nat \<Rightarrow> json list \<Rightarrow> ustring"
  and dump_members :: "nat \<Rightarrow> (ustring \<times> json) list \<Rightarrow> ustring" where
  "dump level JNull = U ''null''"
| "dump level (JBool b) = (if b then U ''true'' else U ''false'')"
| "dump level (JNum n) = str_int n"
| "dump level (JStr s) = encode_str s"
| "dump level (JArr xs) =
     (if xs = [] then U ''[]''
      else U ''['' @ newline_indent (Suc level) @ dump_items (Suc level) xs
           @ newline_indent level @ U '']'')"
| "dump level (JObj kvs) =
     (if kvs = [] then U ''{}''
      else U ''{'' @ newline_indent (Suc level) @ dump_members (Suc level) kvs
           @ newline_indent level @ U ''}'')"
| "dump_items level [] = []"
| "dump_items level (x # xs) =
     dump level x @ (if xs = [] then [] else U '','' @ newline_indent level @ dump_items level xs)"
| "dump_members level [] = []"
| "dump_members level (kv # kvs) =
     encode_str (fst kv) @ U '': '' @ dump level (snd kv)
     @ (if kvs = [] then [] else U '','' @ newline_indent level @ dump_members level kvs)"

subsection \<open>JSON text as \<^verbatim>\<open>json.load\<close> reads it\<close>

text \<open>
  The decoder of the \<^verbatim>\<open>json\<close> module: white space is blank, tab, line feed and
  carriage return; a string ends at the first unescaped double quote, must not contain
  a raw control character, and knows the two-character escapes for the double quote,
  the backslash, the slash, \<^verbatim>\<open>b f n r t\<close>, and \<^verbatim>\<open>uXXXX\<close> with four hexadecimal digits,
  where a high surrogate followed by an escaped low surrogate gives one character.
\<close>

definition is_ws :: "nat \<Rightarrow> bool" where
  "is_ws c = (c = 0x20 \<or> c = 0x09 \<or> c = 0x0A \<or> c = 0x0D)"

definition skip_ws :: "ustring \<Rightarrow> ustring" where
  "skip_ws s = dropWhile is_ws s"

text \<open>A text that starts with a character other than white space.\<close>

definition solid :: "ustring \<Rightarrow> bool" where
  "solid t = (case t of [] \<Rightarrow> False | c # cs \<Rightarrow> \<not> is_ws c)"

definition hexval :: "nat \<Rightarrow> nat option" where
  "hexval c =
     (if 48 \<le> c \<and> c \<le> 57 then Some (c - 48)
      else if 97 \<le> c \<and> c \<le> 102 then Some (c - 87)
      else if 65 \<le> c \<and> c \<le> 70 then Some (c - 55)
      else None)"

fun decode_uXXXX :: "ustring \<Rightarrow> nat option" where
  "decode_uXXXX (a # b # c # d # rest) =
     (case (hexval a, hexval b, hexval c, hexval d) of
        (Some h3, Some h2, Some h1, Some h0) \<Rightarrow> Some (((h3 * 16 + h2) * 16 + h1) * 16 + h0)
      | _ \<Rightarrow> None)"
| "decode_uXXXX _ = None"

definition unescape :: "nat \<Rightarrow> nat option" where
  "unescape e =
     (if e = 0x22 then Some 0x22
      else if e = 0x5C then Some 0x5C
      else if e = 0x2F then Some 0x2F
      else if e = 0x62 then Some 0x08
      else if e = 0x66 then Some 0x0C
      else if e = 0x6E then Some 0x0A
      else if e = 0x72 then Some 0x0D
      else if e = 0x74 then Some 0x09
      else None)"

definition prepend :: "nat \<Rightarrow> (ustring \<times> ustring) option \<Rightarrow> (ustring \<times> ustring) option" where
  "prepend c r = (case r of None \<Rightarrow> None | Some (s, rest) \<Rightarrow> Some (c # s, rest))"

fun scanstring :: "ustring \<Rightarrow> (ustring \<times> ustring) option" where
  "scanstring [] = None"
| "scanstring (c # cs) =
     (if c = 0x22 then Some ([], cs)
      else if c = 0x5C then
        (case cs of
           [] \<Rightarrow> None
         | e # es \<Rightarrow>
             if e = 0x75 then
               (case decode_uXXXX es of
                  None \<Rightarrow> None
                | Some uni \<Rightarrow>
                    if 0xD800 \<le> uni \<and> uni \<le> 0xDBFF \<and> take 2 (drop 4 es) = [0x5C, 0x75] then
                      (case decode_uXXXX (drop 6 es) of
                         None \<Rightarrow> None
                       | Some uni2 \<Rightarrow>
                           if 0xDC00 \<le> uni2 \<and> uni2 \<le> 0xDFFF then
                             prepend (0x10000 + ((uni - 0xD800) * 1024 + (uni2 - 0xDC00)))
                               (scanstring (drop 10 es))
                           else prepend uni (scanstring (drop 4 es)))
                    else prepend uni (scanstring (drop 4 es)))
             else (case unescape e of
                     None \<Rightarrow> None
                   | Some ch \<Rightarrow> prepend ch (scanstring es)))
      else if c < 0x20 then None
      else prepend c (scanstring cs))"

text \<open>
  Numbers: an optional minus sign and an integer part without leading zero give an
  \<^verbatim>\<open>int\<close>. With a fraction or an exponent \<^verbatim>\<open>json.load\<close> returns a \<^verbatim>\<open>float\<close>, which the data
  model does not have: here such a text is not readable, so a checkpoint file holding
  such a number is outside what the model describes (the script writes none: it stores
  \<^verbatim>\<open>str\<close>, \<^verbatim>\<open>None\<close> and lists of what the servers sent as \<^verbatim>\<open>id\<close>). Integers are unbounded; the
  limit some Python versions put on the number of digits of a literal is not represented.
\<close>

definition is_digit :: "nat \<Rightarrow> bool" where
  "is_digit c = (48 \<le> c \<and> c \<le> 57)"

definition int_of_digits :: "ustring \<Rightarrow> nat" where
  "int_of_digits ds = foldl (\<lambda>n c. 10 * n + (c - 48)) 0 ds"

definition scan_int :: "ustring \<Rightarrow> (nat \<times> ustring) option" where
  "scan_int s =
     (case s of
        [] \<Rightarrow> None
      | c # cs \<Rightarrow>
          if c = 48 then Some (0, cs)
          else if 49 \<le> c \<and> c \<le> 57 then
            Some (int_of_digits (takeWhile is_digit s), dropWhile is_digit s)
          else None)"

definition frac_or_exp :: "ustring \<Rightarrow> bool" where
  "frac_or_exp s =
     (case s of
        [] \<Rightarrow> False
      | c # cs \<Rightarrow>
          if c = 0x2E then (case cs of [] \<Rightarrow> False | d # ds \<Rightarrow> is_digit d)
          else if c = 0x65 \<or> c = 0x45 then
            (case cs of
               [] \<Rightarrow> False
             | d # ds \<Rightarrow>
                 if d = 0x2B \<or> d = 0x2D then (case ds of [] \<Rightarrow> False | x # xs \<Rightarrow> is_digit x)
                 else is_digit d)
          else False)"

definition parse_number :: "ustring \<Rightarrow> (json \<times> ustring) option" where
  "parse_number s =
     (case s of
        [] \<Rightarrow> None
      | c # cs \<Rightarrow>
          (case (if c = 0x2D then scan_int cs else scan_int s) of
             None \<Rightarrow> None
           | Some (n, rest) \<Rightarrow>
               if frac_or_exp rest then None
               else Some (JNum (if c = 0x2D then - int n else int n), rest)))"

lemma length_skip_ws: "length (skip_ws s) \<le> length s"
  by (simp add: skip_ws_def length_dropWhile_le)

lemma skip_ws_Cons_length: "skip_ws s = d # ds \<Longrightarrow> length ds < length s"
  using length_skip_ws [of s] by simp

text \<open>
  Values, the items of a list after its opening bracket, and the members of a dict
  after its opening brace. The two tests on the length of what is left never fail (a
  value takes at least one character); they make the recursion visibly well-founded.
  Pairs are collected in reading order; a repeated key keeps its first place and gets
  the last value, as \<^verbatim>\<open>dict(pairs)\<close> does.
\<close>

function parse_value :: "ustring \<Rightarrow> (json \<times> ustring) option"
  and parse_items :: "ustring \<Rightarrow> (json list \<times> ustring) option"
  and parse_members :: "ustring \<Rightarrow> ((ustring \<times> json) list \<times> ustring) option" where
  "parse_value s =
     (case s of
        [] \<Rightarrow> None
      | c # cs \<Rightarrow>
          if c = 0x22 then
            (case scanstring cs of None \<Rightarrow> None | Some (t, rest) \<Rightarrow> Some (JStr t, rest))
          else if c = 0x7B then
            (case skip_ws cs of
               [] \<Rightarrow> None
             | d # ds \<Rightarrow>
                 if d = 0x7D then Some (JObj [], ds)
                 else (case parse_members (d # ds) of
                         None \<Rightarrow> None
                       | Some (kvs, rest) \<Rightarrow> Some (JObj (foldl (\<lambda>m kv. dict_set m (fst kv) (snd kv)) [] kvs), rest)))
          else if c = 0x5B then
            (case skip_ws cs of
               [] \<Rightarrow> None
             | d # ds \<Rightarrow>
                 if d = 0x5D then Some (JArr [], ds)
                 else (case parse_items (d # ds) of
                         None \<Rightarrow> None
                       | Some (xs, rest) \<Rightarrow> Some (JArr xs, rest)))
          else if take 4 s = U ''null'' then Some (JNull, drop 4 s)
          else if take 4 s = U ''true'' then Some (JBool True, drop 4 s)
          else if take 5 s = U ''false'' then Some (JBool False, drop 5 s)
          else parse_number s)"
| "parse_items s =
     (case parse_value s of
        None \<Rightarrow> None
      | Some (x, rest) \<Rightarrow>
          if length rest < length s then
            (case skip_ws rest of
               [] \<Rightarrow> None
             | d # ds \<Rightarrow>
                 if d = 0x5D then Some ([x], ds)
                 else if d = 0x2C then
                   (case parse_items (skip_ws ds) of
                      None \<Rightarrow> None
                    | Some (xs, rest') \<Rightarrow> Some (x # xs, rest'))
                 else None)
          else None)"
| "parse_members s =
     (case s of
        [] \<Rightarrow> None
      | q # cs \<Rightarrow>
          if q = 0x22 then
            (case scanstring cs of
               None \<Rightarrow> None
             | Some (k, after_key) \<Rightarrow>
                 (case skip_ws after_key of
                    [] \<Rightarrow> None
                  | colon # after_colon \<Rightarrow>
                      if colon = 0x3A \<and> length after_colon < length s then
                        (case parse_value (skip_ws after_colon) of
                           None \<Rightarrow> None
                         | Some (v, rest) \<Rightarrow>
                             if length rest < length s then
                               (case skip_ws rest of
                                  [] \<Rightarrow> None
                                | d # ds \<Rightarrow>
                                    if d = 0x7D then Some ([(k, v)], ds)
                                    else if d = 0x2C then
                                      (case parse_members (skip_ws ds) of
                                         None \<Rightarrow> None
                                       | Some (kvs, rest') \<Rightarrow> Some ((k, v) # kvs, rest'))
                                    else None)
                             else None)
                      else None))
          else None)"
  by pat_completeness auto

termination
proof (relation "measure (\<lambda>x. case x of
            Inl s \<Rightarrow> 2 * length s
          | Inr (Inl s) \<Rightarrow> 2 * length s + 1
          | Inr (Inr s) \<Rightarrow> 2 * length s + 1)", goal_cases)
  case 1
  show ?case by simp
next
  case (2 s c cs d ds)
  then show ?case using skip_ws_Cons_length [of cs d ds] by simp
next
  case (3 s c cs d ds)
  then show ?case using skip_ws_Cons_length [of cs d ds] by simp
next
  case (4 s)
  show ?case by simp
next
  case (5 s x rest y d ds)
  then show ?case
    using skip_ws_Cons_length [of y d ds] length_skip_ws [of ds] by simp
next
  case (6 s q cs x k after_key colon after_colon)
  then show ?case using length_skip_ws [of after_colon] by simp
next
  case (7 s q cs x k after_key colon after_colon xb v rest d ds)
  then show ?case
    using skip_ws_Cons_length [of rest d ds] length_skip_ws [of ds] by simp
qed

declare parse_value.simps [simp del] parse_items.simps [simp del] parse_members.simps [simp del]

text \<open>\<^verbatim>\<open>json.loads\<close>: one value, white space around it, nothing else.\<close>

definition loads :: "ustring \<Rightarrow> json option" where
  "loads s =
     (case parse_value (skip_ws s) of
        None \<Rightarrow> None
      | Some (obj, rest) \<Rightarrow> if skip_ws rest = [] then Some obj else None)"

subsection \<open>The checkpoint file\<close>

definition default_state :: json where
  "default_state = JObj [(U ''last_checked'', JNull), (U ''seen_ids'', JArr [])]"

definition load_state :: "world \<Rightarrow> error + json" where
  "load_state w =
     (case state_file w of
        None \<Rightarrow> Inr default_state
      | Some txt \<Rightarrow> (case loads txt of None \<Rightarrow> Inl JSONDecodeError | Some state \<Rightarrow> Inr state))"

text \<open>
  \<^verbatim>\<open>save_state\<close> opens the file with \<^verbatim>\<open>"w"\<close> and \<^verbatim>\<open>encoding="utf-8"\<close>, which empties it, and
  \<^verbatim>\<open>json.dump\<close> writes the text into it piece by piece. UTF-8 encodes the code points below
  \<^verbatim>\<open>0x110000\<close> but for the surrogates \<^verbatim>\<open>0xD800\<close> to \<^verbatim>\<open>0xDFFF\<close>, which a Python \<^verbatim>\<open>str\<close> can
  hold and \<^verbatim>\<open>ensure_ascii=False\<close> passes on as they are: a text with one of them raises
  \<^verbatim>\<open>UnicodeEncodeError\<close>, and the file is left with a part of what precedes it.
\<close>

definition encodable :: "nat \<Rightarrow> bool" where
  "encodable c = (c < 0xD800 \<or> (0xDFFF < c \<and> c < 0x110000))"

definition save_state :: "env \<Rightarrow> json \<Rightarrow> world \<Rightarrow> (error + unit) \<times> world" where
  "save_state env state w =
     (let txt = dump 0 state in
      if list_all encodable txt then (Inr (), w\<lparr>state_file := Some txt\<rparr>)
      else (Inl UnicodeEncodeError,
            w\<lparr>state_file := Some (take (written env txt) (takeWhile encodable txt))\<rparr>))"

text \<open>
  The checkpoint as \<^verbatim>\<open>main\<close> writes it into the default state: the timestamp (or
  \<^verbatim>\<open>None\<close>) and the identifiers in some order.
\<close>

definition checkpoint_state :: "ustring option \<Rightarrow> ustring list \<Rightarrow> json" where
  "checkpoint_state last_checked ids =
     JObj [(U ''last_checked'', case last_checked of None \<Rightarrow> JNull | Some t \<Rightarrow> JStr t),
           (U ''seen_ids'', JArr (map JStr ids))]"

section \<open>Orchestrator\<close>

text \<open>
  \<^verbatim>\<open>seen_ids\<close> is a Python \<^verbatim>\<open>set\<close>. Membership goes by hash and equality: a \<^verbatim>\<open>list\<close> or
  \<^verbatim>\<open>dict\<close> is unhashable, \<^verbatim>\<open>True\<close> and \<^verbatim>\<open>False\<close> are equal to 1 and 0. The set is kept
  as the list of its elements, none equal to another.
\<close>

datatype hkey = KNone | KInt int | KStr ustring

fun hash_key :: "json \<Rightarrow> hkey option" where
  "hash_key JNull = Some KNone"
| "hash_key (JBool b) = Some (KInt (if b then 1 else 0))"
| "hash_key (JNum n) = Some (KInt n)"
| "hash_key (JStr s) = Some (KStr s)"
| "hash_key (JArr xs) = None"
| "hash_key (JObj kvs) = None"

text \<open>\<^verbatim>\<open>x in seen\<close>.\<close>

definition py_in :: "json \<Rightarrow> json list \<Rightarrow> error + bool" where
  "py_in x seen =
     (case hash_key x of
        None \<Rightarrow> Inl TypeError
      | Some k \<Rightarrow> Inr (Some k \<in> set (map hash_key seen)))"

text \<open>\<^verbatim>\<open>seen.add(x)\<close> for a hashable \<open>x\<close>.\<close>

definition set_add :: "json \<Rightarrow> json list \<Rightarrow> json list" where
  "set_add x seen = (if hash_key x \<in> set (map hash_key seen) then seen else seen @ [x])"

text \<open>\<^verbatim>\<open>set(xs)\<close>, element by element.\<close>

fun py_set :: "json list \<Rightarrow> json list \<Rightarrow> error + json list" where
  "py_set seen [] = Inr seen"
| "py_set seen (x # xs) =
     (case hash_key x of None \<Rightarrow> Inl TypeError | Some k \<Rightarrow> py_set (set_add x seen) xs)"

text \<open>\<^verbatim>\<open>d[k] = v\<close> on a value read from the data.\<close>

fun py_setitem :: "json \<Rightarrow> ustring \<Rightarrow> json \<Rightarrow> error + json" where
  "py_setitem (JObj kvs) k v = Inr (JObj (dict_set kvs k v))"
| "py_setitem _ k v = Inl TypeError"

text \<open>The summary texts of the two kinds of message.\<close>

definition new_page_text :: ustring where
  "new_page_text = [0x4E, 0x6F, 0x74, 0x69, 0x6F, 0x6E, 0x20, 0xC0C8, 0x20, 0xD398, 0xC774, 0xC9C0]"

definition new_block_text :: ustring where
  "new_block_text = [0x4E, 0x6F, 0x74, 0x69, 0x6F, 0x6E, 0x20, 0xC0C8, 0x20, 0xBE14, 0xB85D]"

text \<open>
  The two inner loops of \<^verbatim>\<open>main\<close> (\<^verbatim>\<open>for p in pages\<close>, \<^verbatim>\<open>for b in blks\<close>) have the same
  body up to the formatter and the summary text: read the id, skip the item when the
  id is in \<^verbatim>\<open>seen_ids\<close>, otherwise format, post, and add the id.
\<close>

fun notify_items ::
  "env \<Rightarrow> (json \<Rightarrow> error + json) \<Rightarrow> ustring \<Rightarrow> json list \<Rightarrow> json list \<Rightarrow> world
     \<Rightarrow> (error + json list) \<times> world" where
  "notify_items env fmt text [] seen w = (Inr seen, w)"
| "notify_items env fmt text (p # ps) seen w =
     (case ebind (py_get p (U ''id'') JNull)
             (\<lambda>pid. ebind (py_in pid seen) (\<lambda>known. Inr (pid, known))) of
        Inl e \<Rightarrow> (Inl e, w)
      | Inr (pid, known) \<Rightarrow>
          if known then notify_items env fmt text ps seen w
          else (case fmt p of
                  Inl e \<Rightarrow> (Inl e, w)
                | Inr blocks \<Rightarrow>
                    (case slack_post env text blocks w of
                       (Inl e, w') \<Rightarrow> (Inl e, w')
                     | (Inr u, w') \<Rightarrow> notify_items env fmt text ps (set_add pid seen) w')))"

text \<open>The loop \<^verbatim>\<open>for dbid in DB_IDS\<close>.\<close>

fun db_phase ::
  "env \<Rightarrow> json \<Rightarrow> ustring list \<Rightarrow> json list \<Rightarrow> world
     \<Rightarrow> ((error + json list) \<times> world) option" where
  "db_phase env after_iso [] seen w = Some (Inr seen, w)"
| "db_phase env after_iso (dbid # dbids) seen w =
     (case query_new_db_pages env dbid after_iso w of
        None \<Rightarrow> None
      | Some (Inl e, w') \<Rightarrow> Some (Inl e, w')
      | Some (Inr pages, w') \<Rightarrow>
          (case notify_items env (format_page_block (py_repr env)) new_page_text pages seen w' of
             (Inl e, w'') \<Rightarrow> Some (Inl e, w'')
           | (Inr seen', w'') \<Rightarrow> db_phase env after_iso dbids seen' w''))"

text \<open>The loop \<^verbatim>\<open>for pgid in PAGE_IDS\<close>.\<close>

fun page_phase ::
  "env \<Rightarrow> datetime option \<Rightarrow> ustring list \<Rightarrow> json list \<Rightarrow> world
     \<Rightarrow> ((error + json list) \<times> world) option" where
  "page_phase env after_dt [] seen w = Some (Inr seen, w)"
| "page_phase env after_dt (pgid # pgids) seen w =
     (case list_new_blocks env pgid after_dt w of
        None \<Rightarrow> None
      | Some (Inl e, w') \<Rightarrow> Some (Inl e, w')
      | Some (Inr blks, w') \<Rightarrow>
          (case notify_items env (format_block_item (py_repr env)) new_block_text blks seen w' of
             (Inl e, w'') \<Rightarrow> Some (Inl e, w'')
           | (Inr seen', w'') \<Rightarrow> page_phase env after_dt pgids seen' w''))"

text \<open>
  The head of \<^verbatim>\<open>main\<close>: \<^verbatim>\<open>load_state()\<close>, \<^verbatim>\<open>state.get("last_checked")\<close> and
  \<^verbatim>\<open>set(state.get("seen_ids", []))\<close>.
\<close>

definition read_checkpoint :: "world \<Rightarrow> error + json \<times> json \<times> json list" where
  "read_checkpoint w =
     ebind (load_state w) (\<lambda>state.
       ebind (py_get state (U ''last_checked'') JNull) (\<lambda>last_checked.
         ebind (py_get state (U ''seen_ids'') (JArr [])) (\<lambda>ids.
           ebind (py_iter ids) (\<lambda>xs.
             ebind (py_set [] xs) (\<lambda>seen_ids. Inr (state, last_checked, seen_ids))))))"

text \<open>
  The boundary \<^verbatim>\<open>last_checked_iso\<close>: the clock on a first run (\<^verbatim>\<open>not last_checked\<close>), the
  stored value otherwise.
\<close>

definition boundary :: "env \<Rightarrow> json \<Rightarrow> world \<Rightarrow> json \<times> world" where
  "boundary env last_checked w =
     (if \<not> py_truthy last_checked then (case now_iso env w of (t, w') \<Rightarrow> (JStr t, w'))
      else (last_checked, w))"

text \<open>
  The second part of \<^verbatim>\<open>main\<close>, under \<^verbatim>\<open>if PAGE_IDS:\<close>; the boundary is parsed once, before
  the loop.
\<close>

definition block_part ::
  "env \<Rightarrow> config \<Rightarrow> json \<Rightarrow> json list \<Rightarrow> world \<Rightarrow> ((error + json list) \<times> world) option" where
  "block_part env cfg last_checked_iso seen w =
     (if PAGE_IDS cfg \<noteq> [] then
        (case (if py_truthy last_checked_iso
               then ebind (parse_dt env last_checked_iso) (\<lambda>d. Inr (Some d))
               else Inr None) of
           Inl e \<Rightarrow> Some (Inl e, w)
         | Inr after_dt \<Rightarrow> page_phase env after_dt (PAGE_IDS cfg) seen w)
      else Some (Inr seen, w))"

text \<open>The tail of \<^verbatim>\<open>main\<close>: the two assignments into \<^verbatim>\<open>state\<close> and \<^verbatim>\<open>save_state\<close>.\<close>

definition finish :: "env \<Rightarrow> json \<Rightarrow> json list \<Rightarrow> world \<Rightarrow> (error + unit) \<times> world" where
  "finish env state seen w =
     (case now_iso env w of
        (t, w') \<Rightarrow>
          (case ebind (py_setitem state (U ''last_checked'') (JStr t))
                  (\<lambda>s. py_setitem s (U ''seen_ids'') (JArr (set_order env seen))) of
             Inl e \<Rightarrow> (Inl e, w')
           | Inr state' \<Rightarrow> save_state env state' w'))"

text \<open>
  \<^verbatim>\<open>main\<close>. An exception ends the run where it is raised; \<open>None\<close> is a run that never
  ends.
\<close>

definition main :: "env \<Rightarrow> config \<Rightarrow> world \<Rightarrow> ((error + unit) \<times> world) option" where
  "main env cfg w =
     (case read_checkpoint w of
        Inl e \<Rightarrow> Some (Inl e, w)
      | Inr (state, last_checked, seen_ids) \<Rightarrow>
          (case boundary env last_checked w of
             (last_checked_iso, w1) \<Rightarrow>
               (case db_phase env last_checked_iso (DB_IDS cfg) seen_ids w1 of
                  None \<Rightarrow> None
                | Some (Inl e, w2) \<Rightarrow> Some (Inl e, w2)
                | Some (Inr seen2, w2) \<Rightarrow>
                    (case block_part env cfg last_checked_iso seen2 w2 of
                       None \<Rightarrow> None
                     | Some (Inl e, w3) \<Rightarrow> Some (Inl e, w3)
                     | Some (Inr seen3, w3) \<Rightarrow> Some (finish env state seen3 w3)))))"

section \<open>Example worlds\<close>

text \<open>
  An environment whose servers answer the \<open>k\<close>-th request of the run with a scripted
  result, whatever the request; the clock stands still, no date can be parsed.
\<close>

definition scripted_env :: "(nat \<Rightarrow> http_result) \<Rightarrow> env" where
  "scripted_env answers =
     \<lparr>respond = (\<lambda>k req. answers k),
      now_text = (\<lambda>k. U ''2024-05-01T00:00:00+00:00''),
      parse_dt = (\<lambda>v. Inl ParserError),
      py_repr = no_repr,
      set_order = (\<lambda>xs. xs),
      written = (\<lambda>txt. 0)\<rparr>"

text \<open>Every request is answered with the same status and no JSON body.\<close>

definition status_env :: "nat \<Rightarrow> env" where
  "status_env status = scripted_env (\<lambda>k. Response status None)"

text \<open>
  The same with a file object that has passed on the first 40 characters of a text when
  the encoding of a later piece fails.
\<close>

definition partial_write_env :: env where
  "partial_write_env = (status_env 200)\<lparr>written := (\<lambda>txt. 40)\<rparr>"

text \<open>Before a first run: no checkpoint file, nothing sent, the clock not read.\<close>

definition world0 :: world where
  "world0 = \<lparr>state_file = None, sent = [], clock_reads = 0\<rparr>"

text \<open>The one request \<^verbatim>\<open>slack_post\<close> sends.\<close>

definition webhook_request :: "ustring \<Rightarrow> json \<Rightarrow> request" where
  "webhook_request text blocks = POST Webhook (slack_payload text blocks)"

section \<open>Paged answers\<close>

text \<open>
  What the two pagination loops read from the body of an answer: the items under
  \<^verbatim>\<open>results\<close>, the truth value of \<^verbatim>\<open>has_more\<close>, and \<^verbatim>\<open>next_cursor\<close>.
\<close>

definition page_results :: "json \<Rightarrow> error + json list" where
  "page_results data = ebind (py_get data (U ''results'') (JArr [])) py_iter"

definition page_more :: "json \<Rightarrow> bool" where
  "page_more data =
     (case py_get data (U ''has_more'') JNull of Inr m \<Rightarrow> py_truthy m | Inl e \<Rightarrow> False)"

definition page_cursor :: "json \<Rightarrow> json" where
  "page_cursor data =
     (case py_get data (U ''next_cursor'') JNull of Inr c \<Rightarrow> c | Inl e \<Rightarrow> JNull)"

text \<open>A computation that did not raise.\<close>

definition succeeds :: "error + 'a \<Rightarrow> bool" where
  "succeeds r = (case r of Inr x \<Rightarrow> True | Inl e \<Rightarrow> False)"

text \<open>The items of a sequence of pages, one after the other.\<close>

fun all_results :: "(json \<Rightarrow> error + json list) \<Rightarrow> json list \<Rightarrow> json list" where
  "all_results items [] = []"
| "all_results items (data # pages) =
     (case items data of Inr rs \<Rightarrow> rs | Inl e \<Rightarrow> []) @ all_results items pages"

text \<open>
  A sequence of pages as a server delivers it: at least one page, \<^verbatim>\<open>has_more\<close> true on
  every page but the last, and items that can be read.
\<close>

fun paged :: "(json \<Rightarrow> error + json list) \<Rightarrow> json list \<Rightarrow> bool" where
  "paged items [] = False"
| "paged items [data] = (succeeds (items data) \<and> \<not> page_more data)"
| "paged items (data # pages) = (succeeds (items data) \<and> page_more data \<and> paged items pages)"


text \<open>
  The requests a traversal sends when it receives the given pages: each request after
  the first carries the \<^verbatim>\<open>next_cursor\<close> of the page before.
\<close>

fun children_requests :: "ustring \<Rightarrow> json option \<Rightarrow> json list \<Rightarrow> request list" where
  "children_requests page_id cursor [] = []"
| "children_requests page_id cursor (data # pages) =
     GET (BlockChildren page_id cursor)
       # children_requests page_id (Some (page_cursor data)) pages"

fun query_requests :: "ustring \<Rightarrow> (ustring \<times> json) list \<Rightarrow> json list \<Rightarrow> request list" where
  "query_requests db_id payload [] = []"
| "query_requests db_id payload (data # pages) =
     POST (DbQuery db_id) (JObj payload)
       # query_requests db_id (dict_set payload (U ''start_cursor'') (page_cursor data)) pages"

text \<open>
  The server answers the requests, from the \<open>k\<close>-th of the run on, with the given
  pages, and no status is an error status.
\<close>

fun served :: "env \<Rightarrow> nat \<Rightarrow> request list \<Rightarrow> json list \<Rightarrow> bool" where
  "served env k [] [] = True"
| "served env k (req # reqs) (data # pages) =
     ((case respond env k req of
         Response status (Some body) \<Rightarrow> body = data \<and> \<not> (400 \<le> status \<and> status < 600)
       | _ \<Rightarrow> False)
      \<and> served env (Suc k) reqs pages)"
| "served env k _ _ = False"

text \<open>Three pages of one record each, and servers that deliver them.\<close>

definition record_a :: json where
  "record_a = JObj [(U ''id'', JStr (U ''r-a''))]"

definition record_b :: json where
  "record_b = JObj [(U ''id'', JStr (U ''r-b''))]"

definition record_c :: json where
  "record_c = JObj [(U ''id'', JStr (U ''r-c''))]"

definition three_pages :: "json list" where
  "three_pages =
     [JObj [(U ''results'', JArr [record_a]), (U ''has_more'', JBool True),
            (U ''next_cursor'', JStr (U ''c1''))],
      JObj [(U ''results'', JArr [record_b]), (U ''has_more'', JBool True),
            (U ''next_cursor'', JStr (U ''c2''))],
      JObj [(U ''results'', JArr [record_c]), (U ''has_more'', JBool False),
            (U ''next_cursor'', JNull)]]"

definition three_page_env :: env where
  "three_page_env =
     scripted_env (\<lambda>k. if k < 3 then Response 200 (Some (three_pages ! k)) else NoResponse)"

definition since_may :: json where
  "since_may = JStr (U ''2024-05-01T00:00:00+00:00'')"

section \<open>What a run does\<close>

text \<open>
  The items a run notifies about: a record of a collection, or a content unit of a
  document. The id is what the loops read with \<^verbatim>\<open>.get("id")\<close>, and the key is the id as
  the set \<^verbatim>\<open>seen_ids\<close> compares it.
\<close>

datatype item = NewPage json | NewBlock json

fun item_json :: "item \<Rightarrow> json" where
  "item_json (NewPage p) = p"
| "item_json (NewBlock b) = b"

definition item_id :: "json \<Rightarrow> json" where
  "item_id p = (case py_get p (U ''id'') JNull of Inr pid \<Rightarrow> pid | Inl e \<Rightarrow> JNull)"

definition item_key :: "item \<Rightarrow> hkey option" where
  "item_key q = hash_key (item_id (item_json q))"

text \<open>The request that notifies about an item, from the formatter's result.\<close>

definition blocks_of :: "error + json \<Rightarrow> json" where
  "blocks_of r = (case r of Inr blocks \<Rightarrow> blocks | Inl e \<Rightarrow> JNull)"

fun item_request :: "env \<Rightarrow> item \<Rightarrow> request" where
  "item_request env (NewPage p) =
     webhook_request new_page_text (blocks_of (format_page_block (py_repr env) p))"
| "item_request env (NewBlock b) =
     webhook_request new_block_text (blocks_of (format_block_item (py_repr env) b))"

text \<open>The requests to the webhook among the requests of a run.\<close>

fun is_webhook :: "request \<Rightarrow> bool" where
  "is_webhook (POST Webhook body) = True"
| "is_webhook _ = False"

definition posts :: "request list \<Rightarrow> request list" where
  "posts reqs = filter is_webhook reqs"


text \<open>
  A collection query that carries the filter \<^verbatim>\<open>created_time\<close> after the boundary, and a
  workspace server that honours it: whatever it answers to such a query holds only
  records created after the boundary.
\<close>

definition filtered_by :: "json \<Rightarrow> request \<Rightarrow> bool" where
  "filtered_by boundary_iso req =
     (case req of
        POST (DbQuery db_id) (JObj payload) \<Rightarrow>
          map_of payload (U ''filter'') = Some (created_after boundary_iso)
      | _ \<Rightarrow> False)"


text \<open>A request that, if it is a collection query, carries the filter.\<close>

fun query_or_other :: "json \<Rightarrow> request \<Rightarrow> bool" where
  "query_or_other boundary_iso (POST (DbQuery db_id) body) =
     filtered_by boundary_iso (POST (DbQuery db_id) body)"
| "query_or_other boundary_iso _ = True"

text \<open>
  A stretch of a run, from the world \<open>w\<close> with the set \<open>seen\<close> to the world \<open>w'\<close> with
  the result \<open>r\<close>: the requests sent all satisfy \<open>R\<close>; the posts among them are the
  notifications of \<open>items\<close>, which all satisfy \<open>Q\<close>, have pairwise different keys and
  no key of \<open>seen\<close>; when the stretch ends normally the set has grown by exactly their
  keys; the checkpoint file and the clock are untouched.
\<close>

definition run_segment ::
  "env \<Rightarrow> (request \<Rightarrow> bool) \<Rightarrow> (item \<Rightarrow> bool) \<Rightarrow> json list \<Rightarrow> world
     \<Rightarrow> error + json list \<Rightarrow> world \<Rightarrow> item list \<Rightarrow> bool" where
  "run_segment env R Q seen w r w' items =
     ((\<exists>ext. sent w' = sent w @ ext \<and> (\<forall>req \<in> set ext. R req)
          \<and> posts ext = map (item_request env) items)
      \<and> (\<forall>q \<in> set items. Q q)
      \<and> distinct (map item_key items)
      \<and> (\<forall>q \<in> set items. item_key q \<notin> set (map hash_key seen))
      \<and> (\<forall>seen'. r = Inr seen' \<longrightarrow>
            set (map hash_key seen') = set (map hash_key seen) \<union> set (map item_key items))
      \<and> state_file w' = state_file w \<and> clock_reads w' = clock_reads w)"

text \<open>A stretch that only fetches: no post, and nothing else changes.\<close>

definition fetch_quiet :: "(request \<Rightarrow> bool) \<Rightarrow> world \<Rightarrow> world \<Rightarrow> bool" where
  "fetch_quiet R w0 w1 =
     ((\<exists>ext. sent w1 = sent w0 @ ext \<and> (\<forall>req \<in> set ext. \<not> is_webhook req \<and> R req))
      \<and> state_file w1 = state_file w0 \<and> clock_reads w1 = clock_reads w0)"

text \<open>
  The exception a post raises, from the answer the run got for it: the \<open>k\<close>-th request
  of the run, when it is a post to the webhook, fails with no response at all or with a
  status from 400 to 599.
\<close>

definition post_error :: "env \<Rightarrow> nat \<Rightarrow> request \<Rightarrow> error option" where
  "post_error env k req =
     (if is_webhook req then
        (case respond env k req of
           NoResponse \<Rightarrow> Some RequestException
         | Response status body \<Rightarrow>
             if 400 \<le> status \<and> status < 600 then Some (HTTPError status) else None)
      else None)"

text \<open>The exception a result stands for, if any.\<close>

definition raised :: "error + 'a \<Rightarrow> error option" where
  "raised r = (case r of Inl e \<Rightarrow> Some e | Inr x \<Rightarrow> None)"

text \<open>
  A stretch of a run from \<open>w\<close> to \<open>w'\<close> that ends with the exception \<open>eo\<close> (or
  normally): a post that fails is the last request of the stretch, and its exception
  is \<open>eo\<close>.
\<close>

definition aborts_at :: "env \<Rightarrow> world \<Rightarrow> error option \<Rightarrow> world \<Rightarrow> bool" where
  "aborts_at env w eo w' =
     (\<exists>ext. sent w' = sent w @ ext
        \<and> (\<forall>i < length ext. \<forall>e.
              post_error env (length (sent w) + i) (ext ! i) = Some e
              \<longrightarrow> eo = Some e \<and> Suc i = length ext))"

section \<open>Example runs\<close>

text \<open>Three dates, as the clock and the servers write them.\<close>

definition april_text :: ustring where
  "april_text = U ''2024-04-01T00:00:00+00:00''"

definition may_text :: ustring where
  "may_text = U ''2024-05-01T00:00:00+00:00''"

definition june_text :: ustring where
  "june_text = U ''2024-06-01T00:00:00+00:00''"

text \<open>
  A run with a checkpoint that knows \<^verbatim>\<open>r-a\<close>: the collection delivers \<^verbatim>\<open>r-a\<close> and twice
  \<^verbatim>\<open>r-c\<close>; the webhook answers with the given status.
\<close>

definition seen_world :: world where
  "seen_world =
     \<lparr>state_file = Some (dump 0 (checkpoint_state (Some april_text) [U ''r-a''])),
      sent = [], clock_reads = 0\<rparr>"

definition repeat_page :: json where
  "repeat_page = JObj [(U ''results'', JArr [record_a, record_c, record_c]),
                      (U ''has_more'', JBool False), (U ''next_cursor'', JNull)]"

definition repeat_env :: "nat \<Rightarrow> env" where
  "repeat_env status =
     scripted_env (\<lambda>k. if k = 0 then Response 200 (Some repeat_page) else Response status None)"

definition one_db :: config where
  "one_db = \<lparr>DB_IDS = [U ''db1''], PAGE_IDS = []\<rparr>"

definition repeat_query :: request where
  "repeat_query = POST (DbQuery (U ''db1'')) (JObj (db_payload (JStr april_text)))"

definition record_c_post :: request where
  "record_c_post =
     webhook_request new_page_text (page_blocks no_repr no_title (JStr notion_home) (JStr []))"















section \<open>Properties of the formatter\<close>

lemma ebind_simps [simp]:
  "ebind (Inl e) f = Inl e" "ebind (Inr x) f = f x"
  by (simp_all add: ebind_def)

lemma U_eq_iff [simp]: "U s = U t \<longleftrightarrow> s = t"
  unfolding U_def by (rule inj_map_eq_map) (rule inj_of_char)

lemma U_Nil [simp]: "U [] = []"
  by (simp add: U_def)
lemma U_eq_Nil [simp]: "U s = [] \<longleftrightarrow> s = []"
  by (simp add: U_def)
lemma U_append: "U (s @ t) = U s @ U t"
  by (simp add: U_def)

lemma py_join_strs: "py_join (map JStr ts) = Inr (concat ts)"
  by (induction ts) simp_all

lemma plain_texts_total:
  "list_all rich_text_obj rs \<Longrightarrow> \<exists>ts. plain_texts rs = Inr (map JStr ts)"
proof (induction rs)
  case Nil
  then show ?case by simp
next
  case (Cons r rs)
  then obtain ts where ts: "plain_texts rs = Inr (map JStr ts)" by auto
  from Cons.prems obtain kvs where r: "r = JObj kvs" by (cases r) auto
  from Cons.prems r obtain t where "py_get r (U ''plain_text'') (JStr []) = Inr (JStr t)"
    by (auto split: option.splits json.splits)
  with ts have "plain_texts (r # rs) = Inr (map JStr (t # ts))" by simp
  then show ?case by blast
qed

lemma joined_text_runs:
  "py_iter rich = Inr rs \<Longrightarrow> plain_texts rs = Inr (map JStr ts) \<Longrightarrow>
   joined_text rich = Inr (concat ts)"
  by (simp add: joined_text_def py_join_strs)

lemma title_scan_skip:
  "\<forall>p \<in> set pre. skipped p \<Longrightarrow> title_scan (pre @ vs) = title_scan vs"
proof (induction pre)
  case Nil
  then show ?case by simp
next
  case (Cons p pre)
  then obtain kvs where "p = JObj kvs" by (cases p) auto
  with Cons show ?case by (auto split: option.splits)
qed

lemma not_title_skipped: "not_title p \<Longrightarrow> skipped p"
  by (cases p) auto

lemma title_scan_none:
  assumes "\<forall>p \<in> set vs. skipped p"
  shows "title_scan vs = Inr no_title"
  using title_scan_skip [OF assms, of "[]"] by simp

lemma title_scan_selected:
  assumes "\<forall>p \<in> set pre. skipped p"
    and "py_get v (U ''type'') JNull = Inr (JStr (U ''title''))"
    and "py_get v (U ''title'') (JArr []) = Inr rich"
    and "py_truthy rich"
    and "joined_text rich = Inr s"
  shows "title_scan (pre @ v # post) = Inr (if take 120 s = [] then no_title else take 120 s)"
  using assms by (simp add: title_scan_skip)

lemma page_title_selected:
  assumes "py_get page (U ''properties'') (JObj []) = Inr (JObj props)"
    and "map snd props = pre @ v # post"
    and "\<forall>p \<in> set pre. skipped p"
    and "py_get v (U ''type'') JNull = Inr (JStr (U ''title''))"
    and "py_get v (U ''title'') (JArr []) = Inr rich"
    and "py_truthy rich"
    and "joined_text rich = Inr s"
  shows "page_title page = Inr (if take 120 s = [] then no_title else take 120 s)"
  using assms title_scan_selected [of pre v rich s post] by (simp add: page_title_def)

lemma title_scan_total: "list_all property_obj vs \<Longrightarrow> \<exists>t. title_scan vs = Inr t"
proof (induction vs)
  case Nil
  then show ?case by simp
next
  case (Cons v vs)
  then obtain t where t: "title_scan vs = Inr t" by auto
  from Cons.prems obtain kvs where v: "v = JObj kvs" by (cases v) auto
  show ?case
  proof (cases "map_of kvs (U ''title'')")
    case None
    with v t show ?thesis by simp
  next
    case (Some r)
    with Cons.prems v obtain rs where r: "r = JArr rs" and rs: "list_all rich_text_obj rs"
      by (cases r) auto
    from plain_texts_total [OF rs] obtain ts where "plain_texts rs = Inr (map JStr ts)" ..
    then have "joined_text r = Inr (concat ts)" using r by (simp add: joined_text_runs)
    with v t Some r show ?thesis by simp
  qed
qed

lemma page_title_total: "record_obj page \<Longrightarrow> \<exists>t. page_title page = Inr t"
proof -
  assume a: "record_obj page"
  then obtain kvs where p: "page = JObj kvs" by (cases page) auto
  show ?thesis
  proof (cases "map_of kvs (U ''properties'')")
    case None
    with p show ?thesis by (simp add: page_title_def)
  next
    case (Some ps)
    with a p obtain m where "ps = JObj m" "list_all property_obj (map snd m)"
      by (cases ps) auto
    with p Some title_scan_total [of "map snd m"] show ?thesis
      by (simp add: page_title_def)
  qed
qed


lemma py_iter_nonempty: "py_iter v = Inr rs \<Longrightarrow> rs \<noteq> [] \<Longrightarrow> py_truthy v"
  by (cases v) auto

lemma py_get_Inr_obj: "py_get page k d = Inr x \<Longrightarrow> \<exists>kvs. page = JObj kvs"
  by (cases page) auto

text \<open>
  The value \<^verbatim>\<open>format_page_block\<close> returns, written out: the header section, the section with
  the two fields (the label and \<^verbatim>\<open><{url}|{title}>\<close>, the label and the creation time), and the
  divider.
\<close>

lemma format_page_block_written:
  assumes "page_title (JObj kvs) = Inr title"
  shows "format_page_block repr (JObj kvs) =
     Inr (JArr
       [JObj [(U ''type'', JStr (U ''section'')),
              (U ''text'', JObj [(U ''type'', JStr (U ''mrkdwn'')),
                 (U ''text'', JStr [0x2A, 0xC0C8, 0x20, 0xD398, 0xC774, 0xC9C0, 0xAC00, 0x20,
                    0xC0DD, 0xC131, 0xB418, 0xC5C8, 0xC2B5, 0xB2C8, 0xB2E4, 0x2A])])],
        JObj [(U ''type'', JStr (U ''section'')),
              (U ''fields'', JArr
                 [JObj [(U ''type'', JStr (U ''mrkdwn'')),
                    (U ''text'', JStr ([0x2A, 0xC81C, 0xBAA9, 0x3A, 0x2A, 0x0A] @ U ''<''
                       @ py_str repr (case map_of kvs (U ''url'') of
                                        None \<Rightarrow> JStr (U ''https://www.notion.so'') | Some u \<Rightarrow> u)
                       @ U ''|'' @ title @ U ''>''))],
                  JObj [(U ''type'', JStr (U ''mrkdwn'')),
                    (U ''text'', JStr ([0x2A, 0xC0DD, 0xC131, 0xC2DC, 0xAC01, 0x20, 0x28, 0x55,
                       0x54, 0x43, 0x29, 0x3A, 0x2A, 0x0A]
                       @ py_str repr (case map_of kvs (U ''created_time'') of
                                        None \<Rightarrow> JStr [] | Some c \<Rightarrow> c)))]])],
        JObj [(U ''type'', JStr (U ''divider''))]])"
  using assms
  by (simp add: format_page_block_def page_url_def page_blocks_def section_text_def
      section_fields_def mrkdwn_def divider_def title_field_def title_label_def
      created_label_def page_header_def notion_home_def split: option.splits)

text \<open>
  Claim C5, as stated, fails at four records. Without any title-typed property the title
  is the Korean placeholder of the source, not the string \<^verbatim>\<open>(no title)\<close>. When the first
  title-typed property has no runs, the scan goes on and the title comes from the next
  title-typed property that has runs. Runs that concatenate to 130 characters give a
  title of 120 characters, not the concatenation. A single empty run gives the
  placeholder, not the empty concatenation.
\<close>

theorem title_placeholder_counterexample:
  "page_title untitled_page = Inr [0x28, 0xC81C, 0xBAA9, 0x20, 0xC5C6, 0xC74C, 0x29]
   \<and> page_title untitled_page \<noteq> Inr (U ''(no title)'')
   \<and> page_title two_titles_page = Inr (U ''Later'')
   \<and> page_title long_page = Inr (replicate 70 97 @ replicate 50 98)
   \<and> page_title long_page \<noteq> Inr (replicate 70 97 @ replicate 60 98)
   \<and> page_title blank_title_page = Inr [0x28, 0xC81C, 0xBAA9, 0x20, 0xC5C6, 0xC74C, 0x29]"
  by (simp add: page_title_def untitled_page_def two_titles_page_def long_page_def
      blank_title_page_def joined_text_def no_title_def U_def)

text \<open>
  Claim C5, amended. \<^verbatim>\<open>page_title\<close> takes the first title-typed property whose list of runs
  is not empty (every property before it is passed over) and returns the concatenation of
  its runs in order, cut to 120 characters, or the placeholder of the source when that
  text is empty; whatever follows the property does not matter. With the runs
  \<^verbatim>\<open>"Hello "\<close>, \<^verbatim>\<open>"World"\<close> in the only title-typed property the title is \<^verbatim>\<open>"Hello World"\<close>. When
  no property is title-typed with runs, in particular when none is title-typed, the
  title is the placeholder.
\<close>

theorem title_extraction:
  assumes "map_of kvs (U ''properties'') = Some (JObj props)"
  shows "(map snd props = pre @ v # post
            \<and> (\<forall>p \<in> set pre. skipped p)
            \<and> py_get v (U ''type'') JNull = Inr (JStr (U ''title''))
            \<and> py_get v (U ''title'') (JArr []) = Inr rich
            \<and> py_iter rich = Inr runs \<and> runs \<noteq> []
            \<and> plain_texts runs = Inr (map JStr ts)
          \<longrightarrow> page_title (JObj kvs) =
                Inr (if take 120 (concat ts) = [] then [0x28, 0xC81C, 0xBAA9, 0x20, 0xC5C6, 0xC74C, 0x29]
                     else take 120 (concat ts)))
       \<and> (map snd props = pre @ v # post
            \<and> (\<forall>p \<in> set (pre @ post). not_title p)
            \<and> py_get v (U ''type'') JNull = Inr (JStr (U ''title''))
            \<and> py_get v (U ''title'') (JArr []) = Inr (JArr runs)
            \<and> plain_texts runs = Inr [JStr (U ''Hello ''), JStr (U ''World'')]
          \<longrightarrow> page_title (JObj kvs) = Inr (U ''Hello World''))
       \<and> ((\<forall>p \<in> set (map snd props). skipped p)
          \<longrightarrow> page_title (JObj kvs) = Inr [0x28, 0xC81C, 0xBAA9, 0x20, 0xC5C6, 0xC74C, 0x29])"
proof (intro conjI impI)
  from assms have p: "py_get (JObj kvs) (U ''properties'') (JObj []) = Inr (JObj props)"
    by simp
  {
    assume a: "map snd props = pre @ v # post
            \<and> (\<forall>p \<in> set pre. skipped p)
            \<and> py_get v (U ''type'') JNull = Inr (JStr (U ''title''))
            \<and> py_get v (U ''title'') (JArr []) = Inr rich
            \<and> py_iter rich = Inr runs \<and> runs \<noteq> []
            \<and> plain_texts runs = Inr (map JStr ts)"
    then have truthy: "py_truthy rich" by (auto intro: py_iter_nonempty)
    from a have j: "joined_text rich = Inr (concat ts)" by (auto intro: joined_text_runs)
    from a page_title_selected [OF p _ _ _ _ truthy j, of pre v post]
    show "page_title (JObj kvs) =
                Inr (if take 120 (concat ts) = [] then [0x28, 0xC81C, 0xBAA9, 0x20, 0xC5C6, 0xC74C, 0x29]
                     else take 120 (concat ts))"
      by (simp add: no_title_def)
  }
  {
    assume a: "map snd props = pre @ v # post
            \<and> (\<forall>p \<in> set (pre @ post). not_title p)
            \<and> py_get v (U ''type'') JNull = Inr (JStr (U ''title''))
            \<and> py_get v (U ''title'') (JArr []) = Inr (JArr runs)
            \<and> plain_texts runs = Inr [JStr (U ''Hello ''), JStr (U ''World'')]"
    then have runs: "runs \<noteq> []" by auto
    from a have pre: "\<forall>p \<in> set pre. skipped p" by (auto intro: not_title_skipped)
    from a have "plain_texts runs = Inr (map JStr [U ''Hello '', U ''World''])" by simp
    then have j: "joined_text (JArr runs) = Inr (concat [U ''Hello '', U ''World''])"
      by (intro joined_text_runs) simp_all
    have "concat [U ''Hello '', U ''World''] = U ''Hello World''" by (simp add: U_def)
    with j have j': "joined_text (JArr runs) = Inr (U ''Hello World'')" by simp
    have t: "take 120 (U ''Hello World'') = U ''Hello World''" by (simp add: U_def)
    from page_title_selected [OF p _ pre _ _ _ j', where post = post] a runs
    have "page_title (JObj kvs) =
       Inr (if take 120 (U ''Hello World'') = [] then no_title else take 120 (U ''Hello World''))"
      by simp
    then show "page_title (JObj kvs) = Inr (U ''Hello World'')" unfolding t by simp
  }
  {
    assume "\<forall>p \<in> set (map snd props). skipped p"
    from title_scan_none [OF this] assms
    show "page_title (JObj kvs) = Inr [0x28, 0xC81C, 0xBAA9, 0x20, 0xC5C6, 0xC74C, 0x29]"
      by (simp add: page_title_def no_title_def)
  }
qed

text \<open>
  C5 at three example records: the runs \<^verbatim>\<open>"Hello "\<close>, \<^verbatim>\<open>"World"\<close>; a title-typed property
  without runs before two with runs; no title-typed property.
\<close>

theorem title_extraction_witness:
  "page_title hello_page = Inr (U ''Hello World'')
   \<and> page_title two_titles_page = Inr (U ''Later'')
   \<and> page_title untitled_page = Inr [0x28, 0xC81C, 0xBAA9, 0x20, 0xC5C6, 0xC74C, 0x29]"
proof -
  have 1: "page_title hello_page = Inr (U ''Hello World'')"
    using title_extraction [where kvs =
      "[(U ''id'', JStr (U ''p1'')),
        (U ''properties'', JObj
          [(U ''Status'', JObj [(U ''type'', JStr (U ''select''))]),
           (U ''Name'', JObj [(U ''type'', JStr (U ''title'')),
              (U ''title'', JArr [JObj [(U ''plain_text'', JStr (U ''Hello ''))],
                                 JObj [(U ''plain_text'', JStr (U ''World''))]])]),
           (U ''Tags'', JObj [(U ''type'', JStr (U ''multi_select''))])])]"
      and props =
      "[(U ''Status'', JObj [(U ''type'', JStr (U ''select''))]),
        (U ''Name'', JObj [(U ''type'', JStr (U ''title'')),
           (U ''title'', JArr [JObj [(U ''plain_text'', JStr (U ''Hello ''))],
                              JObj [(U ''plain_text'', JStr (U ''World''))]])]),
        (U ''Tags'', JObj [(U ''type'', JStr (U ''multi_select''))])]"
      and pre = "[JObj [(U ''type'', JStr (U ''select''))]]"
      and v = "JObj [(U ''type'', JStr (U ''title'')),
            (U ''title'', JArr [JObj [(U ''plain_text'', JStr (U ''Hello ''))],
                               JObj [(U ''plain_text'', JStr (U ''World''))]])]"
      and post = "[JObj [(U ''type'', JStr (U ''multi_select''))]]"
      and runs = "[JObj [(U ''plain_text'', JStr (U ''Hello ''))],
        JObj [(U ''plain_text'', JStr (U ''World''))]]"]
    by (simp add: hello_page_def)
  have l: "take 120 (concat [U ''Later'']) = U ''Later''" by (simp add: U_def)
  have 2: "page_title two_titles_page = Inr (U ''Later'')"
    using title_extraction [where kvs =
      "[(U ''id'', JStr (U ''p6'')),
        (U ''properties'', JObj
          [(U ''Status'', JObj [(U ''type'', JStr (U ''select''))]),
           (U ''Old'', JObj [(U ''type'', JStr (U ''title'')), (U ''title'', JArr [])]),
           (U ''Name'', JObj [(U ''type'', JStr (U ''title'')),
              (U ''title'', JArr [JObj [(U ''plain_text'', JStr (U ''Later''))]])]),
           (U ''Alias'', JObj [(U ''type'', JStr (U ''title'')),
              (U ''title'', JArr [JObj [(U ''plain_text'', JStr (U ''Last''))]])])])]"
      and props = "[(U ''Status'', JObj [(U ''type'', JStr (U ''select''))]),
        (U ''Old'', JObj [(U ''type'', JStr (U ''title'')), (U ''title'', JArr [])]),
        (U ''Name'', JObj [(U ''type'', JStr (U ''title'')),
           (U ''title'', JArr [JObj [(U ''plain_text'', JStr (U ''Later''))]])]),
        (U ''Alias'', JObj [(U ''type'', JStr (U ''title'')),
           (U ''title'', JArr [JObj [(U ''plain_text'', JStr (U ''Last''))]])])]"
      and pre = "[JObj [(U ''type'', JStr (U ''select''))],
        JObj [(U ''type'', JStr (U ''title'')), (U ''title'', JArr [])]]"
      and v = "JObj [(U ''type'', JStr (U ''title'')),
           (U ''title'', JArr [JObj [(U ''plain_text'', JStr (U ''Later''))]])]"
      and post = "[JObj [(U ''type'', JStr (U ''title'')),
           (U ''title'', JArr [JObj [(U ''plain_text'', JStr (U ''Last''))]])]]"
      and rich = "JArr [JObj [(U ''plain_text'', JStr (U ''Later''))]]"
      and runs = "[JObj [(U ''plain_text'', JStr (U ''Later''))]]"
      and ts = "[U ''Later'']", unfolded l]
    by (simp add: two_titles_page_def)
  have 3: "page_title untitled_page = Inr [0x28, 0xC81C, 0xBAA9, 0x20, 0xC5C6, 0xC74C, 0x29]"
    using title_extraction [where kvs =
      "[(U ''id'', JStr (U ''p2'')),
        (U ''properties'', JObj [(U ''Status'', JObj [(U ''type'', JStr (U ''select''))])])]"
      and props = "[(U ''Status'', JObj [(U ''type'', JStr (U ''select''))])]"]
    by (simp add: untitled_page_def)
  from 1 2 3 show ?thesis by (simp only: simp_thms)
qed

text \<open>
  Claim C6. When the runs of the selected title property concatenate to 130
  characters, \<^verbatim>\<open>page_title\<close> is the first 120 characters of the whole concatenation (the cut
  is made once, after joining), and that text is the title inside the link of the
  payload \<^verbatim>\<open>format_page_block\<close> returns, which is written out in full.
\<close>

theorem title_truncation:
  assumes "map_of kvs (U ''properties'') = Some (JObj props)"
    and "map snd props = pre @ v # post"
    and "\<forall>p \<in> set pre. skipped p"
    and "py_get v (U ''type'') JNull = Inr (JStr (U ''title''))"
    and "py_get v (U ''title'') (JArr []) = Inr rich"
    and "py_iter rich = Inr runs"
    and "plain_texts runs = Inr (map JStr ts)"
    and "length (concat ts) = 130"
  shows "page_title (JObj kvs) = Inr (take 120 (concat ts))
       \<and> length (take 120 (concat ts)) = 120
       \<and> format_page_block repr (JObj kvs) =
           Inr (JArr
       [JObj [(U ''type'', JStr (U ''section'')),
              (U ''text'', JObj [(U ''type'', JStr (U ''mrkdwn'')),
                 (U ''text'', JStr [0x2A, 0xC0C8, 0x20, 0xD398, 0xC774, 0xC9C0, 0xAC00, 0x20,
                    0xC0DD, 0xC131, 0xB418, 0xC5C8, 0xC2B5, 0xB2C8, 0xB2E4, 0x2A])])],
        JObj [(U ''type'', JStr (U ''section'')),
              (U ''fields'', JArr
                 [JObj [(U ''type'', JStr (U ''mrkdwn'')),
                    (U ''text'', JStr ([0x2A, 0xC81C, 0xBAA9, 0x3A, 0x2A, 0x0A] @ U ''<''
                       @ py_str repr (case map_of kvs (U ''url'') of
                                        None \<Rightarrow> JStr (U ''https://www.notion.so'') | Some u \<Rightarrow> u)
                       @ U ''|'' @ take 120 (concat ts) @ U ''>''))],
                  JObj [(U ''type'', JStr (U ''mrkdwn'')),
                    (U ''text'', JStr ([0x2A, 0xC0DD, 0xC131, 0xC2DC, 0xAC01, 0x20, 0x28, 0x55,
                       0x54, 0x43, 0x29, 0x3A, 0x2A, 0x0A]
                       @ py_str repr (case map_of kvs (U ''created_time'') of
                                        None \<Rightarrow> JStr [] | Some c \<Rightarrow> c)))]])],
        JObj [(U ''type'', JStr (U ''divider''))]])"
proof -
  from assms(7,8) have "runs \<noteq> []" by auto
  with assms(6) have truthy: "py_truthy rich" by (rule py_iter_nonempty)
  from assms(6,7) have j: "joined_text rich = Inr (concat ts)" by (rule joined_text_runs)
  from assms(8) have len: "length (take 120 (concat ts)) = 120" by simp
  have ne: "take 120 (concat ts) \<noteq> []"
  proof
    assume "take 120 (concat ts) = []"
    then have "length (take 120 (concat ts)) = 0" by (simp only: list.size)
    with len show False by simp
  qed
  from assms(1) have p: "py_get (JObj kvs) (U ''properties'') (JObj []) = Inr (JObj props)"
    by simp
  from page_title_selected [OF p assms(2,3,4,5) truthy j]
  have t: "page_title (JObj kvs) = Inr (take 120 (concat ts))" by (simp only: ne if_False)
  from t len format_page_block_written [OF t, of repr] show ?thesis by (simp only: simp_thms)
qed

text \<open>
  C6 at a title of two runs of 70 and 60 characters: neither run is cut by itself, the
  payload holds the 70 and the first 50 of the 60.
\<close>

theorem title_truncation_witness:
  "page_title linked_long_page = Inr (replicate 70 97 @ replicate 50 98)
   \<and> length (replicate 70 (97::nat) @ replicate 50 98) = 120
   \<and> format_page_block no_repr linked_long_page =
       Inr (JArr
       [JObj [(U ''type'', JStr (U ''section'')),
              (U ''text'', JObj [(U ''type'', JStr (U ''mrkdwn'')),
                 (U ''text'', JStr [0x2A, 0xC0C8, 0x20, 0xD398, 0xC774, 0xC9C0, 0xAC00, 0x20,
                    0xC0DD, 0xC131, 0xB418, 0xC5C8, 0xC2B5, 0xB2C8, 0xB2E4, 0x2A])])],
        JObj [(U ''type'', JStr (U ''section'')),
              (U ''fields'', JArr
                 [JObj [(U ''type'', JStr (U ''mrkdwn'')),
                    (U ''text'', JStr ([0x2A, 0xC81C, 0xBAA9, 0x3A, 0x2A, 0x0A] @ U ''<''
                       @ U ''https://www.notion.so/p4''
                       @ U ''|'' @ replicate 70 97 @ replicate 50 98 @ U ''>''))],
                  JObj [(U ''type'', JStr (U ''mrkdwn'')),
                    (U ''text'', JStr ([0x2A, 0xC0DD, 0xC131, 0xC2DC, 0xAC01, 0x20, 0x28, 0x55,
                       0x54, 0x43, 0x29, 0x3A, 0x2A, 0x0A]
                       @ U ''2024-06-01T00:00:00.000Z''))]])],
        JObj [(U ''type'', JStr (U ''divider''))]])"
proof -
  have l: "length (concat [replicate 70 (97::nat), replicate 60 98]) = 130" by simp
  have t: "take 120 (concat [replicate 70 (97::nat), replicate 60 98])
      = replicate 70 97 @ replicate 50 98" by simp
  from title_truncation [of
      "[(U ''id'', JStr (U ''p4'')),
        (U ''created_time'', JStr (U ''2024-06-01T00:00:00.000Z'')),
        (U ''url'', JStr (U ''https://www.notion.so/p4'')),
        (U ''properties'', JObj
          [(U ''Name'', JObj [(U ''type'', JStr (U ''title'')),
            (U ''title'', JArr [JObj [(U ''plain_text'', JStr (replicate 70 97))],
                               JObj [(U ''plain_text'', JStr (replicate 60 98))]])])])]"
      "[(U ''Name'', JObj [(U ''type'', JStr (U ''title'')),
            (U ''title'', JArr [JObj [(U ''plain_text'', JStr (replicate 70 97))],
                               JObj [(U ''plain_text'', JStr (replicate 60 98))]])])]"
      "[]" _ "[]" _
      "[JObj [(U ''plain_text'', JStr (replicate 70 97))],
        JObj [(U ''plain_text'', JStr (replicate 60 98))]]"
      "[replicate 70 97, replicate 60 98]" no_repr, unfolded t]
  show ?thesis by (simp add: linked_long_page_def)
qed

lemma block_text_rich:
  assumes "map_of kvs (U ''rich_text'') = Some rt" and "py_truthy rt"
  shows "block_text kvs = ebind (joined_text rt) (\<lambda>s. Inr (take 200 s))"
  using assms by (simp add: block_text_def)

lemma block_text_none:
  assumes "\<forall>rt. map_of kvs (U ''rich_text'') = Some rt \<longrightarrow> \<not> py_truthy rt"
    and "\<forall>t. map_of kvs (U ''text'') = Some t \<longrightarrow> \<not> py_truthy t"
  shows "block_text kvs = Inr []"
  using assms by (simp add: block_text_def split: option.splits)

text \<open>
  The value \<^verbatim>\<open>format_block_item\<close> returns, written out: the header section, the section
  with the type and the creation time, the section with the preview (\<^verbatim>\<open>txt\<close> or the
  placeholder), and the divider.
\<close>

lemma format_block_item_written:
  assumes "py_get block (U ''type'') JNull = Inr btype"
    and "py_get block (U ''created_time'') (JStr []) = Inr created"
    and "py_get_any block btype (JObj []) = Inr (JObj kvs)"
    and "block_text kvs = Inr txt"
  shows "format_block_item repr block =
     Inr (JArr
       [JObj [(U ''type'', JStr (U ''section'')),
              (U ''text'', JObj [(U ''type'', JStr (U ''mrkdwn'')),
                 (U ''text'', JStr [0x2A, 0xD398, 0xC774, 0xC9C0, 0x20, 0xB0B4, 0x20, 0xC0C8,
                    0x20, 0xBE14, 0xB85D, 0x20, 0xCD94, 0xAC00, 0x2A])])],
        JObj [(U ''type'', JStr (U ''section'')),
              (U ''fields'', JArr
                 [JObj [(U ''type'', JStr (U ''mrkdwn'')),
                    (U ''text'', JStr ([0x2A, 0xBE14, 0xB85D, 0x20, 0xD0C0, 0xC785, 0x3A, 0x2A,
                       0x0A] @ U ''`'' @ py_str repr btype @ U ''`''))],
                  JObj [(U ''type'', JStr (U ''mrkdwn'')),
                    (U ''text'', JStr ([0x2A, 0xC0DD, 0xC131, 0xC2DC, 0xAC01, 0x20, 0x28, 0x55,
                       0x54, 0x43, 0x29, 0x3A, 0x2A, 0x0A] @ py_str repr created))]])],
        JObj [(U ''type'', JStr (U ''section'')),
              (U ''text'', JObj [(U ''type'', JStr (U ''mrkdwn'')),
                 (U ''text'', JStr ([0x2A, 0xB0B4, 0xC6A9, 0x20, 0xBBF8, 0xB9AC, 0xBCF4, 0xAE30,
                    0x3A, 0x2A, 0x0A] @ (if txt = [] then [0x28, 0xD14D, 0xC2A4, 0xD2B8, 0x20, 0xC5C6, 0xC74C, 0x29] else txt)))])],
        JObj [(U ''type'', JStr (U ''divider''))]])"
  using assms
  by (simp add: format_block_item_def block_blocks_def section_text_def section_fields_def
      mrkdwn_def divider_def block_header_def type_label_def created_label_def
      preview_label_def preview_def no_text_def)

text \<open>
  Claim C7, as stated, fails at three content units. With neither field present, and with
  both fields empty, the preview in the payload is the Korean placeholder of the source,
  not the string \<^verbatim>\<open>(no text)\<close>. With a \<^verbatim>\<open>rich_text\<close> whose only run is empty beside a
  non-empty \<^verbatim>\<open>text\<close>, the preview is the placeholder, not the (empty) text taken from
  \<^verbatim>\<open>rich_text\<close>.
\<close>

theorem preview_placeholder_counterexample:
  "format_block_item no_repr bare_paragraph =
     Inr (JArr
       [JObj [(U ''type'', JStr (U ''section'')),
              (U ''text'', JObj [(U ''type'', JStr (U ''mrkdwn'')),
                 (U ''text'', JStr [0x2A, 0xD398, 0xC774, 0xC9C0, 0x20, 0xB0B4, 0x20, 0xC0C8,
                    0x20, 0xBE14, 0xB85D, 0x20, 0xCD94, 0xAC00, 0x2A])])],
        JObj [(U ''type'', JStr (U ''section'')),
              (U ''fields'', JArr
                 [JObj [(U ''type'', JStr (U ''mrkdwn'')),
                    (U ''text'', JStr ([0x2A, 0xBE14, 0xB85D, 0x20, 0xD0C0, 0xC785, 0x3A, 0x2A,
                       0x0A] @ U ''`'' @ U ''paragraph'' @ U ''`''))],
                  JObj [(U ''type'', JStr (U ''mrkdwn'')),
                    (U ''text'', JStr ([0x2A, 0xC0DD, 0xC131, 0xC2DC, 0xAC01, 0x20, 0x28, 0x55,
                       0x54, 0x43, 0x29, 0x3A, 0x2A, 0x0A] @ U ''2024-01-01T00:00:00.000Z''))]])],
        JObj [(U ''type'', JStr (U ''section'')),
              (U ''text'', JObj [(U ''type'', JStr (U ''mrkdwn'')),
                 (U ''text'', JStr ([0x2A, 0xB0B4, 0xC6A9, 0x20, 0xBBF8, 0xB9AC, 0xBCF4, 0xAE30,
                    0x3A, 0x2A, 0x0A] @ [0x28, 0xD14D, 0xC2A4, 0xD2B8, 0x20, 0xC5C6, 0xC74C, 0x29]))])],
        JObj [(U ''type'', JStr (U ''divider''))]])
   \<and> format_block_item no_repr bare_paragraph \<noteq>
     Inr (JArr
       [JObj [(U ''type'', JStr (U ''section'')),
              (U ''text'', JObj [(U ''type'', JStr (U ''mrkdwn'')),
                 (U ''text'', JStr [0x2A, 0xD398, 0xC774, 0xC9C0, 0x20, 0xB0B4, 0x20, 0xC0C8,
                    0x20, 0xBE14, 0xB85D, 0x20, 0xCD94, 0xAC00, 0x2A])])],
        JObj [(U ''type'', JStr (U ''section'')),
              (U ''fields'', JArr
                 [JObj [(U ''type'', JStr (U ''mrkdwn'')),
                    (U ''text'', JStr ([0x2A, 0xBE14, 0xB85D, 0x20, 0xD0C0, 0xC785, 0x3A, 0x2A,
                       0x0A] @ U ''`'' @ U ''paragraph'' @ U ''`''))],
                  JObj [(U ''type'', JStr (U ''mrkdwn'')),
                    (U ''text'', JStr ([0x2A, 0xC0DD, 0xC131, 0xC2DC, 0xAC01, 0x20, 0x28, 0x55,
                       0x54, 0x43, 0x29, 0x3A, 0x2A, 0x0A] @ U ''2024-01-01T00:00:00.000Z''))]])],
        JObj [(U ''type'', JStr (U ''section'')),
              (U ''text'', JObj [(U ''type'', JStr (U ''mrkdwn'')),
                 (U ''text'', JStr ([0x2A, 0xB0B4, 0xC6A9, 0x20, 0xBBF8, 0xB9AC, 0xBCF4, 0xAE30,
                    0x3A, 0x2A, 0x0A] @ U ''(no text)''))])],
        JObj [(U ''type'', JStr (U ''divider''))]])
   \<and> format_block_item no_repr both_empty_paragraph =
     Inr (JArr
       [JObj [(U ''type'', JStr (U ''section'')),
              (U ''text'', JObj [(U ''type'', JStr (U ''mrkdwn'')),
                 (U ''text'', JStr [0x2A, 0xD398, 0xC774, 0xC9C0, 0x20, 0xB0B4, 0x20, 0xC0C8,
                    0x20, 0xBE14, 0xB85D, 0x20, 0xCD94, 0xAC00, 0x2A])])],
        JObj [(U ''type'', JStr (U ''section'')),
              (U ''fields'', JArr
                 [JObj [(U ''type'', JStr (U ''mrkdwn'')),
                    (U ''text'', JStr ([0x2A, 0xBE14, 0xB85D, 0x20, 0xD0C0, 0xC785, 0x3A, 0x2A,
                       0x0A] @ U ''`'' @ U ''paragraph'' @ U ''`''))],
                  JObj [(U ''type'', JStr (U ''mrkdwn'')),
                    (U ''text'', JStr ([0x2A, 0xC0DD, 0xC131, 0xC2DC, 0xAC01, 0x20, 0x28, 0x55,
                       0x54, 0x43, 0x29, 0x3A, 0x2A, 0x0A] @ U ''2024-01-01T00:00:00.000Z''))]])],
        JObj [(U ''type'', JStr (U ''section'')),
              (U ''text'', JObj [(U ''type'', JStr (U ''mrkdwn'')),
                 (U ''text'', JStr ([0x2A, 0xB0B4, 0xC6A9, 0x20, 0xBBF8, 0xB9AC, 0xBCF4, 0xAE30,
                    0x3A, 0x2A, 0x0A] @ [0x28, 0xD14D, 0xC2A4, 0xD2B8, 0x20, 0xC5C6, 0xC74C, 0x29]))])],
        JObj [(U ''type'', JStr (U ''divider''))]])
   \<and> format_block_item no_repr blank_rich_paragraph =
     Inr (JArr
       [JObj [(U ''type'', JStr (U ''section'')),
              (U ''text'', JObj [(U ''type'', JStr (U ''mrkdwn'')),
                 (U ''text'', JStr [0x2A, 0xD398, 0xC774, 0xC9C0, 0x20, 0xB0B4, 0x20, 0xC0C8,
                    0x20, 0xBE14, 0xB85D, 0x20, 0xCD94, 0xAC00, 0x2A])])],
        JObj [(U ''type'', JStr (U ''section'')),
              (U ''fields'', JArr
                 [JObj [(U ''type'', JStr (U ''mrkdwn'')),
                    (U ''text'', JStr ([0x2A, 0xBE14, 0xB85D, 0x20, 0xD0C0, 0xC785, 0x3A, 0x2A,
                       0x0A] @ U ''`'' @ U ''paragraph'' @ U ''`''))],
                  JObj [(U ''type'', JStr (U ''mrkdwn'')),
                    (U ''text'', JStr ([0x2A, 0xC0DD, 0xC131, 0xC2DC, 0xAC01, 0x20, 0x28, 0x55,
                       0x54, 0x43, 0x29, 0x3A, 0x2A, 0x0A] @ U ''2024-01-01T00:00:00.000Z''))]])],
        JObj [(U ''type'', JStr (U ''section'')),
              (U ''text'', JObj [(U ''type'', JStr (U ''mrkdwn'')),
                 (U ''text'', JStr ([0x2A, 0xB0B4, 0xC6A9, 0x20, 0xBBF8, 0xB9AC, 0xBCF4, 0xAE30,
                    0x3A, 0x2A, 0x0A] @ [0x28, 0xD14D, 0xC2A4, 0xD2B8, 0x20, 0xC5C6, 0xC74C, 0x29]))])],
        JObj [(U ''type'', JStr (U ''divider''))]])
   \<and> format_block_item no_repr blank_rich_paragraph \<noteq>
     Inr (JArr
       [JObj [(U ''type'', JStr (U ''section'')),
              (U ''text'', JObj [(U ''type'', JStr (U ''mrkdwn'')),
                 (U ''text'', JStr [0x2A, 0xD398, 0xC774, 0xC9C0, 0x20, 0xB0B4, 0x20, 0xC0C8,
                    0x20, 0xBE14, 0xB85D, 0x20, 0xCD94, 0xAC00, 0x2A])])],
        JObj [(U ''type'', JStr (U ''section'')),
              (U ''fields'', JArr
                 [JObj [(U ''type'', JStr (U ''mrkdwn'')),
                    (U ''text'', JStr ([0x2A, 0xBE14, 0xB85D, 0x20, 0xD0C0, 0xC785, 0x3A, 0x2A,
                       0x0A] @ U ''`'' @ U ''paragraph'' @ U ''`''))],
                  JObj [(U ''type'', JStr (U ''mrkdwn'')),
                    (U ''text'', JStr ([0x2A, 0xC0DD, 0xC131, 0xC2DC, 0xAC01, 0x20, 0x28, 0x55,
                       0x54, 0x43, 0x29, 0x3A, 0x2A, 0x0A] @ U ''2024-01-01T00:00:00.000Z''))]])],
        JObj [(U ''type'', JStr (U ''section'')),
              (U ''text'', JObj [(U ''type'', JStr (U ''mrkdwn'')),
                 (U ''text'', JStr ([0x2A, 0xB0B4, 0xC6A9, 0x20, 0xBBF8, 0xB9AC, 0xBCF4, 0xAE30,
                    0x3A, 0x2A, 0x0A] @ []))])],
        JObj [(U ''type'', JStr (U ''divider''))]])"
  by (simp add: format_block_item_def bare_paragraph_def both_empty_paragraph_def
      blank_rich_paragraph_def block_text_def joined_text_def preview_def
      no_text_def block_blocks_def section_text_def section_fields_def mrkdwn_def divider_def
      block_header_def type_label_def created_label_def preview_label_def U_def)

text \<open>
  Claim C7, amended. With a non-empty \<^verbatim>\<open>rich_text\<close> in the type-specific payload, whatever
  the \<^verbatim>\<open>text\<close> field holds, the preview in the payload is the concatenation of the
  \<^verbatim>\<open>rich_text\<close> runs cut to 200 characters, or the placeholder of the source when that text
  is empty; when each of the two fields is absent or empty, the preview is the
  placeholder. The payload is written out in full.
\<close>

theorem preview_source:
  assumes "py_get block (U ''type'') JNull = Inr btype"
    and "py_get block (U ''created_time'') (JStr []) = Inr created"
    and "py_get_any block btype (JObj []) = Inr (JObj kvs)"
  shows "(map_of kvs (U ''rich_text'') = Some rt \<and> py_truthy rt
            \<and> py_iter rt = Inr runs \<and> plain_texts runs = Inr (map JStr ts)
          \<longrightarrow> format_block_item repr block =
                Inr (JArr
       [JObj [(U ''type'', JStr (U ''section'')),
              (U ''text'', JObj [(U ''type'', JStr (U ''mrkdwn'')),
                 (U ''text'', JStr [0x2A, 0xD398, 0xC774, 0xC9C0, 0x20, 0xB0B4, 0x20, 0xC0C8,
                    0x20, 0xBE14, 0xB85D, 0x20, 0xCD94, 0xAC00, 0x2A])])],
        JObj [(U ''type'', JStr (U ''section'')),
              (U ''fields'', JArr
                 [JObj [(U ''type'', JStr (U ''mrkdwn'')),
                    (U ''text'', JStr ([0x2A, 0xBE14, 0xB85D, 0x20, 0xD0C0, 0xC785, 0x3A, 0x2A,
                       0x0A] @ U ''`'' @ py_str repr btype @ U ''`''))],
                  JObj [(U ''type'', JStr (U ''mrkdwn'')),
                    (U ''text'', JStr ([0x2A, 0xC0DD, 0xC131, 0xC2DC, 0xAC01, 0x20, 0x28, 0x55,
                       0x54, 0x43, 0x29, 0x3A, 0x2A, 0x0A] @ py_str repr created))]])],
        JObj [(U ''type'', JStr (U ''section'')),
              (U ''text'', JObj [(U ''type'', JStr (U ''mrkdwn'')),
                 (U ''text'', JStr ([0x2A, 0xB0B4, 0xC6A9, 0x20, 0xBBF8, 0xB9AC, 0xBCF4, 0xAE30,
                    0x3A, 0x2A, 0x0A] @ (if take 200 (concat ts) = [] then [0x28, 0xD14D, 0xC2A4, 0xD2B8, 0x20, 0xC5C6, 0xC74C, 0x29]
                       else take 200 (concat ts))))])],
        JObj [(U ''type'', JStr (U ''divider''))]]))
       \<and> ((\<forall>rt. map_of kvs (U ''rich_text'') = Some rt \<longrightarrow> \<not> py_truthy rt)
            \<and> (\<forall>t. map_of kvs (U ''text'') = Some t \<longrightarrow> \<not> py_truthy t)
          \<longrightarrow> format_block_item repr block =
                Inr (JArr
       [JObj [(U ''type'', JStr (U ''section'')),
              (U ''text'', JObj [(U ''type'', JStr (U ''mrkdwn'')),
                 (U ''text'', JStr [0x2A, 0xD398, 0xC774, 0xC9C0, 0x20, 0xB0B4, 0x20, 0xC0C8,
                    0x20, 0xBE14, 0xB85D, 0x20, 0xCD94, 0xAC00, 0x2A])])],
        JObj [(U ''type'', JStr (U ''section'')),
              (U ''fields'', JArr
                 [JObj [(U ''type'', JStr (U ''mrkdwn'')),
                    (U ''text'', JStr ([0x2A, 0xBE14, 0xB85D, 0x20, 0xD0C0, 0xC785, 0x3A, 0x2A,
                       0x0A] @ U ''`'' @ py_str repr btype @ U ''`''))],
                  JObj [(U ''type'', JStr (U ''mrkdwn'')),
                    (U ''text'', JStr ([0x2A, 0xC0DD, 0xC131, 0xC2DC, 0xAC01, 0x20, 0x28, 0x55,
                       0x54, 0x43, 0x29, 0x3A, 0x2A, 0x0A] @ py_str repr created))]])],
        JObj [(U ''type'', JStr (U ''section'')),
              (U ''text'', JObj [(U ''type'', JStr (U ''mrkdwn'')),
                 (U ''text'', JStr ([0x2A, 0xB0B4, 0xC6A9, 0x20, 0xBBF8, 0xB9AC, 0xBCF4, 0xAE30,
                    0x3A, 0x2A, 0x0A] @ [0x28, 0xD14D, 0xC2A4, 0xD2B8, 0x20, 0xC5C6, 0xC74C, 0x29]))])],
        JObj [(U ''type'', JStr (U ''divider''))]]))"
proof (intro conjI impI)
  assume a: "map_of kvs (U ''rich_text'') = Some rt \<and> py_truthy rt
            \<and> py_iter rt = Inr runs \<and> plain_texts runs = Inr (map JStr ts)"
  then have "joined_text rt = Inr (concat ts)" by (auto intro: joined_text_runs)
  with a have "block_text kvs = Inr (take 200 (concat ts))" by (simp add: block_text_rich)
  from format_block_item_written [OF assms this, of repr]
  show "format_block_item repr block =
                Inr (JArr
       [JObj [(U ''type'', JStr (U ''section'')),
              (U ''text'', JObj [(U ''type'', JStr (U ''mrkdwn'')),
                 (U ''text'', JStr [0x2A, 0xD398, 0xC774, 0xC9C0, 0x20, 0xB0B4, 0x20, 0xC0C8,
                    0x20, 0xBE14, 0xB85D, 0x20, 0xCD94, 0xAC00, 0x2A])])],
        JObj [(U ''type'', JStr (U ''section'')),
              (U ''fields'', JArr
                 [JObj [(U ''type'', JStr (U ''mrkdwn'')),
                    (U ''text'', JStr ([0x2A, 0xBE14, 0xB85D, 0x20, 0xD0C0, 0xC785, 0x3A, 0x2A,
                       0x0A] @ U ''`'' @ py_str repr btype @ U ''`''))],
                  JObj [(U ''type'', JStr (U ''mrkdwn'')),
                    (U ''text'', JStr ([0x2A, 0xC0DD, 0xC131, 0xC2DC, 0xAC01, 0x20, 0x28, 0x55,
                       0x54, 0x43, 0x29, 0x3A, 0x2A, 0x0A] @ py_str repr created))]])],
        JObj [(U ''type'', JStr (U ''section'')),
              (U ''text'', JObj [(U ''type'', JStr (U ''mrkdwn'')),
                 (U ''text'', JStr ([0x2A, 0xB0B4, 0xC6A9, 0x20, 0xBBF8, 0xB9AC, 0xBCF4, 0xAE30,
                    0x3A, 0x2A, 0x0A] @ (if take 200 (concat ts) = [] then [0x28, 0xD14D, 0xC2A4, 0xD2B8, 0x20, 0xC5C6, 0xC74C, 0x29]
                       else take 200 (concat ts))))])],
        JObj [(U ''type'', JStr (U ''divider''))]])" .
next
  assume "(\<forall>rt. map_of kvs (U ''rich_text'') = Some rt \<longrightarrow> \<not> py_truthy rt)
            \<and> (\<forall>t. map_of kvs (U ''text'') = Some t \<longrightarrow> \<not> py_truthy t)"
  then have "block_text kvs = Inr []" by (simp add: block_text_none)
  from format_block_item_written [OF assms this, of repr]
  show "format_block_item repr block =
                Inr (JArr
       [JObj [(U ''type'', JStr (U ''section'')),
              (U ''text'', JObj [(U ''type'', JStr (U ''mrkdwn'')),
                 (U ''text'', JStr [0x2A, 0xD398, 0xC774, 0xC9C0, 0x20, 0xB0B4, 0x20, 0xC0C8,
                    0x20, 0xBE14, 0xB85D, 0x20, 0xCD94, 0xAC00, 0x2A])])],
        JObj [(U ''type'', JStr (U ''section'')),
              (U ''fields'', JArr
                 [JObj [(U ''type'', JStr (U ''mrkdwn'')),
                    (U ''text'', JStr ([0x2A, 0xBE14, 0xB85D, 0x20, 0xD0C0, 0xC785, 0x3A, 0x2A,
                       0x0A] @ U ''`'' @ py_str repr btype @ U ''`''))],
                  JObj [(U ''type'', JStr (U ''mrkdwn'')),
                    (U ''text'', JStr ([0x2A, 0xC0DD, 0xC131, 0xC2DC, 0xAC01, 0x20, 0x28, 0x55,
                       0x54, 0x43, 0x29, 0x3A, 0x2A, 0x0A] @ py_str repr created))]])],
        JObj [(U ''type'', JStr (U ''section'')),
              (U ''text'', JObj [(U ''type'', JStr (U ''mrkdwn'')),
                 (U ''text'', JStr ([0x2A, 0xB0B4, 0xC6A9, 0x20, 0xBBF8, 0xB9AC, 0xBCF4, 0xAE30,
                    0x3A, 0x2A, 0x0A] @ [0x28, 0xD14D, 0xC2A4, 0xD2B8, 0x20, 0xC5C6, 0xC74C, 0x29]))])],
        JObj [(U ''type'', JStr (U ''divider''))]])"
    by simp
qed

text \<open>
  C7 at three example content units: both fields non-empty, runs of 150 and 100
  characters, and both fields empty.
\<close>

theorem preview_source_witness:
  "format_block_item no_repr both_paragraph =
     Inr (JArr
       [JObj [(U ''type'', JStr (U ''section'')),
              (U ''text'', JObj [(U ''type'', JStr (U ''mrkdwn'')),
                 (U ''text'', JStr [0x2A, 0xD398, 0xC774, 0xC9C0, 0x20, 0xB0B4, 0x20, 0xC0C8,
                    0x20, 0xBE14, 0xB85D, 0x20, 0xCD94, 0xAC00, 0x2A])])],
        JObj [(U ''type'', JStr (U ''section'')),
              (U ''fields'', JArr
                 [JObj [(U ''type'', JStr (U ''mrkdwn'')),
                    (U ''text'', JStr ([0x2A, 0xBE14, 0xB85D, 0x20, 0xD0C0, 0xC785, 0x3A, 0x2A,
                       0x0A] @ U ''`'' @ U ''paragraph'' @ U ''`''))],
                  JObj [(U ''type'', JStr (U ''mrkdwn'')),
                    (U ''text'', JStr ([0x2A, 0xC0DD, 0xC131, 0xC2DC, 0xAC01, 0x20, 0x28, 0x55,
                       0x54, 0x43, 0x29, 0x3A, 0x2A, 0x0A] @ U ''2024-01-01T00:00:00.000Z''))]])],
        JObj [(U ''type'', JStr (U ''section'')),
              (U ''text'', JObj [(U ''type'', JStr (U ''mrkdwn'')),
                 (U ''text'', JStr ([0x2A, 0xB0B4, 0xC6A9, 0x20, 0xBBF8, 0xB9AC, 0xBCF4, 0xAE30,
                    0x3A, 0x2A, 0x0A] @ U ''new text''))])],
        JObj [(U ''type'', JStr (U ''divider''))]])
   \<and> format_block_item no_repr long_paragraph =
     Inr (JArr
       [JObj [(U ''type'', JStr (U ''section'')),
              (U ''text'', JObj [(U ''type'', JStr (U ''mrkdwn'')),
                 (U ''text'', JStr [0x2A, 0xD398, 0xC774, 0xC9C0, 0x20, 0xB0B4, 0x20, 0xC0C8,
                    0x20, 0xBE14, 0xB85D, 0x20, 0xCD94, 0xAC00, 0x2A])])],
        JObj [(U ''type'', JStr (U ''section'')),
              (U ''fields'', JArr
                 [JObj [(U ''type'', JStr (U ''mrkdwn'')),
                    (U ''text'', JStr ([0x2A, 0xBE14, 0xB85D, 0x20, 0xD0C0, 0xC785, 0x3A, 0x2A,
                       0x0A] @ U ''`'' @ U ''paragraph'' @ U ''`''))],
                  JObj [(U ''type'', JStr (U ''mrkdwn'')),
                    (U ''text'', JStr ([0x2A, 0xC0DD, 0xC131, 0xC2DC, 0xAC01, 0x20, 0x28, 0x55,
                       0x54, 0x43, 0x29, 0x3A, 0x2A, 0x0A] @ U ''2024-01-01T00:00:00.000Z''))]])],
        JObj [(U ''type'', JStr (U ''section'')),
              (U ''text'', JObj [(U ''type'', JStr (U ''mrkdwn'')),
                 (U ''text'', JStr ([0x2A, 0xB0B4, 0xC6A9, 0x20, 0xBBF8, 0xB9AC, 0xBCF4, 0xAE30,
                    0x3A, 0x2A, 0x0A] @ replicate 150 97 @ replicate 50 98))])],
        JObj [(U ''type'', JStr (U ''divider''))]])
   \<and> format_block_item no_repr both_empty_paragraph =
     Inr (JArr
       [JObj [(U ''type'', JStr (U ''section'')),
              (U ''text'', JObj [(U ''type'', JStr (U ''mrkdwn'')),
                 (U ''text'', JStr [0x2A, 0xD398, 0xC774, 0xC9C0, 0x20, 0xB0B4, 0x20, 0xC0C8,
                    0x20, 0xBE14, 0xB85D, 0x20, 0xCD94, 0xAC00, 0x2A])])],
        JObj [(U ''type'', JStr (U ''section'')),
              (U ''fields'', JArr
                 [JObj [(U ''type'', JStr (U ''mrkdwn'')),
                    (U ''text'', JStr ([0x2A, 0xBE14, 0xB85D, 0x20, 0xD0C0, 0xC785, 0x3A, 0x2A,
                       0x0A] @ U ''`'' @ U ''paragraph'' @ U ''`''))],
                  JObj [(U ''type'', JStr (U ''mrkdwn'')),
                    (U ''text'', JStr ([0x2A, 0xC0DD, 0xC131, 0xC2DC, 0xAC01, 0x20, 0x28, 0x55,
                       0x54, 0x43, 0x29, 0x3A, 0x2A, 0x0A] @ U ''2024-01-01T00:00:00.000Z''))]])],
        JObj [(U ''type'', JStr (U ''section'')),
              (U ''text'', JObj [(U ''type'', JStr (U ''mrkdwn'')),
                 (U ''text'', JStr ([0x2A, 0xB0B4, 0xC6A9, 0x20, 0xBBF8, 0xB9AC, 0xBCF4, 0xAE30,
                    0x3A, 0x2A, 0x0A] @ [0x28, 0xD14D, 0xC2A4, 0xD2B8, 0x20, 0xC5C6, 0xC74C, 0x29]))])],
        JObj [(U ''type'', JStr (U ''divider''))]])"
proof -
  have c: "take 200 (concat [U ''new '', U ''text'']) = U ''new text''" by (simp add: U_def)
  have ne: "U ''new text'' \<noteq> []" by simp
  from preview_source [of both_paragraph "JStr (U ''paragraph'')"
      "JStr (U ''2024-01-01T00:00:00.000Z'')"
      "[(U ''text'', JArr [JObj [(U ''plain_text'', JStr (U ''old''))]]),
         (U ''rich_text'', JArr [JObj [(U ''plain_text'', JStr (U ''new ''))],
                                 JObj [(U ''plain_text'', JStr (U ''text''))]])]"
      "JArr [JObj [(U ''plain_text'', JStr (U ''new ''))],
                                 JObj [(U ''plain_text'', JStr (U ''text''))]]"
      "[JObj [(U ''plain_text'', JStr (U ''new ''))],
                                 JObj [(U ''plain_text'', JStr (U ''text''))]]"
      "[U ''new '', U ''text'']" no_repr, unfolded c]
  have 1: "format_block_item no_repr both_paragraph =
     Inr (JArr
       [JObj [(U ''type'', JStr (U ''section'')),
              (U ''text'', JObj [(U ''type'', JStr (U ''mrkdwn'')),
                 (U ''text'', JStr [0x2A, 0xD398, 0xC774, 0xC9C0, 0x20, 0xB0B4, 0x20, 0xC0C8,
                    0x20, 0xBE14, 0xB85D, 0x20, 0xCD94, 0xAC00, 0x2A])])],
        JObj [(U ''type'', JStr (U ''section'')),
              (U ''fields'', JArr
                 [JObj [(U ''type'', JStr (U ''mrkdwn'')),
                    (U ''text'', JStr ([0x2A, 0xBE14, 0xB85D, 0x20, 0xD0C0, 0xC785, 0x3A, 0x2A,
                       0x0A] @ U ''`'' @ U ''paragraph'' @ U ''`''))],
                  JObj [(U ''type'', JStr (U ''mrkdwn'')),
                    (U ''text'', JStr ([0x2A, 0xC0DD, 0xC131, 0xC2DC, 0xAC01, 0x20, 0x28, 0x55,
                       0x54, 0x43, 0x29, 0x3A, 0x2A, 0x0A] @ U ''2024-01-01T00:00:00.000Z''))]])],
        JObj [(U ''type'', JStr (U ''section'')),
              (U ''text'', JObj [(U ''type'', JStr (U ''mrkdwn'')),
                 (U ''text'', JStr ([0x2A, 0xB0B4, 0xC6A9, 0x20, 0xBBF8, 0xB9AC, 0xBCF4, 0xAE30,
                    0x3A, 0x2A, 0x0A] @ U ''new text''))])],
        JObj [(U ''type'', JStr (U ''divider''))]])"
    by (simp add: both_paragraph_def)
  have d: "take 200 (concat [replicate 150 (97::nat), replicate 100 98])
      = replicate 150 97 @ replicate 50 98" by simp
  from preview_source [of long_paragraph "JStr (U ''paragraph'')"
      "JStr (U ''2024-01-01T00:00:00.000Z'')"
      "[(U ''rich_text'', JArr [JObj [(U ''plain_text'', JStr (replicate 150 97))],
                                 JObj [(U ''plain_text'', JStr (replicate 100 98))]]),
         (U ''text'', JArr [JObj [(U ''plain_text'', JStr (U ''old''))]])]"
      "JArr [JObj [(U ''plain_text'', JStr (replicate 150 97))],
                                 JObj [(U ''plain_text'', JStr (replicate 100 98))]]"
      "[JObj [(U ''plain_text'', JStr (replicate 150 97))],
                                 JObj [(U ''plain_text'', JStr (replicate 100 98))]]"
      "[replicate 150 97, replicate 100 98]" no_repr, unfolded d]
  have 2: "format_block_item no_repr long_paragraph =
     Inr (JArr
       [JObj [(U ''type'', JStr (U ''section'')),
              (U ''text'', JObj [(U ''type'', JStr (U ''mrkdwn'')),
                 (U ''text'', JStr [0x2A, 0xD398, 0xC774, 0xC9C0, 0x20, 0xB0B4, 0x20, 0xC0C8,
                    0x20, 0xBE14, 0xB85D, 0x20, 0xCD94, 0xAC00, 0x2A])])],
        JObj [(U ''type'', JStr (U ''section'')),
              (U ''fields'', JArr
                 [JObj [(U ''type'', JStr (U ''mrkdwn'')),
                    (U ''text'', JStr ([0x2A, 0xBE14, 0xB85D, 0x20, 0xD0C0, 0xC785, 0x3A, 0x2A,
                       0x0A] @ U ''`'' @ U ''paragraph'' @ U ''`''))],
                  JObj [(U ''type'', JStr (U ''mrkdwn'')),
                    (U ''text'', JStr ([0x2A, 0xC0DD, 0xC131, 0xC2DC, 0xAC01, 0x20, 0x28, 0x55,
                       0x54, 0x43, 0x29, 0x3A, 0x2A, 0x0A] @ U ''2024-01-01T00:00:00.000Z''))]])],
        JObj [(U ''type'', JStr (U ''section'')),
              (U ''text'', JObj [(U ''type'', JStr (U ''mrkdwn'')),
                 (U ''text'', JStr ([0x2A, 0xB0B4, 0xC6A9, 0x20, 0xBBF8, 0xB9AC, 0xBCF4, 0xAE30,
                    0x3A, 0x2A, 0x0A] @ replicate 150 97 @ replicate 50 98))])],
        JObj [(U ''type'', JStr (U ''divider''))]])"
    by (simp add: long_paragraph_def)
  from preview_source [of both_empty_paragraph "JStr (U ''paragraph'')"
      "JStr (U ''2024-01-01T00:00:00.000Z'')"
      "[(U ''rich_text'', JArr []), (U ''text'', JArr [])]" _ _ _ no_repr]
  have 3: "format_block_item no_repr both_empty_paragraph =
     Inr (JArr
       [JObj [(U ''type'', JStr (U ''section'')),
              (U ''text'', JObj [(U ''type'', JStr (U ''mrkdwn'')),
                 (U ''text'', JStr [0x2A, 0xD398, 0xC774, 0xC9C0, 0x20, 0xB0B4, 0x20, 0xC0C8,
                    0x20, 0xBE14, 0xB85D, 0x20, 0xCD94, 0xAC00, 0x2A])])],
        JObj [(U ''type'', JStr (U ''section'')),
              (U ''fields'', JArr
                 [JObj [(U ''type'', JStr (U ''mrkdwn'')),
                    (U ''text'', JStr ([0x2A, 0xBE14, 0xB85D, 0x20, 0xD0C0, 0xC785, 0x3A, 0x2A,
                       0x0A] @ U ''`'' @ U ''paragraph'' @ U ''`''))],
                  JObj [(U ''type'', JStr (U ''mrkdwn'')),
                    (U ''text'', JStr ([0x2A, 0xC0DD, 0xC131, 0xC2DC, 0xAC01, 0x20, 0x28, 0x55,
                       0x54, 0x43, 0x29, 0x3A, 0x2A, 0x0A] @ U ''2024-01-01T00:00:00.000Z''))]])],
        JObj [(U ''type'', JStr (U ''section'')),
              (U ''text'', JObj [(U ''type'', JStr (U ''mrkdwn'')),
                 (U ''text'', JStr ([0x2A, 0xB0B4, 0xC6A9, 0x20, 0xBBF8, 0xB9AC, 0xBCF4, 0xAE30,
                    0x3A, 0x2A, 0x0A] @ [0x28, 0xD14D, 0xC2A4, 0xD2B8, 0x20, 0xC5C6, 0xC74C, 0x29]))])],
        JObj [(U ''type'', JStr (U ''divider''))]])"
    by (simp add: both_empty_paragraph_def)
  from 1 2 3 show ?thesis by (simp only: simp_thms)
qed

lemma page_title_url_added:
  "map_of kvs (U ''url'') = None \<Longrightarrow>
     page_title (JObj (kvs @ [(U ''url'', u)])) = page_title (JObj kvs)"
  by (simp add: page_title_def map_add_def split: option.splits)

text \<open>
  Claim C10. For a record without a \<^verbatim>\<open>url\<close> entry the formatter succeeds: the payload,
  written out in full, has the link target \<^verbatim>\<open>https://www.notion.so\<close>, the title
  \<^verbatim>\<open>page_title\<close> extracts and the creation time of the record; the same record with a URL
  written into it gets the same payload but for the link target.
\<close>

theorem missing_url_fallback:
  assumes "record_obj (JObj kvs)" and "map_of kvs (U ''url'') = None"
  shows "\<exists>title. page_title (JObj kvs) = Inr title
       \<and> format_page_block repr (JObj kvs) =
           Inr (JArr
       [JObj [(U ''type'', JStr (U ''section'')),
              (U ''text'', JObj [(U ''type'', JStr (U ''mrkdwn'')),
                 (U ''text'', JStr [0x2A, 0xC0C8, 0x20, 0xD398, 0xC774, 0xC9C0, 0xAC00, 0x20,
                    0xC0DD, 0xC131, 0xB418, 0xC5C8, 0xC2B5, 0xB2C8, 0xB2E4, 0x2A])])],
        JObj [(U ''type'', JStr (U ''section'')),
              (U ''fields'', JArr
                 [JObj [(U ''type'', JStr (U ''mrkdwn'')),
                    (U ''text'', JStr ([0x2A, 0xC81C, 0xBAA9, 0x3A, 0x2A, 0x0A] @ U ''<''
                       @ U ''https://www.notion.so''
                       @ U ''|'' @ title @ U ''>''))],
                  JObj [(U ''type'', JStr (U ''mrkdwn'')),
                    (U ''text'', JStr ([0x2A, 0xC0DD, 0xC131, 0xC2DC, 0xAC01, 0x20, 0x28, 0x55,
                       0x54, 0x43, 0x29, 0x3A, 0x2A, 0x0A]
                       @ py_str repr (case map_of kvs (U ''created_time'') of
                                        None \<Rightarrow> JStr [] | Some c \<Rightarrow> c)))]])],
        JObj [(U ''type'', JStr (U ''divider''))]])
       \<and> format_page_block repr (JObj (kvs @ [(U ''url'', JStr link)])) =
           Inr (JArr
       [JObj [(U ''type'', JStr (U ''section'')),
              (U ''text'', JObj [(U ''type'', JStr (U ''mrkdwn'')),
                 (U ''text'', JStr [0x2A, 0xC0C8, 0x20, 0xD398, 0xC774, 0xC9C0, 0xAC00, 0x20,
                    0xC0DD, 0xC131, 0xB418, 0xC5C8, 0xC2B5, 0xB2C8, 0xB2E4, 0x2A])])],
        JObj [(U ''type'', JStr (U ''section'')),
              (U ''fields'', JArr
                 [JObj [(U ''type'', JStr (U ''mrkdwn'')),
                    (U ''text'', JStr ([0x2A, 0xC81C, 0xBAA9, 0x3A, 0x2A, 0x0A] @ U ''<''
                       @ link
                       @ U ''|'' @ title @ U ''>''))],
                  JObj [(U ''type'', JStr (U ''mrkdwn'')),
                    (U ''text'', JStr ([0x2A, 0xC0DD, 0xC131, 0xC2DC, 0xAC01, 0x20, 0x28, 0x55,
                       0x54, 0x43, 0x29, 0x3A, 0x2A, 0x0A]
                       @ py_str repr (case map_of kvs (U ''created_time'') of
                                        None \<Rightarrow> JStr [] | Some c \<Rightarrow> c)))]])],
        JObj [(U ''type'', JStr (U ''divider''))]])"
proof -
  from page_title_total [OF assms(1)] obtain title where t: "page_title (JObj kvs) = Inr title" ..
  from assms(2) have t': "page_title (JObj (kvs @ [(U ''url'', JStr link)])) = Inr title"
    using t by (simp add: page_title_url_added)
  have c: "map_of (kvs @ [(U ''url'', JStr link)]) (U ''created_time'')
      = map_of kvs (U ''created_time'')"
    by (simp add: map_add_def U_def split: option.splits)
  have u: "map_of (kvs @ [(U ''url'', JStr link)]) (U ''url'') = Some (JStr link)"
    using assms(2) by (simp add: map_add_def)
  from format_page_block_written [OF t, of repr] assms(2)
  have 1: "format_page_block repr (JObj kvs) =
           Inr (JArr
       [JObj [(U ''type'', JStr (U ''section'')),
              (U ''text'', JObj [(U ''type'', JStr (U ''mrkdwn'')),
                 (U ''text'', JStr [0x2A, 0xC0C8, 0x20, 0xD398, 0xC774, 0xC9C0, 0xAC00, 0x20,
                    0xC0DD, 0xC131, 0xB418, 0xC5C8, 0xC2B5, 0xB2C8, 0xB2E4, 0x2A])])],
        JObj [(U ''type'', JStr (U ''section'')),
              (U ''fields'', JArr
                 [JObj [(U ''type'', JStr (U ''mrkdwn'')),
                    (U ''text'', JStr ([0x2A, 0xC81C, 0xBAA9, 0x3A, 0x2A, 0x0A] @ U ''<''
                       @ U ''https://www.notion.so''
                       @ U ''|'' @ title @ U ''>''))],
                  JObj [(U ''type'', JStr (U ''mrkdwn'')),
                    (U ''text'', JStr ([0x2A, 0xC0DD, 0xC131, 0xC2DC, 0xAC01, 0x20, 0x28, 0x55,
                       0x54, 0x43, 0x29, 0x3A, 0x2A, 0x0A]
                       @ py_str repr (case map_of kvs (U ''created_time'') of
                                        None \<Rightarrow> JStr [] | Some c \<Rightarrow> c)))]])],
        JObj [(U ''type'', JStr (U ''divider''))]])"
    by simp
  from format_page_block_written [OF t', of repr]
  have 2: "format_page_block repr (JObj (kvs @ [(U ''url'', JStr link)])) =
           Inr (JArr
       [JObj [(U ''type'', JStr (U ''section'')),
              (U ''text'', JObj [(U ''type'', JStr (U ''mrkdwn'')),
                 (U ''text'', JStr [0x2A, 0xC0C8, 0x20, 0xD398, 0xC774, 0xC9C0, 0xAC00, 0x20,
                    0xC0DD, 0xC131, 0xB418, 0xC5C8, 0xC2B5, 0xB2C8, 0xB2E4, 0x2A])])],
        JObj [(U ''type'', JStr (U ''section'')),
              (U ''fields'', JArr
                 [JObj [(U ''type'', JStr (U ''mrkdwn'')),
                    (U ''text'', JStr ([0x2A, 0xC81C, 0xBAA9, 0x3A, 0x2A, 0x0A] @ U ''<''
                       @ link
                       @ U ''|'' @ title @ U ''>''))],
                  JObj [(U ''type'', JStr (U ''mrkdwn'')),
                    (U ''text'', JStr ([0x2A, 0xC0DD, 0xC131, 0xC2DC, 0xAC01, 0x20, 0x28, 0x55,
                       0x54, 0x43, 0x29, 0x3A, 0x2A, 0x0A]
                       @ py_str repr (case map_of kvs (U ''created_time'') of
                                        None \<Rightarrow> JStr [] | Some c \<Rightarrow> c)))]])],
        JObj [(U ''type'', JStr (U ''divider''))]])"
    unfolding c u by simp
  from t 1 2 show ?thesis by blast
qed

text \<open>C10 at an example record that has a title and a creation time and no URL.\<close>

theorem missing_url_fallback_witness:
  "format_page_block no_repr dated_page =
     Inr (JArr
       [JObj [(U ''type'', JStr (U ''section'')),
              (U ''text'', JObj [(U ''type'', JStr (U ''mrkdwn'')),
                 (U ''text'', JStr [0x2A, 0xC0C8, 0x20, 0xD398, 0xC774, 0xC9C0, 0xAC00, 0x20,
                    0xC0DD, 0xC131, 0xB418, 0xC5C8, 0xC2B5, 0xB2C8, 0xB2E4, 0x2A])])],
        JObj [(U ''type'', JStr (U ''section'')),
              (U ''fields'', JArr
                 [JObj [(U ''type'', JStr (U ''mrkdwn'')),
                    (U ''text'', JStr ([0x2A, 0xC81C, 0xBAA9, 0x3A, 0x2A, 0x0A] @ U ''<''
                       @ U ''https://www.notion.so''
                       @ U ''|'' @ U ''Hello World'' @ U ''>''))],
                  JObj [(U ''type'', JStr (U ''mrkdwn'')),
                    (U ''text'', JStr ([0x2A, 0xC0DD, 0xC131, 0xC2DC, 0xAC01, 0x20, 0x28, 0x55,
                       0x54, 0x43, 0x29, 0x3A, 0x2A, 0x0A]
                       @ U ''2024-06-01T00:00:00.000Z''))]])],
        JObj [(U ''type'', JStr (U ''divider''))]])"
proof -
  have r: "record_obj dated_page" by (simp add: dated_page_def)
  have t: "page_title dated_page = Inr (U ''Hello World'')"
    by (simp add: dated_page_def page_title_def joined_text_def U_def)
  from missing_url_fallback [of _ no_repr, OF r [unfolded dated_page_def]] t
  show ?thesis by (simp add: dated_page_def)
qed

section \<open>Properties of the notifier\<close>

lemma slack_post_eq:
  "slack_post env text blocks w =
     (case respond env (length (sent w)) (webhook_request text blocks) of
        NoResponse \<Rightarrow> Inl RequestException
      | Response status body \<Rightarrow> raise_for_status status,
      w\<lparr>sent := sent w @ [webhook_request text blocks]\<rparr>)"
  by (simp add: slack_post_def http_call_def webhook_request_def split: http_result.splits)

text \<open>
  Claim C9, as stated, at a response with status 304: it is not 2xx, and \<^verbatim>\<open>slack_post\<close>
  returns normally.
\<close>

theorem webhook_redirect_counterexample:
  "slack_post (status_env 304) new_page_text (JArr [divider]) world0 =
     (Inr (), world0\<lparr>sent := [webhook_request new_page_text (JArr [divider])]\<rparr>)"
  by (simp add: slack_post_eq status_env_def scripted_env_def world0_def raise_for_status_def)

section \<open>Properties of the source client\<close>


lemma fetch_served:
  assumes "case respond env (length (sent w)) req of
         Response status (Some body) \<Rightarrow> body = data \<and> \<not> (400 \<le> status \<and> status < 600)
       | _ \<Rightarrow> False"
  shows "fetch env req w = (Inr data, w\<lparr>sent := sent w @ [req]\<rparr>)"
  using assms
  by (auto simp: fetch_def http_call_def raise_for_status_def
      split: http_result.splits option.splits)

lemma length_query_requests: "length (query_requests db_id payload pages) = length pages"
  by (induction pages arbitrary: payload) simp_all

lemma page_results_obj: "page_results data = Inr rs \<Longrightarrow> \<exists>kvs. data = JObj kvs"
  by (cases data) (auto simp: page_results_def)

lemma db_pages_loop_paged:
  assumes "paged page_results pages"
    and "served env (length (sent w)) (query_requests db_id payload pages) pages"
  shows "db_pages_loop env db_id payload acc w =
     Some (Inr (acc @ all_results page_results pages),
           w\<lparr>sent := sent w @ query_requests db_id payload pages\<rparr>)"
  using assms
proof (induction pages arbitrary: payload acc w)
  case Nil
  then show ?case by simp
next
  case (Cons data pages)
  let ?req = "POST (DbQuery db_id) (JObj payload)"
  let ?w' = "w\<lparr>sent := sent w @ [?req]\<rparr>"
  from Cons.prems(2) have f: "fetch env ?req w = (Inr data, ?w')"
    by (intro fetch_served) simp
  from Cons.prems(1) obtain rs where rs: "page_results data = Inr rs"
    by (cases pages; cases "page_results data") (auto simp: succeeds_def)
  then obtain kvs where data: "data = JObj kvs" by (auto dest: page_results_obj)
  from rs have rs': "ebind (py_get data (U ''results'') (JArr [])) py_iter = Inr rs"
    by (simp add: page_results_def)
  show ?case
  proof (cases pages)
    case Nil
    with Cons.prems(1) have "\<not> page_more data" by simp
    with data have "\<not> py_truthy (case map_of kvs (U ''has_more'') of None \<Rightarrow> JNull | Some v \<Rightarrow> v)"
      by (simp add: page_more_def)
    with f rs rs' data Nil show ?thesis
      by (subst db_pages_loop.simps) simp
  next
    case (Cons d ds)
    with Cons.prems(1) have more: "page_more data" and rest: "paged page_results pages" by simp_all
    from more data have m: "py_truthy (case map_of kvs (U ''has_more'') of None \<Rightarrow> JNull | Some v \<Rightarrow> v)"
      by (simp add: page_more_def)
    let ?payload' = "dict_set payload (U ''start_cursor'') (page_cursor data)"
    from Cons.prems(2)
    have "served env (length (sent ?w')) (query_requests db_id ?payload' pages) pages"
      by simp
    from Cons.IH [OF rest this]
    have "db_pages_loop env db_id ?payload' (acc @ rs) ?w' =
       Some (Inr ((acc @ rs) @ all_results page_results pages),
             ?w'\<lparr>sent := sent ?w' @ query_requests db_id ?payload' pages\<rparr>)" .
    with f rs rs' data m show ?thesis
      by (subst db_pages_loop.simps) (simp add: page_cursor_def)
  qed
qed

lemma length_children_requests:
  "length (children_requests page_id cursor pages) = length pages"
  by (induction pages arbitrary: cursor) simp_all




text \<open>
  Claim C8. When the server answers the requests of a traversal with \<open>n\<close> pages, all but
  the last with \<^verbatim>\<open>has_more\<close> true, \<^verbatim>\<open>query_new_db_pages\<close> returns, has sent exactly \<open>n\<close>
  requests, each after the first with the \<^verbatim>\<open>next_cursor\<close> of the page before as
  \<^verbatim>\<open>start_cursor\<close>, and its result is the items of the pages in request order.
\<close>

theorem pagination_traversal:
  assumes "paged page_results pages"
    and "served env (length (sent w)) (query_requests db_id (db_payload after_iso) pages) pages"
  shows "query_new_db_pages env db_id after_iso w =
     Some (Inr (all_results page_results pages),
           w\<lparr>sent := sent w @ query_requests db_id (db_payload after_iso) pages\<rparr>)
   \<and> length (query_requests db_id (db_payload after_iso) pages) = length pages"
  using db_pages_loop_paged [OF assms, of "[]"]
  by (simp add: query_new_db_pages_def length_query_requests)


text \<open>C8 at three pages: three requests, the second and third with the cursors.\<close>

theorem pagination_traversal_witness:
  "query_new_db_pages three_page_env (U ''db1'') since_may world0 =
     Some (Inr [record_a, record_b, record_c],
           world0\<lparr>sent :=
             [POST (DbQuery (U ''db1'')) (JObj (db_payload since_may)),
              POST (DbQuery (U ''db1''))
                (JObj (db_payload since_may @ [(U ''start_cursor'', JStr (U ''c1''))])),
              POST (DbQuery (U ''db1''))
                (JObj (db_payload since_may @ [(U ''start_cursor'', JStr (U ''c2''))]))]\<rparr>)
   \<and> length (query_requests (U ''db1'') (db_payload since_may) three_pages) = 3"
proof -
  have p: "paged page_results three_pages"
    by (simp add: three_pages_def page_results_def page_more_def succeeds_def)
  have q: "query_requests (U ''db1'') (db_payload since_may) three_pages =
             [POST (DbQuery (U ''db1'')) (JObj (db_payload since_may)),
              POST (DbQuery (U ''db1''))
                (JObj (db_payload since_may @ [(U ''start_cursor'', JStr (U ''c1''))])),
              POST (DbQuery (U ''db1''))
                (JObj (db_payload since_may @ [(U ''start_cursor'', JStr (U ''c2''))]))]"
    by (simp add: three_pages_def page_cursor_def db_payload_def since_may_def)
  have s: "served three_page_env (length (sent world0))
             (query_requests (U ''db1'') (db_payload since_may) three_pages) three_pages"
    unfolding q
    by (simp add: three_page_env_def scripted_env_def world0_def three_pages_def)
  have r: "all_results page_results three_pages = [record_a, record_b, record_c]"
    by (simp add: three_pages_def page_results_def)
  from pagination_traversal [OF p s] show ?thesis
    unfolding q r by (simp add: world0_def)
qed

section \<open>Properties of the state store\<close>

lemma hexval_hexdig: "d < 16 \<Longrightarrow> hexval (hexdig d) = Some d"
  by (auto simp: hexval_def hexdig_def)

lemma prepend_Some [simp]: "prepend c (Some (s, rest)) = Some (c # s, rest)"
  by (simp add: prepend_def)

lemma scanstring_esc_char: "scanstring (esc_char c @ t) = prepend c (scanstring t)"
proof -
  consider "c = 0x5C" | "c = 0x22" | "c = 0x08" | "c = 0x0C" | "c = 0x0A" | "c = 0x0D"
    | "c = 0x09" | "c < 0x20" "c \<notin> {0x08, 0x0C, 0x0A, 0x0D, 0x09}"
    | "0x20 \<le> c" "c \<noteq> 0x5C" "c \<noteq> 0x22"
    by fastforce
  then show ?thesis
  proof cases
    case 8
    then have h: "hexval (hexdig (c div 16)) = Some (c div 16)"
      "hexval (hexdig (c mod 16)) = Some (c mod 16)"
      by (simp_all add: hexval_hexdig)
    have z: "hexval 48 = Some 0" by (simp add: hexval_def)
    from 8 have e: "esc_char c = [0x5C, 0x75, 48, 48, hexdig (c div 16), hexdig (c mod 16)]"
      by (auto simp: esc_char_def)
    from 8 show ?thesis unfolding e by (simp add: h z)
  qed (simp_all add: esc_char_def unescape_def)
qed

lemma scanstring_encoded:
  "scanstring (concat (map esc_char s) @ 0x22 # rest) = Some (s, rest)"
  by (induction s) (simp_all add: scanstring_esc_char)

lemma parse_value_string:
  "parse_value (encode_str s @ rest) = Some (JStr s, rest)"
  by (subst parse_value.simps) (simp add: encode_str_def scanstring_encoded)

lemma parse_value_null: "parse_value (U ''null'' @ rest) = Some (JNull, rest)"
  by (subst parse_value.simps) (simp add: U_def)


lemma skip_ws_solid: "solid t \<Longrightarrow> skip_ws t = t"
  by (cases t) (simp_all add: solid_def skip_ws_def)

lemma skip_ws_indent: "skip_ws (newline_indent n @ t) = skip_ws t"
proof -
  have "dropWhile is_ws (replicate (2 * n) 0x20 @ t) = dropWhile is_ws t"
    by (rule dropWhile_append2) (simp add: is_ws_def)
  then show ?thesis by (simp add: skip_ws_def newline_indent_def is_ws_def)
qed

lemma skip_ws_blank: "skip_ws (0x20 # t) = skip_ws t"
  by (simp add: skip_ws_def is_ws_def)

lemma solid_append: "solid t \<Longrightarrow> solid (t @ r)"
  by (cases t) (simp_all add: solid_def)

lemma solid_Cons: "\<not> is_ws c \<Longrightarrow> solid (c # t)"
  by (simp add: solid_def)

lemma not_ws [simp]:
  "\<not> is_ws 0x22" "\<not> is_ws 0x2C" "\<not> is_ws 0x5D" "\<not> is_ws 0x7D" "\<not> is_ws 0x3A"
  "\<not> is_ws 0x5B" "\<not> is_ws 0x7B"
  by (simp_all add: is_ws_def)

lemma solid_encode_str: "solid (encode_str s @ r)"
  by (simp add: encode_str_def solid_def)

text \<open>Reading one item of a list, the last one or one that is followed by more.\<close>

lemma parse_items_last:
  assumes "parse_value (t @ newline_indent k @ 0x5D # rest) = Some (x, newline_indent k @ 0x5D # rest)"
    and "t \<noteq> []"
  shows "parse_items (t @ newline_indent k @ 0x5D # rest) = Some ([x], rest)"
  using assms
  by (subst parse_items.simps) (simp add: skip_ws_indent skip_ws_solid solid_Cons)

lemma parse_items_next:
  assumes "parse_value (t @ 0x2C # newline_indent n @ tl_text) = Some (x, 0x2C # newline_indent n @ tl_text)"
    and "t \<noteq> []" and "solid tl_text" and "parse_items tl_text = Some (xs, rest)"
  shows "parse_items (t @ 0x2C # newline_indent n @ tl_text) = Some (x # xs, rest)"
  using assms
  by (subst parse_items.simps) (simp add: skip_ws_indent skip_ws_solid solid_Cons)

lemma encode_str_nonempty [simp]: "encode_str s \<noteq> []"
  by (simp add: encode_str_def)

lemma parse_items_strings:
  "parse_items (dump_items n (map JStr (i # ids)) @ newline_indent k @ 0x5D # rest)
     = Some (map JStr (i # ids), rest)"
proof (induction ids arbitrary: i)
  case Nil
  show ?case using parse_items_last [of "encode_str i" k rest "JStr i"]
    by (simp add: parse_value_string)
next
  case (Cons j ids)
  let ?tl_text = "dump_items n (map JStr (j # ids)) @ newline_indent k @ 0x5D # rest"
  have s: "solid ?tl_text" by (simp add: solid_encode_str)
  from parse_items_next [of "encode_str i" n ?tl_text "JStr i", OF _ _ s Cons.IH]
  show ?case by (simp add: parse_value_string U_def)
qed

lemma parse_value_string_list:
  "parse_value (dump n (JArr (map JStr ids)) @ rest) = Some (JArr (map JStr ids), rest)"
proof (cases ids)
  case Nil
  then show ?thesis
    by (subst parse_value.simps) (simp add: U_def skip_ws_solid solid_Cons)
next
  case (Cons i js)
  have s: "solid (dump_items (Suc n) (map JStr (i # js)) @ newline_indent n @ 0x5D # rest)"
    by (simp add: solid_encode_str)
  obtain c cs where c: "dump_items (Suc n) (map JStr (i # js)) @ newline_indent n @ 0x5D # rest = c # cs"
    and d: "c = 0x22"
    by (simp add: encode_str_def)
  from parse_items_strings [of "Suc n" i js n rest] Cons c d s show ?thesis
    by (subst parse_value.simps) (simp add: U_def skip_ws_indent skip_ws_solid)
qed

text \<open>Reading one member of a dict, the last one or one that is followed by more.\<close>

lemma parse_members_last:
  assumes "parse_value (t @ newline_indent k @ 0x7D # rest) = Some (v, newline_indent k @ 0x7D # rest)"
    and "solid t"
  shows "parse_members (encode_str key @ U '': '' @ t @ newline_indent k @ 0x7D # rest)
     = Some ([(key, v)], rest)"
  using assms
  by (subst parse_members.simps)
     (simp add: encode_str_def scanstring_encoded U_def skip_ws_solid solid_Cons
        skip_ws_blank solid_append skip_ws_indent)

lemma parse_members_next:
  assumes "parse_value (t @ 0x2C # newline_indent n @ tl_text) = Some (v, 0x2C # newline_indent n @ tl_text)"
    and "solid t" and "solid tl_text" and "parse_members tl_text = Some (kvs, rest)"
  shows "parse_members (encode_str key @ U '': '' @ t @ 0x2C # newline_indent n @ tl_text)
     = Some ((key, v) # kvs, rest)"
  using assms
  by (subst parse_members.simps)
     (simp add: encode_str_def scanstring_encoded U_def skip_ws_solid solid_Cons
        skip_ws_blank solid_append skip_ws_indent)


lemma solid_dump_string_list: "solid (dump n (JArr (map JStr ids)))"
  by (cases ids) (simp_all add: U_def solid_def)

lemma dump_timestamp:
  "parse_value (dump n (case ts of None \<Rightarrow> JNull | Some t \<Rightarrow> JStr t) @ r)
     = Some (case ts of None \<Rightarrow> JNull | Some t \<Rightarrow> JStr t, r)"
  by (cases ts) (simp_all add: parse_value_null parse_value_string)

lemma solid_timestamp: "solid (dump n (case ts of None \<Rightarrow> JNull | Some t \<Rightarrow> JStr t))"
  by (cases ts) (simp_all add: U_def solid_def encode_str_def is_ws_def)

lemma loads_dump_checkpoint:
  "loads (dump 0 (checkpoint_state ts ids)) = Some (checkpoint_state ts ids)"
proof -
  let ?v1 = "case ts of None \<Rightarrow> JNull | Some t \<Rightarrow> JStr t"
  let ?v2 = "JArr (map JStr ids)"
  let ?m2 = "encode_str (U ''seen_ids'') @ U '': '' @ dump 1 ?v2 @ newline_indent 0 @ [0x7D]"
  let ?m1 = "encode_str (U ''last_checked'') @ U '': '' @ dump 1 ?v1
               @ 0x2C # newline_indent 1 @ ?m2"
  have m2: "parse_members ?m2 = Some ([(U ''seen_ids'', ?v2)], [])"
    by (rule parse_members_last [OF parse_value_string_list solid_dump_string_list])
  have s2: "solid ?m2" by (rule solid_encode_str)
  have m1: "parse_members ?m1 = Some ([(U ''last_checked'', ?v1), (U ''seen_ids'', ?v2)], [])"
    by (rule parse_members_next [OF dump_timestamp solid_timestamp s2 m2])
  have d: "dump 0 (checkpoint_state ts ids) = 0x7B # newline_indent 1 @ ?m1"
    by (simp add: checkpoint_state_def U_def del: dump.simps(1-5))
  obtain cs where c: "?m1 = 0x22 # cs" by (simp add: encode_str_def del: dump.simps)
  have k: "U ''seen_ids'' \<noteq> U ''last_checked''" by simp
  have "parse_value (0x7B # newline_indent 1 @ ?m1) = Some (checkpoint_state ts ids, [])"
    apply (subst parse_value.simps)
    apply (simp only: list.case skip_ws_indent)
    apply (simp only: c skip_ws_solid [OF solid_Cons [OF not_ws(1)]] list.case)
    apply (simp only: c [symmetric] m1)
    apply (simp add: checkpoint_state_def k del: dump.simps)
    done
  then show ?thesis
    unfolding d by (simp add: loads_def skip_ws_solid solid_Cons skip_ws_def del: dump.simps)
qed


lemma hash_key_strings:
  assumes "\<forall>x \<in> set acc. \<exists>s. x = JStr s"
  shows "hash_key (JStr i) \<in> set (map hash_key acc) \<longleftrightarrow> JStr i \<in> set acc"
  using assms by (induction acc) auto

lemma py_set_strings:
  assumes "\<forall>x \<in> set acc. \<exists>s. x = JStr s"
  shows "\<exists>seen. py_set acc (map JStr ids) = Inr seen \<and> set seen = set acc \<union> JStr ` set ids"
  using assms
proof (induction ids arbitrary: acc)
  case Nil
  then show ?case by simp
next
  case (Cons i ids)
  from Cons.prems have a: "\<forall>x \<in> set (set_add (JStr i) acc). \<exists>s. x = JStr s"
    by (auto simp: set_add_def)
  from Cons.prems have b: "set (set_add (JStr i) acc) = insert (JStr i) (set acc)"
    using hash_key_strings [OF Cons.prems, of i] by (auto simp: set_add_def)
  from Cons.IH [OF a] b show ?case by auto
qed

subsection \<open>The parser always consumes input\<close>

text \<open>The length tests inside \<^term>\<open>parse_items\<close> and \<^term>\<open>parse_members\<close> are what
  makes the recursion well founded. They never reject a text: every scanner returns a
  strictly shorter rest, so both functions satisfy the equations without the tests.\<close>

lemma prepend_SomeD:
  "prepend c r = Some (t, rest) \<Longrightarrow> \<exists>t'. r = Some (t', rest)"
  by (cases r) (auto simp: prepend_def)

lemma scanstring_shorter: "scanstring s = Some (t, rest) \<Longrightarrow> length rest < length s"
proof (induction s arbitrary: t rest rule: length_induct)
  case (1 s)
  note IH = 1(1) [rule_format]
  from 1(2) obtain c cs where s: "s = c # cs" by (cases s) auto
  have sub: "length u < length s \<longrightarrow> length r < length u"
    if "scanstring u = Some (t', r)" for u t' r
    using IH that by blast
  from 1(2) s show ?case
    by (auto split: if_splits option.splits list.splits dest!: prepend_SomeD
        dest!: sub simp del: scanstring.simps simp add: scanstring.simps(2) [of c cs])
qed


lemma scan_int_shorter: "scan_int s = Some (n, rest) \<Longrightarrow> length rest < length s"
proof (cases s)
  case Nil
  then show "scan_int s = Some (n, rest) \<Longrightarrow> ?thesis" by (simp add: scan_int_def)
next
  case (Cons c cs)
  assume a: "scan_int s = Some (n, rest)"
  show ?thesis
  proof (cases "c = 48")
    case True
    with a Cons show ?thesis by (simp add: scan_int_def)
  next
    case False
    with a Cons have d: "is_digit c" and r: "rest = dropWhile is_digit s"
      by (auto simp: scan_int_def is_digit_def split: if_splits)
    from d Cons have "dropWhile is_digit s = dropWhile is_digit cs" by simp
    with r Cons show ?thesis using length_dropWhile_le [of is_digit cs] by simp
  qed
qed

lemma parse_number_shorter:
  "parse_number s = Some (v, rest) \<Longrightarrow> length rest < length s"
  by (cases s)
     (auto simp: parse_number_def split: if_splits option.splits
       dest!: scan_int_shorter)

lemma drop_shorter: "take n s = t \<Longrightarrow> t \<noteq> [] \<Longrightarrow> length (drop n s) < length s"
  by (cases n; cases s) auto

lemma skip_ws_less: "length x < n \<Longrightarrow> length (skip_ws x) < n"
  using length_skip_ws [of x] by simp

lemma parse_shorter:
  "(\<forall>v rest. parse_value s = Some (v, rest) \<longrightarrow> length rest < length s)
   \<and> (\<forall>xs rest. parse_items s = Some (xs, rest) \<longrightarrow> length rest < length s)
   \<and> (\<forall>kvs rest. parse_members s = Some (kvs, rest) \<longrightarrow> length rest < length s)"
proof (induction s rule: length_induct)
  case (1 s)
  note IH = 1 [rule_format]
  have items: "length u < length s \<longrightarrow> length r < length u"
    if "parse_items u = Some (xs, r)" for u xs r
    using IH that by blast
  have members: "length u < length s \<longrightarrow> length r < length u"
    if "parse_members u = Some (kvs, r)" for u kvs r
    using IH that by blast
  have inner: "length u < length s \<longrightarrow> length r < length u"
    if "parse_value u = Some (v, r)" for u v r
    using IH that by blast
  have V: "length rest < length s" if "parse_value s = Some (v, rest)" for v rest
  proof (cases s)
    case Nil
    with that show ?thesis by (simp add: parse_value.simps [of "[]"])
  next
    case (Cons c cs)
    have null: "length (drop 4 s) < length s" if "take 4 s = U ''null'' \<or> take 4 s = U ''true''"
      using Cons by simp
    have false: "length (drop 5 s) < length s" if "take 5 s = U ''false''"
      using Cons by simp
    from that Cons null false show ?thesis
      by (auto simp: parse_value.simps [of "c # cs"] split: if_splits option.splits list.splits
          dest!: scanstring_shorter skip_ws_Cons_length parse_number_shorter items members)
  qed
  have I: "length rest < length s" if "parse_items s = Some (xs, rest)" for xs rest
    using that
    by (auto simp: parse_items.simps [of s] split: if_splits option.splits list.splits
        dest!: skip_ws_Cons_length items)
       (auto dest: skip_ws_less)
  have M: "length rest < length s" if "parse_members s = Some (kvs, rest)" for kvs rest
    using that
    by (auto simp: parse_members.simps [of s] split: if_splits option.splits list.splits
        dest!: skip_ws_Cons_length members inner)
       (auto dest: skip_ws_less)
  from V I M show ?case by blast
qed

lemma parse_items_unguarded:
  "parse_items s =
     (case parse_value s of
        None \<Rightarrow> None
      | Some (x, rest) \<Rightarrow>
          (case skip_ws rest of
             [] \<Rightarrow> None
           | d # ds \<Rightarrow>
               if d = 0x5D then Some ([x], ds)
               else if d = 0x2C then
                 (case parse_items (skip_ws ds) of
                    None \<Rightarrow> None
                  | Some (xs, rest') \<Rightarrow> Some (x # xs, rest'))
               else None))"
  using parse_shorter [of s]
  by (subst parse_items.simps) (auto split: option.splits)

lemma parse_members_unguarded:
  "parse_members s =
     (case s of
        [] \<Rightarrow> None
      | q # cs \<Rightarrow>
          if q = 0x22 then
            (case scanstring cs of
               None \<Rightarrow> None
             | Some (k, after_key) \<Rightarrow>
                 (case skip_ws after_key of
                    [] \<Rightarrow> None
                  | colon # after_colon \<Rightarrow>
                      if colon = 0x3A then
                        (case parse_value (skip_ws after_colon) of
                           None \<Rightarrow> None
                         | Some (v, rest) \<Rightarrow>
                             (case skip_ws rest of
                                [] \<Rightarrow> None
                              | d # ds \<Rightarrow>
                                  if d = 0x7D then Some ([(k, v)], ds)
                                  else if d = 0x2C then
                                    (case parse_members (skip_ws ds) of
                                       None \<Rightarrow> None
                                     | Some (kvs, rest') \<Rightarrow> Some ((k, v) # kvs, rest'))
                                  else None))
                      else None))
          else None)"
proof (cases s)
  case Nil
  then show ?thesis by (simp add: parse_members.simps [of "[]"])
next
  case (Cons q cs)
  have colon: "length after_colon < length s"
    if "scanstring cs = Some (k, after_key)" "skip_ws after_key = colon # after_colon"
    for k after_key colon after_colon
    using scanstring_shorter [OF that(1)] skip_ws_Cons_length [OF that(2)] Cons by simp
  have rest: "length rest < length s"
    if "scanstring cs = Some (k, after_key)" "skip_ws after_key = colon # after_colon"
      "parse_value (skip_ws after_colon) = Some (v, rest)"
    for k after_key colon after_colon v rest
  proof -
    from parse_shorter [of "skip_ws after_colon"] that(3)
    have "length rest < length (skip_ws after_colon)" by blast
    also have "\<dots> \<le> length after_colon" by (rule length_skip_ws)
    also have "\<dots> < length s" using that(1,2) by (rule colon)
    finally show ?thesis .
  qed
  show ?thesis
    unfolding Cons
    by (subst parse_members.simps)
       (use colon rest in \<open>auto simp: Cons split: option.splits list.splits\<close>)
qed

lemma encodable_esc_char: "encodable c \<Longrightarrow> list_all encodable (esc_char c)"
  using mod_less_divisor [of 16 c] by (auto simp: esc_char_def encodable_def hexdig_def)

lemma encodable_encode_str: "list_all encodable s \<Longrightarrow> list_all encodable (encode_str s)"
  by (induction s) (simp_all add: encode_str_def encodable_esc_char, simp_all add: encodable_def)

lemma encodable_indent: "list_all encodable (newline_indent n)"
  by (simp add: newline_indent_def encodable_def list_all_iff)

lemma encodable_dump_strings:
  "\<forall>i \<in> set ids. list_all encodable i \<Longrightarrow> list_all encodable (dump_items n (map JStr ids))"
  by (induction ids) (simp_all add: encodable_encode_str encodable_indent, simp_all add: U_def encodable_def)

lemma encodable_dump_checkpoint:
  assumes "\<forall>t \<in> set_option ts. list_all encodable t" and "\<forall>i \<in> set ids. list_all encodable i"
  shows "list_all encodable (dump 0 (checkpoint_state ts ids))"
proof -
  have a: "list_all encodable (dump 1 (case ts of None \<Rightarrow> JNull | Some t \<Rightarrow> JStr t))"
    using assms(1) by (cases ts) (simp_all add: encodable_encode_str, simp add: U_def encodable_def)
  have b: "list_all encodable (dump 1 (JArr (map JStr ids)))"
    using encodable_dump_strings [OF assms(2), of "Suc (Suc 0)"]
    by (simp add: encodable_indent del: dump_items.simps) (simp add: U_def encodable_def)
  have k: "list_all encodable (encode_str (U ''last_checked''))" "list_all encodable (encode_str (U ''seen_ids''))"
    by (rule encodable_encode_str, simp add: U_def encodable_def)+
  have d: "dump 0 (checkpoint_state ts ids) =
      U ''{'' @ newline_indent 1 @ encode_str (U ''last_checked'') @ U '': ''
        @ dump 1 (case ts of None \<Rightarrow> JNull | Some t \<Rightarrow> JStr t) @ U '','' @ newline_indent 1
        @ encode_str (U ''seen_ids'') @ U '': '' @ dump 1 (JArr (map JStr ids))
        @ newline_indent 0 @ U ''}''"
    by (simp add: checkpoint_state_def del: dump.simps(1-5))
  show ?thesis
    unfolding d using a b k
    by (simp add: encodable_indent del: dump.simps) (simp add: U_def encodable_def)
qed

lemma save_checkpoint:
  assumes "\<forall>t \<in> set_option ts. list_all encodable t" and "\<forall>i \<in> set ids. list_all encodable i"
  shows "save_state env (checkpoint_state ts ids) w
     = (Inr (), w\<lparr>state_file := Some (dump 0 (checkpoint_state ts ids))\<rparr>)"
  using encodable_dump_checkpoint [OF assms] by (simp add: save_state_def del: dump.simps)

lemma replicate_small:
  "replicate 2 x = [x, x]" "replicate 4 x = [x, x, x, x]"
  by (simp_all add: numeral_eq_Suc)

lemma surrogate_save:
  "save_state partial_write_env
      (JObj [(U ''last_checked'', JNull), (U ''seen_ids'', JArr [JStr [0xD800]])]) world0
     = (Inl UnicodeEncodeError,
        world0\<lparr>state_file := Some (0x7B # 0x0A # U ''  '' @ 0x22 # U ''last_checked'' @ 0x22 # U '': null,''
                                  @ 0x0A # U ''  '' @ 0x22 # U ''seen_ids'' @ 0x22 # U '': '')\<rparr>)"
  by (simp add: save_state_def partial_write_env_def status_env_def scripted_env_def world0_def U_def
      encode_str_def esc_char_def newline_indent_def encodable_def replicate_small)

lemma truncated_load:
  "load_state (world0\<lparr>state_file := Some (0x7B # 0x0A # U ''  '' @ 0x22 # U ''last_checked'' @ 0x22
                                  # U '': null,'' @ 0x0A # U ''  '' @ 0x22 # U ''seen_ids'' @ 0x22 # U '': '')\<rparr>)
       = Inl JSONDecodeError"
  by (simp add: load_state_def loads_def world0_def U_def skip_ws_def is_ws_def
      parse_value.simps parse_members.simps scanstring.simps prepend_def)

lemma empty_load: "load_state (world0\<lparr>state_file := Some []\<rparr>) = Inl JSONDecodeError"
  by (simp add: load_state_def loads_def world0_def skip_ws_def parse_value.simps)

text \<open>
  Claim C4 as stated does not hold of an identifier with a surrogate code point, which
  \<^verbatim>\<open>resp.json()\<close> returns for the JSON text \<^verbatim>\<open>"\ud800"\<close>: \<^verbatim>\<open>save_state\<close> raises
  \<^verbatim>\<open>UnicodeEncodeError\<close>, and what it leaves in the file is not a JSON document, so
  \<^verbatim>\<open>load_state\<close> raises too; both with a file object that has passed on the text before
  the list and with one that has passed on nothing.
\<close>

theorem checkpoint_surrogate_counterexample:
  "save_state partial_write_env
      (JObj [(U ''last_checked'', JNull), (U ''seen_ids'', JArr [JStr [0xD800]])]) world0
     = (Inl UnicodeEncodeError,
        world0\<lparr>state_file := Some (0x7B # 0x0A # U ''  '' @ 0x22 # U ''last_checked'' @ 0x22 # U '': null,''
                                  @ 0x0A # U ''  '' @ 0x22 # U ''seen_ids'' @ 0x22 # U '': '')\<rparr>)
   \<and> load_state (world0\<lparr>state_file := Some (0x7B # 0x0A # U ''  '' @ 0x22 # U ''last_checked'' @ 0x22
                                  # U '': null,'' @ 0x0A # U ''  '' @ 0x22 # U ''seen_ids'' @ 0x22 # U '': '')\<rparr>)
       = Inl JSONDecodeError
   \<and> save_state (status_env 200)
      (JObj [(U ''last_checked'', JNull), (U ''seen_ids'', JArr [JStr [0xD800]])]) world0
     = (Inl UnicodeEncodeError, world0\<lparr>state_file := Some []\<rparr>)
   \<and> load_state (world0\<lparr>state_file := Some []\<rparr>) = Inl JSONDecodeError"
  using surrogate_save truncated_load empty_load
  by (simp add: save_state_def status_env_def scripted_env_def world0_def U_def
      encode_str_def esc_char_def newline_indent_def encodable_def replicate_small)

text \<open>
  Claim C4, amended. Whatever the timestamp (a string or \<^verbatim>\<open>None\<close>) and the identifiers, in
  any order, as long as no string holds a code point that UTF-8 cannot encode (a
  surrogate): \<^verbatim>\<open>save_state\<close> returns, \<^verbatim>\<open>load_state\<close> after it returns the state that was saved,
  through the text of the file, and the head of \<^verbatim>\<open>main\<close> reads from it the same timestamp
  and the same set of identifiers.
\<close>

theorem checkpoint_roundtrip:
  assumes "\<forall>t \<in> set_option ts. \<forall>c \<in> set t. c < 0xD800 \<or> 0xDFFF < c \<and> c < 0x110000"
    and "\<forall>i \<in> set ids. \<forall>c \<in> set i. c < 0xD800 \<or> 0xDFFF < c \<and> c < 0x110000"
  shows "(let C = JObj [(U ''last_checked'', case ts of None \<Rightarrow> JNull | Some t \<Rightarrow> JStr t),
                        (U ''seen_ids'', JArr (map JStr ids))]
          in fst (save_state env C w) = Inr ()
           \<and> load_state (snd (save_state env C w)) = Inr C
           \<and> (\<exists>seen. read_checkpoint (snd (save_state env C w)) =
                  Inr (C, (case ts of None \<Rightarrow> JNull | Some t \<Rightarrow> JStr t), seen)
                \<and> set seen = JStr ` set ids))"
proof -
  from assms have e: "\<forall>t \<in> set_option ts. list_all encodable t" "\<forall>i \<in> set ids. list_all encodable i"
    by (simp_all add: list_all_iff encodable_def)
  note s = save_checkpoint [OF e, of env w]
  have l: "load_state (snd (save_state env (checkpoint_state ts ids) w)) = Inr (checkpoint_state ts ids)"
    by (simp add: s load_state_def loads_dump_checkpoint del: dump.simps)
  from py_set_strings [of "[]" ids] obtain seen
    where "py_set [] (map JStr ids) = Inr seen" and "set seen = JStr ` set ids" by auto
  with l have "\<exists>seen. read_checkpoint (snd (save_state env (checkpoint_state ts ids) w)) =
                  Inr (checkpoint_state ts ids, (case ts of None \<Rightarrow> JNull | Some t \<Rightarrow> JStr t), seen)
                \<and> set seen = JStr ` set ids"
    by (simp add: read_checkpoint_def checkpoint_state_def del: dump.simps)
  with l s show ?thesis
    unfolding Let_def checkpoint_state_def [symmetric] by (simp del: dump.simps)
qed


text \<open>
  C4 at a checkpoint with an identifier that needs escaping, with the text of the file.
\<close>

theorem checkpoint_roundtrip_witness:
  "fst (save_state (status_env 200)
        (JObj [(U ''last_checked'', JStr (U ''2024-05-01T00:00:00+00:00'')),
               (U ''seen_ids'', JArr [JStr (U ''id-1''), JStr [0x22, 0x0A, 0xC81C]])]) world0) = Inr ()
   \<and> load_state (snd (save_state (status_env 200)
        (JObj [(U ''last_checked'', JStr (U ''2024-05-01T00:00:00+00:00'')),
               (U ''seen_ids'', JArr [JStr (U ''id-1''), JStr [0x22, 0x0A, 0xC81C]])]) world0))
     = Inr (JObj [(U ''last_checked'', JStr (U ''2024-05-01T00:00:00+00:00'')),
                  (U ''seen_ids'', JArr [JStr (U ''id-1''), JStr [0x22, 0x0A, 0xC81C]])])
   \<and> state_file (snd (save_state (status_env 200)
        (JObj [(U ''last_checked'', JStr (U ''2024-05-01T00:00:00+00:00'')),
               (U ''seen_ids'', JArr [JStr (U ''id-1''), JStr [0x22, 0x0A, 0xC81C]])]) world0))
     = Some (0x7B # 0x0A # U ''  '' @ 0x22 # U ''last_checked'' @ 0x22 # U '': ''
               @ 0x22 # U ''2024-05-01T00:00:00+00:00'' @ 0x22 # U '','' @ 0x0A # U ''  ''
               @ 0x22 # U ''seen_ids'' @ 0x22 # U '': ['' @ 0x0A # U ''    '' @ 0x22 # U ''id-1'' @ 0x22
               # U '','' @ 0x0A # U ''    '' @ [0x22, 0x5C, 0x22, 0x5C, 0x6E, 0xC81C, 0x22]
               @ 0x0A # U ''  ]'' @ 0x0A # U ''}'')"
proof -
  have h: "(\<forall>t \<in> set_option (Some (U ''2024-05-01T00:00:00+00:00'')).
       \<forall>c \<in> set t. c < 0xD800 \<or> 0xDFFF < c \<and> c < 0x110000)"
     "(\<forall>i \<in> set [U ''id-1'', [0x22, 0x0A, 0xC81C]]. \<forall>c \<in> set i. c < 0xD800 \<or> 0xDFFF < c \<and> c < 0x110000)"
    by (simp_all add: U_def)
  have f: "state_file (snd (save_state (status_env 200)
        (JObj [(U ''last_checked'', JStr (U ''2024-05-01T00:00:00+00:00'')),
               (U ''seen_ids'', JArr [JStr (U ''id-1''), JStr [0x22, 0x0A, 0xC81C]])]) world0))
     = Some (0x7B # 0x0A # U ''  '' @ 0x22 # U ''last_checked'' @ 0x22 # U '': ''
               @ 0x22 # U ''2024-05-01T00:00:00+00:00'' @ 0x22 # U '','' @ 0x0A # U ''  ''
               @ 0x22 # U ''seen_ids'' @ 0x22 # U '': ['' @ 0x0A # U ''    '' @ 0x22 # U ''id-1'' @ 0x22
               # U '','' @ 0x0A # U ''    '' @ [0x22, 0x5C, 0x22, 0x5C, 0x6E, 0xC81C, 0x22]
               @ 0x0A # U ''  ]'' @ 0x0A # U ''}'')"
    by (simp add: save_state_def status_env_def scripted_env_def world0_def U_def
        encode_str_def esc_char_def newline_indent_def encodable_def replicate_small)
  from checkpoint_roundtrip [OF h, of "status_env 200" world0] f
  show ?thesis by (simp only: Let_def option.case list.map)
qed

section \<open>Properties of a run\<close>

lemma fetch_world: "fetch env req w = (r, w') \<Longrightarrow> w' = w\<lparr>sent := sent w @ [req]\<rparr>"
  by (auto simp: fetch_def http_call_def split: http_result.splits)





lemma db_pages_loop_world:
  assumes "db_pages_loop env db_id payload acc w = Some y"
  shows "\<exists>ext. sent (snd y) = sent w @ ext \<and> (\<forall>req \<in> set ext. \<not> is_webhook req)
     \<and> state_file (snd y) = state_file w \<and> clock_reads (snd y) = clock_reads w"
  using assms
proof (induction env db_id payload acc w y
    rule: db_pages_loop.raw_induct [rotated, consumes 1, case_names step])
  case (step loop env db_id payload acc w y)
  let ?req = "POST (DbQuery db_id) (JObj payload)"
  obtain r w1 where f: "fetch env ?req w = (r, w1)" by (cases "fetch env ?req w")
  then have w1: "w1 = w\<lparr>sent := sent w @ [?req]\<rparr>" by (rule fetch_world)
  have one: "\<exists>ext. sent w1 = sent w @ ext \<and> (\<forall>req \<in> set ext. \<not> is_webhook req)
     \<and> state_file w1 = state_file w \<and> clock_reads w1 = clock_reads w"
    using w1 by (intro exI [of _ "[?req]"]) simp
  have more: "\<exists>ext. sent (snd y) = sent w @ ext \<and> (\<forall>req \<in> set ext. \<not> is_webhook req)
     \<and> state_file (snd y) = state_file w \<and> clock_reads (snd y) = clock_reads w"
    if rec: "loop env db_id p a w1 = Some y" for p a
  proof -
    from step(1) [OF rec] obtain ext where ext: "sent (snd y) = sent w1 @ ext"
      "\<forall>req \<in> set ext. \<not> is_webhook req"
      "state_file (snd y) = state_file w1" "clock_reads (snd y) = clock_reads w1"
      by blast
    with w1 show ?thesis by (intro exI [of _ "?req # ext"]) simp
  qed
  from step(2) f one more show ?case
    by (auto split: sum.splits if_splits simp del: ex_simps)
qed


lemma blocks_loop_world:
  assumes "blocks_loop env page_id after_dt cursor acc w = Some y"
  shows "\<exists>ext. sent (snd y) = sent w @ ext
     \<and> (\<forall>req \<in> set ext. \<not> is_webhook req \<and> query_or_other t req)
     \<and> state_file (snd y) = state_file w \<and> clock_reads (snd y) = clock_reads w"
  using assms
proof (induction env page_id after_dt cursor acc w y
    rule: blocks_loop.raw_induct [rotated, consumes 1, case_names step])
  case (step loop env page_id after_dt cursor acc w y)
  let ?req = "GET (BlockChildren page_id cursor)"
  obtain r w1 where f: "fetch env ?req w = (r, w1)" by (cases "fetch env ?req w")
  then have w1: "w1 = w\<lparr>sent := sent w @ [?req]\<rparr>" by (rule fetch_world)
  have one: "\<exists>ext. sent w1 = sent w @ ext
     \<and> (\<forall>req \<in> set ext. \<not> is_webhook req \<and> query_or_other t req)
     \<and> state_file w1 = state_file w \<and> clock_reads w1 = clock_reads w"
    using w1 by (intro exI [of _ "[?req]"]) simp
  have more: "\<exists>ext. sent (snd y) = sent w @ ext
     \<and> (\<forall>req \<in> set ext. \<not> is_webhook req \<and> query_or_other t req)
     \<and> state_file (snd y) = state_file w \<and> clock_reads (snd y) = clock_reads w"
    if rec: "loop env page_id after_dt c a w1 = Some y" for c a
  proof -
    from step(1) [OF rec] obtain ext where ext: "sent (snd y) = sent w1 @ ext"
      "\<forall>req \<in> set ext. \<not> is_webhook req \<and> query_or_other t req"
      "state_file (snd y) = state_file w1" "clock_reads (snd y) = clock_reads w1"
      by blast
    with w1 show ?thesis by (intro exI [of _ "?req # ext"]) simp
  qed
  from step(2) f one more show ?case
    by (auto split: sum.splits if_splits simp del: ex_simps)
qed



lemma posts_append: "posts (xs @ ys) = posts xs @ posts ys"
  by (simp add: posts_def)

lemma posts_quiet: "\<forall>req \<in> set ext. \<not> is_webhook req \<Longrightarrow> posts ext = []"
  by (induction ext) (simp_all add: posts_def)

lemma segment_quiet:
  assumes "\<exists>ext. sent w1 = sent w @ ext \<and> (\<forall>req \<in> set ext. \<not> is_webhook req \<and> R req)"
    and "state_file w1 = state_file w" and "clock_reads w1 = clock_reads w"
  shows "run_segment env R Q seen w (Inr seen) w1 []" and "run_segment env R Q seen w (Inl e) w1 []"
proof -
  from assms(1) obtain ext where ext: "sent w1 = sent w @ ext"
    "\<forall>req \<in> set ext. \<not> is_webhook req \<and> R req" by blast
  then have "posts ext = []" by (intro posts_quiet) simp
  with ext have "\<exists>ext. sent w1 = sent w @ ext \<and> (\<forall>req \<in> set ext. R req)
          \<and> posts ext = map (item_request env) []"
    by (intro exI [of _ ext]) simp
  with assms(2,3) show "run_segment env R Q seen w (Inr seen) w1 []"
    and "run_segment env R Q seen w (Inl e) w1 []"
    by (simp_all add: run_segment_def)
qed

lemma segment_refl:
  "run_segment env R Q seen w (Inr seen) w []" "run_segment env R Q seen w (Inl e) w []"
  by (rule segment_quiet; simp)+

lemma segment_trans:
  assumes "run_segment env R Q seen w (Inr seen1) w1 items1"
    and "run_segment env R Q seen1 w1 r w2 items2"
  shows "run_segment env R Q seen w r w2 (items1 @ items2)"
proof -
  from assms(1) obtain ext1 where e1: "sent w1 = sent w @ ext1" "\<forall>req \<in> set ext1. R req"
    "posts ext1 = map (item_request env) items1"
    and q1: "\<forall>q \<in> set items1. Q q" and d1: "distinct (map item_key items1)"
    and n1: "\<forall>q \<in> set items1. item_key q \<notin> set (map hash_key seen)"
    and s1: "set (map hash_key seen1) = set (map hash_key seen) \<union> set (map item_key items1)"
    and f1: "state_file w1 = state_file w" "clock_reads w1 = clock_reads w"
    unfolding run_segment_def by blast
  from assms(2) obtain ext2 where e2: "sent w2 = sent w1 @ ext2" "\<forall>req \<in> set ext2. R req"
    "posts ext2 = map (item_request env) items2"
    and q2: "\<forall>q \<in> set items2. Q q" and d2: "distinct (map item_key items2)"
    and n2: "\<forall>q \<in> set items2. item_key q \<notin> set (map hash_key seen1)"
    and s2: "\<forall>seen'. r = Inr seen' \<longrightarrow>
            set (map hash_key seen') = set (map hash_key seen1) \<union> set (map item_key items2)"
    and f2: "state_file w2 = state_file w1" "clock_reads w2 = clock_reads w1"
    unfolding run_segment_def by blast
  have ext: "\<exists>ext. sent w2 = sent w @ ext \<and> (\<forall>req \<in> set ext. R req)
          \<and> posts ext = map (item_request env) (items1 @ items2)"
    using e1 e2 by (intro exI [of _ "ext1 @ ext2"]) (auto simp: posts_append)
  have q: "\<forall>q \<in> set (items1 @ items2). Q q" using q1 q2 by auto
  have "\<forall>q \<in> set items2. item_key q \<notin> set (map item_key items1)"
    using n2 s1 by simp
  then have "set (map item_key items1) \<inter> set (map item_key items2) = {}"
    by (auto simp: disjoint_iff) (metis imageI)
  with d1 d2 have d: "distinct (map item_key (items1 @ items2))" by simp
  have n: "\<forall>q \<in> set (items1 @ items2). item_key q \<notin> set (map hash_key seen)"
    using n1 n2 s1 by auto
  have s: "\<forall>seen'. r = Inr seen' \<longrightarrow>
            set (map hash_key seen') = set (map hash_key seen) \<union> set (map item_key (items1 @ items2))"
    using s1 s2 by auto
  from ext q d n s f1 f2 show ?thesis unfolding run_segment_def by simp
qed

lemma segment_post:
  assumes "item_request env q = req" and "is_webhook req" and "R req" and "Q q"
    and "item_key q = hash_key pid" and "hash_key pid \<notin> set (map hash_key seen)"
  shows "run_segment env R Q seen w (Inr (set_add pid seen)) (w\<lparr>sent := sent w @ [req]\<rparr>) [q]"
    and "run_segment env R Q seen w (Inl e) (w\<lparr>sent := sent w @ [req]\<rparr>) [q]"
proof -
  have "\<exists>ext. sent (w\<lparr>sent := sent w @ [req]\<rparr>) = sent w @ ext \<and> (\<forall>r \<in> set ext. R r)
          \<and> posts ext = map (item_request env) [q]"
    using assms(1,2,3) by (intro exI [of _ "[req]"]) (simp add: posts_def)
  with assms(4,5,6) show
    "run_segment env R Q seen w (Inr (set_add pid seen)) (w\<lparr>sent := sent w @ [req]\<rparr>) [q]"
    and "run_segment env R Q seen w (Inl e) (w\<lparr>sent := sent w @ [req]\<rparr>) [q]"
    by (simp_all add: run_segment_def set_add_def)
qed

lemma py_in_False: "py_in pid seen = Inr False \<Longrightarrow> hash_key pid \<notin> set (map hash_key seen)"
  by (auto simp: py_in_def split: option.splits)

lemma notify_items_segment:
  assumes mk: "\<And>p. item_request env (mk p) = webhook_request text (blocks_of (fmt p))"
    and js: "\<And>p. item_json (mk p) = p"
    and R: "\<And>req. is_webhook req \<Longrightarrow> R req"
    and Q: "\<forall>p \<in> set ps. Q (mk p)"
    and run: "notify_items env fmt text ps seen w = (r, w')"
  shows "\<exists>items. run_segment env R Q seen w r w' items"
  using Q run
proof (induction ps arbitrary: seen w)
  case Nil
  then show ?case using segment_refl [of env R Q seen w] by auto
next
  case (Cons p ps)
  let ?idr = "ebind (py_get p (U ''id'') JNull)
      (\<lambda>pid. ebind (py_in pid seen) (\<lambda>known. Inr (pid, known)))"
  from Cons.prems(1) have Qps: "\<forall>p \<in> set ps. Q (mk p)" by simp
  show ?case
  proof (cases ?idr)
    case (Inl e)
    with Cons.prems(2) have "r = Inl e" "w' = w" by simp_all
    then show ?thesis using segment_refl(2) [of env R Q seen w e] by auto
  next
    case (Inr pk)
    obtain pid known where pk: "pk = (pid, known)" by (cases pk)
    from Inr pk have pid: "py_get p (U ''id'') JNull = Inr pid" and kn: "py_in pid seen = Inr known"
      by (auto simp: ebind_def split: sum.splits)
    show ?thesis
    proof (cases known)
      case True
      with Cons.prems(2) Inr pk have "notify_items env fmt text ps seen w = (r, w')" by simp
      from Cons.IH [OF Qps this] show ?thesis .
    next
      case False
      with kn have fresh: "hash_key pid \<notin> set (map hash_key seen)" by (auto dest: py_in_False)
      from pid have key: "item_key (mk p) = hash_key pid" by (simp add: item_key_def js item_id_def)
      show ?thesis
      proof (cases "fmt p")
        case (Inl e)
        with Cons.prems(2) Inr pk False have "r = Inl e" "w' = w" by simp_all
        then show ?thesis using segment_refl(2) [of env R Q seen w e] by auto
      next
        case blocks: (Inr blocks)
        let ?req = "webhook_request text blocks"
        let ?w1 = "w\<lparr>sent := sent w @ [?req]\<rparr>"
        from blocks have req: "item_request env (mk p) = ?req" by (simp add: mk blocks_of_def)
        have hook: "is_webhook ?req" by (simp add: webhook_request_def)
        from Cons.prems(1) have Qp: "Q (mk p)" by simp
        obtain pr where post: "slack_post env text blocks w = (pr, ?w1)"
          by (simp add: slack_post_eq)
        show ?thesis
        proof (cases pr)
          case (Inl e)
          with Cons.prems(2) Inr pk False blocks post have "r = Inl e" "w' = ?w1" by simp_all
          then show ?thesis
            using segment_post(2) [where R = R and Q = Q, OF req hook R [OF hook] Qp key fresh, of w e] by auto
        next
          case (Inr u)
          with Cons.prems(2) \<open>?idr = Inr pk\<close> pk False blocks post
          have "notify_items env fmt text ps (set_add pid seen) ?w1 = (r, w')" by simp
          from Cons.IH [OF Qps this] obtain items
            where "run_segment env R Q (set_add pid seen) ?w1 r w' items" ..
          from segment_trans [OF segment_post(1) [where R = R and Q = Q, OF req hook R [OF hook] Qp key fresh, of w] this]
          show ?thesis by blast
        qed
      qed
    qed
  qed
qed


lemma segment_fetch:
  assumes "fetch_quiet R w w1"
  shows "run_segment env R Q seen w (Inr seen) w1 []" and "run_segment env R Q seen w (Inl e) w1 []"
  using assms unfolding fetch_quiet_def by (auto intro!: segment_quiet)

lemma db_phase_segment:
  assumes spec: "\<forall>db w0 fr w1. query_new_db_pages env db t w0 = Some (fr, w1) \<longrightarrow>
        fetch_quiet R w0 w1 \<and> (\<forall>pages. fr = Inr pages \<longrightarrow> (\<forall>x \<in> set pages. Q (NewPage x)))"
    and R: "\<forall>req. is_webhook req \<longrightarrow> R req"
    and run: "db_phase env t dbids seen w = Some (r, w')"
  shows "\<exists>items. run_segment env R Q seen w r w' items"
  using run
proof (induction dbids arbitrary: seen w)
  case Nil
  then show ?case using segment_refl(1) [of env R Q seen w] by auto
next
  case (Cons dbid dbids)
  from Cons.prems obtain fr w1 where q: "query_new_db_pages env dbid t w = Some (fr, w1)"
    by (cases "query_new_db_pages env dbid t w") auto
  from spec q have fq: "fetch_quiet R w w1"
    and Qall: "\<forall>pages. fr = Inr pages \<longrightarrow> (\<forall>x \<in> set pages. Q (NewPage x))" by blast+
  note quiet = segment_fetch [OF fq, of env Q seen]
  show ?case
  proof (cases fr)
    case (Inl e)
    with Cons.prems q have "r = Inl e" "w' = w1" by simp_all
    with quiet(2) show ?thesis by blast
  next
    case (Inr pages)
    obtain nr w2 where n: "notify_items env (format_page_block (py_repr env)) new_page_text
        pages seen w1 = (nr, w2)"
      by (cases "notify_items env (format_page_block (py_repr env)) new_page_text pages seen w1")
    from Qall Inr have Qp: "\<forall>p \<in> set pages. Q (NewPage p)" by simp
    have "\<exists>items. run_segment env R Q seen w1 nr w2 items"
      by (rule notify_items_segment [where mk = NewPage, OF _ _ _ Qp n]) (simp_all add: R)
    then obtain items1 where "run_segment env R Q seen w1 nr w2 items1" ..
    from segment_trans [OF quiet(1) this]
    have s1: "run_segment env R Q seen w nr w2 items1" by simp
    show ?thesis
    proof (cases nr)
      case (Inl e)
      with Cons.prems q Inr n have "r = Inl e" "w' = w2" by simp_all
      with s1 Inl show ?thesis by blast
    next
      case seen1: (Inr seen1)
      with Cons.prems q Inr n have "db_phase env t dbids seen1 w2 = Some (r, w')" by simp
      from Cons.IH [OF this] obtain items2 where "run_segment env R Q seen1 w2 r w' items2" ..
      from segment_trans [OF s1 [unfolded seen1] this] show ?thesis by blast
    qed
  qed
qed

lemma page_phase_segment:
  assumes spec: "\<forall>pg w0 fr w1. list_new_blocks env pg after_dt w0 = Some (fr, w1) \<longrightarrow>
        fetch_quiet R w0 w1 \<and> (\<forall>blks. fr = Inr blks \<longrightarrow> (\<forall>x \<in> set blks. Q (NewBlock x)))"
    and R: "\<forall>req. is_webhook req \<longrightarrow> R req"
    and run: "page_phase env after_dt pgids seen w = Some (r, w')"
  shows "\<exists>items. run_segment env R Q seen w r w' items"
  using run
proof (induction pgids arbitrary: seen w)
  case Nil
  then show ?case using segment_refl(1) [of env R Q seen w] by auto
next
  case (Cons pgid pgids)
  from Cons.prems obtain fr w1 where q: "list_new_blocks env pgid after_dt w = Some (fr, w1)"
    by (cases "list_new_blocks env pgid after_dt w") auto
  from spec q have fq: "fetch_quiet R w w1"
    and Qall: "\<forall>blks. fr = Inr blks \<longrightarrow> (\<forall>x \<in> set blks. Q (NewBlock x))" by blast+
  note quiet = segment_fetch [OF fq, of env Q seen]
  show ?case
  proof (cases fr)
    case (Inl e)
    with Cons.prems q have "r = Inl e" "w' = w1" by simp_all
    with quiet(2) show ?thesis by blast
  next
    case (Inr blks)
    obtain nr w2 where n: "notify_items env (format_block_item (py_repr env)) new_block_text
        blks seen w1 = (nr, w2)"
      by (cases "notify_items env (format_block_item (py_repr env)) new_block_text blks seen w1")
    from Qall Inr have Qp: "\<forall>p \<in> set blks. Q (NewBlock p)" by simp
    have "\<exists>items. run_segment env R Q seen w1 nr w2 items"
      by (rule notify_items_segment [where mk = NewBlock, OF _ _ _ Qp n]) (simp_all add: R)
    then obtain items1 where "run_segment env R Q seen w1 nr w2 items1" ..
    from segment_trans [OF quiet(1) this]
    have s1: "run_segment env R Q seen w nr w2 items1" by simp
    show ?thesis
    proof (cases nr)
      case (Inl e)
      with Cons.prems q Inr n have "r = Inl e" "w' = w2" by simp_all
      with s1 Inl show ?thesis by blast
    next
      case seen1: (Inr seen1)
      with Cons.prems q Inr n have "page_phase env after_dt pgids seen1 w2 = Some (r, w')" by simp
      from Cons.IH [OF this] obtain items2 where "run_segment env R Q seen1 w2 r w' items2" ..
      from segment_trans [OF s1 [unfolded seen1] this] show ?thesis by blast
    qed
  qed
qed

lemma block_part_segment:
  assumes spec: "\<forall>after_dt.
        (if py_truthy t then \<exists>d. parse_dt env t = Inr d \<and> after_dt = Some d else after_dt = None) \<longrightarrow>
        (\<forall>pg w0 fr w1. list_new_blocks env pg after_dt w0 = Some (fr, w1) \<longrightarrow>
           fetch_quiet R w0 w1 \<and> (\<forall>blks. fr = Inr blks \<longrightarrow> (\<forall>x \<in> set blks. Q (NewBlock x))))"
    and R: "\<forall>req. is_webhook req \<longrightarrow> R req"
    and run: "block_part env cfg t seen w = Some (r, w')"
  shows "\<exists>items. run_segment env R Q seen w r w' items"
proof (cases "PAGE_IDS cfg = []")
  case True
  with run have "r = Inr seen" "w' = w" by (simp_all add: block_part_def)
  then show ?thesis using segment_refl(1) [of env R Q seen w] by auto
next
  case False
  let ?a = "if py_truthy t then ebind (parse_dt env t) (\<lambda>d. Inr (Some d)) else Inr None"
  show ?thesis
  proof (cases ?a)
    case (Inl e)
    with run False have "r = Inl e" "w' = w" by (simp_all add: block_part_def)
    then show ?thesis using segment_refl(2) [of env R Q seen w e] by auto
  next
    case (Inr after_dt)
    then have a: "if py_truthy t then \<exists>d. parse_dt env t = Inr d \<and> after_dt = Some d
        else after_dt = None"
      by (auto simp: ebind_def split: if_splits sum.splits)
    from run False Inr have p: "page_phase env after_dt (PAGE_IDS cfg) seen w = Some (r, w')"
      by (simp add: block_part_def)
    from spec a have "\<forall>pg w0 fr w1. list_new_blocks env pg after_dt w0 = Some (fr, w1) \<longrightarrow>
           fetch_quiet R w0 w1 \<and> (\<forall>blks. fr = Inr blks \<longrightarrow> (\<forall>x \<in> set blks. Q (NewBlock x)))"
      by blast
    from page_phase_segment [OF this R p] show ?thesis .
  qed
qed

lemma boundary_world:
  "boundary env last_checked w = (t, w1) \<Longrightarrow> sent w1 = sent w \<and> state_file w1 = state_file w"
  by (auto simp: boundary_def now_iso_def split: if_splits)

lemma save_state_sent: "save_state env state w = (r, w') \<Longrightarrow> sent w' = sent w"
  by (auto simp: save_state_def Let_def split: if_splits)

lemma save_state_error: "save_state env state w = (Inl e, w') \<Longrightarrow> e = UnicodeEncodeError"
  by (auto simp: save_state_def Let_def split: if_splits)

lemma finish_world: "finish env state seen w = (r, w') \<Longrightarrow> sent w' = sent w"
  by (auto simp: finish_def now_iso_def split: sum.splits dest: save_state_sent)

lemma finish_file:
  assumes "finish env state seen w = (Inl e, w')"
  shows "state_file w' = state_file w
     \<or> e = UnicodeEncodeError \<and> (\<exists>state' w1. save_state env state' w1 = (Inl e, w'))"
proof (cases "ebind (py_setitem state (U ''last_checked'') (JStr (now_text env (clock_reads w))))
                (\<lambda>s. py_setitem s (U ''seen_ids'') (JArr (set_order env seen)))")
  case (Inl e')
  with assms show ?thesis by (auto simp: finish_def now_iso_def)
next
  case (Inr state')
  with assms have s: "save_state env state' (w\<lparr>clock_reads := Suc (clock_reads w)\<rparr>) = (Inl e, w')"
    by (simp add: finish_def now_iso_def)
  from save_state_error [OF s] s show ?thesis by blast
qed

lemma main_segment:
  assumes rc: "read_checkpoint w = Inr (state, last_checked, seen0)"
    and b: "boundary env last_checked w = (t, w1)"
    and qspec: "\<forall>db w0 fr w1. query_new_db_pages env db t w0 = Some (fr, w1) \<longrightarrow>
        fetch_quiet R w0 w1 \<and> (\<forall>pages. fr = Inr pages \<longrightarrow> (\<forall>x \<in> set pages. Q (NewPage x)))"
    and bspec: "\<forall>after_dt.
        (if py_truthy t then \<exists>d. parse_dt env t = Inr d \<and> after_dt = Some d else after_dt = None) \<longrightarrow>
        (\<forall>pg w0 fr w1. list_new_blocks env pg after_dt w0 = Some (fr, w1) \<longrightarrow>
           fetch_quiet R w0 w1 \<and> (\<forall>blks. fr = Inr blks \<longrightarrow> (\<forall>x \<in> set blks. Q (NewBlock x))))"
    and R: "\<forall>req. is_webhook req \<longrightarrow> R req"
    and run: "main env cfg w = Some (r, w')"
  shows "\<exists>items r3 w3. run_segment env R Q seen0 w1 r3 w3 items
     \<and> (case r3 of Inl e \<Rightarrow> r = Inl e \<and> w' = w3
         | Inr seen3 \<Rightarrow> (r, w') = finish env state seen3 w3)"
proof -
  from run rc b obtain r2 w2 where d: "db_phase env t (DB_IDS cfg) seen0 w1 = Some (r2, w2)"
    by (cases "db_phase env t (DB_IDS cfg) seen0 w1") (auto simp: main_def)
  from db_phase_segment [OF qspec R d]
  obtain items1 where s1: "run_segment env R Q seen0 w1 r2 w2 items1" by blast
  show ?thesis
  proof (cases r2)
    case (Inl e)
    with run rc b d have "r = Inl e" "w' = w2" by (simp_all add: main_def)
    with s1 Inl show ?thesis by (intro exI [of _ items1] exI [of _ "Inl e"] exI [of _ w2]) simp
  next
    case (Inr seen2)
    with run rc b d obtain r3 w3 where p: "block_part env cfg t seen2 w2 = Some (r3, w3)"
      by (cases "block_part env cfg t seen2 w2") (auto simp: main_def)
    from block_part_segment [OF bspec R p]
    obtain items2 where s2: "run_segment env R Q seen2 w2 r3 w3 items2" by blast
    from segment_trans [OF s1 [unfolded Inr] s2]
    have s: "run_segment env R Q seen0 w1 r3 w3 (items1 @ items2)" .
    from run rc b d Inr p
    have "case r3 of Inl e \<Rightarrow> r = Inl e \<and> w' = w3
         | Inr seen3 \<Rightarrow> (r, w') = finish env state seen3 w3"
      by (auto simp: main_def split: sum.splits)
    with s show ?thesis by blast
  qed
qed

lemma query_quiet:
  "\<forall>db w0 fr w1. query_new_db_pages env db t w0 = Some (fr, w1) \<longrightarrow>
     fetch_quiet (\<lambda>req. True) w0 w1
     \<and> (\<forall>pages. fr = Inr pages \<longrightarrow> (\<forall>x \<in> set pages. (\<lambda>q. True) (NewPage x)))"
proof (intro allI impI)
  fix db w0 fr w1
  assume "query_new_db_pages env db t w0 = Some (fr, w1)"
  from db_pages_loop_world [OF this [unfolded query_new_db_pages_def]]
  show "fetch_quiet (\<lambda>req. True) w0 w1
     \<and> (\<forall>pages. fr = Inr pages \<longrightarrow> (\<forall>x \<in> set pages. (\<lambda>q. True) (NewPage x)))"
    by (auto simp: fetch_quiet_def)
qed

lemma list_quiet:
  "\<forall>after_dt. A after_dt \<longrightarrow>
     (\<forall>pg w0 fr w1. list_new_blocks env pg after_dt w0 = Some (fr, w1) \<longrightarrow>
        fetch_quiet (\<lambda>req. True) w0 w1
        \<and> (\<forall>blks. fr = Inr blks \<longrightarrow> (\<forall>x \<in> set blks. (\<lambda>q. True) (NewBlock x))))"
proof (intro allI impI)
  fix after_dt pg w0 fr w1
  assume "list_new_blocks env pg after_dt w0 = Some (fr, w1)"
  from blocks_loop_world [OF this [unfolded list_new_blocks_def], of JNull]
  show "fetch_quiet (\<lambda>req. True) w0 w1
     \<and> (\<forall>blks. fr = Inr blks \<longrightarrow> (\<forall>x \<in> set blks. (\<lambda>q. True) (NewBlock x)))"
    by (auto simp: fetch_quiet_def)
qed

lemma main_plain:
  assumes rc: "read_checkpoint w = Inr (state, last_checked, seen0)"
    and b: "boundary env last_checked w = (t, w1)"
    and run: "main env cfg w = Some (r, w')"
  shows "\<exists>items r3 w3. run_segment env (\<lambda>req. True) (\<lambda>q. True) seen0 w1 r3 w3 items
     \<and> (case r3 of Inl e \<Rightarrow> r = Inl e \<and> w' = w3
         | Inr seen3 \<Rightarrow> (r, w') = finish env state seen3 w3)"
  by (rule main_segment [OF rc b query_quiet list_quiet _ run]) simp

subsection \<open>A failed post ends the run\<close>

lemma raised_simps [simp]: "raised (Inl e) = Some e" "raised (Inr x) = None"
  by (simp_all add: raised_def)

lemma aborts_same: "sent w' = sent w \<Longrightarrow> aborts_at env w eo w'"
  by (simp add: aborts_at_def)

lemma aborts_quiet:
  assumes "sent w' = sent w @ ext" and "\<forall>req \<in> set ext. \<not> is_webhook req"
  shows "aborts_at env w eo w'"
  unfolding aborts_at_def using assms
  by (intro exI [of _ ext]) (simp add: post_error_def)

lemma aborts_trans:
  assumes "aborts_at env w None w1" and "aborts_at env w1 eo w2"
  shows "aborts_at env w eo w2"
proof -
  from assms(1) obtain ext1 where e1: "sent w1 = sent w @ ext1"
    and n1: "\<forall>i < length ext1. \<forall>e. post_error env (length (sent w) + i) (ext1 ! i) \<noteq> Some e"
    unfolding aborts_at_def by auto
  from assms(2) obtain ext2 where e2: "sent w2 = sent w1 @ ext2"
    and n2: "\<forall>i < length ext2. \<forall>e.
        post_error env (length (sent w1) + i) (ext2 ! i) = Some e
        \<longrightarrow> eo = Some e \<and> Suc i = length ext2"
    unfolding aborts_at_def by auto
  have "\<forall>i < length (ext1 @ ext2). \<forall>e.
      post_error env (length (sent w) + i) ((ext1 @ ext2) ! i) = Some e
      \<longrightarrow> eo = Some e \<and> Suc i = length (ext1 @ ext2)"
  proof (intro allI impI)
    fix i e
    assume i: "i < length (ext1 @ ext2)"
      and p: "post_error env (length (sent w) + i) ((ext1 @ ext2) ! i) = Some e"
    show "eo = Some e \<and> Suc i = length (ext1 @ ext2)"
    proof (cases "i < length ext1")
      case True
      with p n1 show ?thesis by (simp add: nth_append)
    next
      case False
      then have j: "i - length ext1 < length ext2" using i by simp
      from False p e1
      have "post_error env (length (sent w1) + (i - length ext1)) (ext2 ! (i - length ext1)) = Some e"
        by (simp add: nth_append)
      with n2 j have "eo = Some e \<and> Suc (i - length ext1) = length ext2" by blast
      with False show ?thesis by (simp add: not_less) arith
    qed
  qed
  with e1 e2 show ?thesis unfolding aborts_at_def
    by (intro exI [of _ "ext1 @ ext2"]) simp
qed

lemma aborts_post:
  assumes "slack_post env text blocks w = (pr, w1)"
  shows "aborts_at env w (raised pr) w1"
proof -
  let ?req = "webhook_request text blocks"
  from assms have w1: "w1 = w\<lparr>sent := sent w @ [?req]\<rparr>"
    and pr: "pr = (case respond env (length (sent w)) ?req of
        NoResponse \<Rightarrow> Inl RequestException
      | Response status body \<Rightarrow> raise_for_status status)"
    by (simp_all add: slack_post_eq)
  have "\<forall>e. post_error env (length (sent w)) ?req = Some e \<longrightarrow> raised pr = Some e"
    unfolding pr
    by (auto simp: post_error_def raise_for_status_def webhook_request_def
        split: http_result.splits if_splits)
  with w1 show ?thesis unfolding aborts_at_def
    by (intro exI [of _ "[?req]"]) simp
qed

lemma notify_items_aborts:
  assumes "notify_items env fmt text ps seen w = (r, w')"
  shows "aborts_at env w (raised r) w'"
  using assms
proof (induction ps arbitrary: seen w)
  case Nil
  then show ?case by (simp add: aborts_same)
next
  case (Cons p ps)
  let ?idr = "ebind (py_get p (U ''id'') JNull)
      (\<lambda>pid. ebind (py_in pid seen) (\<lambda>known. Inr (pid, known)))"
  show ?case
  proof (cases ?idr)
    case (Inl e)
    with Cons.prems have "w' = w" by simp
    then show ?thesis by (simp add: aborts_same)
  next
    case (Inr pk)
    obtain pid known where pk: "pk = (pid, known)" by (cases pk)
    show ?thesis
    proof (cases known)
      case True
      with Cons.prems Inr pk have "notify_items env fmt text ps seen w = (r, w')" by simp
      from Cons.IH [OF this] show ?thesis .
    next
      case False
      show ?thesis
      proof (cases "fmt p")
        case (Inl e)
        with Cons.prems \<open>?idr = Inr pk\<close> pk False have "w' = w" by simp
        then show ?thesis by (simp add: aborts_same)
      next
        case blocks: (Inr blocks)
        obtain pr w1 where post: "slack_post env text blocks w = (pr, w1)"
          by (cases "slack_post env text blocks w")
        note a = aborts_post [OF post]
        show ?thesis
        proof (cases pr)
          case (Inl e)
          with Cons.prems \<open>?idr = Inr pk\<close> pk False blocks post
          have "r = Inl e" "w' = w1" by simp_all
          with a Inl show ?thesis by simp
        next
          case (Inr u)
          with Cons.prems \<open>?idr = Inr pk\<close> pk False blocks post
          have "notify_items env fmt text ps (set_add pid seen) w1 = (r, w')" by simp
          from aborts_trans [OF _ Cons.IH [OF this]] a Inr show ?thesis by simp
        qed
      qed
    qed
  qed
qed


lemma query_aborts:
  assumes "query_new_db_pages env db t w = Some (fr, w1)"
  shows "aborts_at env w eo w1"
proof -
  from db_pages_loop_world [OF assms [unfolded query_new_db_pages_def]]
  obtain ext where "sent w1 = sent w @ ext" "\<forall>req \<in> set ext. \<not> is_webhook req" by auto
  then show ?thesis by (rule aborts_quiet)
qed

lemma list_aborts:
  assumes "list_new_blocks env pg after_dt w = Some (fr, w1)"
  shows "aborts_at env w eo w1"
proof -
  from blocks_loop_world [OF assms [unfolded list_new_blocks_def], of JNull]
  obtain ext where "sent w1 = sent w @ ext" "\<forall>req \<in> set ext. \<not> is_webhook req" by auto
  then show ?thesis by (rule aborts_quiet)
qed

lemma db_phase_aborts:
  assumes "db_phase env t dbids seen w = Some (r, w')"
  shows "aborts_at env w (raised r) w'"
  using assms
proof (induction dbids arbitrary: seen w)
  case Nil
  then show ?case by (simp add: aborts_same)
next
  case (Cons dbid dbids)
  from Cons.prems obtain fr w1 where q: "query_new_db_pages env dbid t w = Some (fr, w1)"
    by (cases "query_new_db_pages env dbid t w") auto
  note quiet = query_aborts [OF q]
  show ?case
  proof (cases fr)
    case (Inl e)
    with Cons.prems q have "w' = w1" by simp
    with quiet show ?thesis by simp
  next
    case (Inr pages)
    obtain nr w2 where n: "notify_items env (format_page_block (py_repr env)) new_page_text
        pages seen w1 = (nr, w2)"
      by (cases "notify_items env (format_page_block (py_repr env)) new_page_text pages seen w1")
    from aborts_trans [OF quiet notify_items_aborts [OF n]]
    have s1: "aborts_at env w (raised nr) w2" .
    show ?thesis
    proof (cases nr)
      case (Inl e)
      with Cons.prems q Inr n have "r = Inl e" "w' = w2" by simp_all
      with s1 Inl show ?thesis by simp
    next
      case seen1: (Inr seen1)
      with Cons.prems q Inr n have "db_phase env t dbids seen1 w2 = Some (r, w')" by simp
      from aborts_trans [OF _ Cons.IH [OF this]] s1 seen1 show ?thesis by simp
    qed
  qed
qed

lemma page_phase_aborts:
  assumes "page_phase env after_dt pgids seen w = Some (r, w')"
  shows "aborts_at env w (raised r) w'"
  using assms
proof (induction pgids arbitrary: seen w)
  case Nil
  then show ?case by (simp add: aborts_same)
next
  case (Cons pgid pgids)
  from Cons.prems obtain fr w1 where q: "list_new_blocks env pgid after_dt w = Some (fr, w1)"
    by (cases "list_new_blocks env pgid after_dt w") auto
  note quiet = list_aborts [OF q]
  show ?case
  proof (cases fr)
    case (Inl e)
    with Cons.prems q have "w' = w1" by simp
    with quiet show ?thesis by simp
  next
    case (Inr blks)
    obtain nr w2 where n: "notify_items env (format_block_item (py_repr env)) new_block_text
        blks seen w1 = (nr, w2)"
      by (cases "notify_items env (format_block_item (py_repr env)) new_block_text blks seen w1")
    from aborts_trans [OF quiet notify_items_aborts [OF n]]
    have s1: "aborts_at env w (raised nr) w2" .
    show ?thesis
    proof (cases nr)
      case (Inl e)
      with Cons.prems q Inr n have "r = Inl e" "w' = w2" by simp_all
      with s1 Inl show ?thesis by simp
    next
      case seen1: (Inr seen1)
      with Cons.prems q Inr n have "page_phase env after_dt pgids seen1 w2 = Some (r, w')"
        by simp
      from aborts_trans [OF _ Cons.IH [OF this]] s1 seen1 show ?thesis by simp
    qed
  qed
qed

lemma block_part_aborts:
  assumes "block_part env cfg t seen w = Some (r, w')"
  shows "aborts_at env w (raised r) w'"
proof (cases "PAGE_IDS cfg = []")
  case True
  with assms have "w' = w" by (simp add: block_part_def)
  then show ?thesis by (simp add: aborts_same)
next
  case False
  let ?a = "if py_truthy t then ebind (parse_dt env t) (\<lambda>d. Inr (Some d)) else Inr None"
  show ?thesis
  proof (cases ?a)
    case (Inl e)
    with assms False have "w' = w" by (simp add: block_part_def)
    then show ?thesis by (simp add: aborts_same)
  next
    case (Inr after_dt)
    with assms False have "page_phase env after_dt (PAGE_IDS cfg) seen w = Some (r, w')"
      by (simp add: block_part_def)
    then show ?thesis by (rule page_phase_aborts)
  qed
qed

lemma main_aborts:
  assumes "main env cfg w = Some (r, w')"
  shows "aborts_at env w (raised r) w'"
proof (cases "read_checkpoint w")
  case (Inl e)
  with assms have "w' = w" by (simp add: main_def)
  then show ?thesis by (simp add: aborts_same)
next
  case (Inr c)
  obtain state last_checked seen0 where c: "c = (state, last_checked, seen0)" by (cases c)
  obtain t w1 where b: "boundary env last_checked w = (t, w1)"
    by (cases "boundary env last_checked w")
  from boundary_world [OF b] have s0: "aborts_at env w None w1" by (simp add: aborts_same)
  from assms Inr c b obtain r2 w2 where d: "db_phase env t (DB_IDS cfg) seen0 w1 = Some (r2, w2)"
    by (cases "db_phase env t (DB_IDS cfg) seen0 w1") (auto simp: main_def)
  from aborts_trans [OF s0 db_phase_aborts [OF d]] have s1: "aborts_at env w (raised r2) w2" .
  show ?thesis
  proof (cases r2)
    case (Inl e)
    with assms Inr c b d have "r = Inl e" "w' = w2" by (simp_all add: main_def)
    with s1 Inl show ?thesis by simp
  next
    case seen2: (Inr seen2)
    with assms Inr c b d obtain r3 w3 where p: "block_part env cfg t seen2 w2 = Some (r3, w3)"
      by (cases "block_part env cfg t seen2 w2") (auto simp: main_def)
    from aborts_trans [OF _ block_part_aborts [OF p]] s1 seen2
    have s2: "aborts_at env w (raised r3) w3" by simp
    show ?thesis
    proof (cases r3)
      case (Inl e)
      with assms Inr c b d seen2 p have "r = Inl e" "w' = w3" by (simp_all add: main_def)
      with s2 Inl show ?thesis by simp
    next
      case seen3: (Inr seen3)
      with assms Inr c b d seen2 p have f: "finish env state seen3 w3 = (r, w')"
        by (simp add: main_def)
      from finish_world [OF f] have "aborts_at env w3 (raised r) w'" by (simp add: aborts_same)
      from aborts_trans [OF _ this] s2 seen3 show ?thesis by simp
    qed
  qed
qed

text \<open>
  Claim C9, amended. A response with a status from 400 to 599 makes \<^verbatim>\<open>slack_post\<close> raise
  \<^verbatim>\<open>HTTPError\<close>, and the loop that called it ends there with that exception, the remaining
  items untouched; a 2xx response is not an error. In a run of \<^verbatim>\<open>main\<close>, a post that was
  answered with such a status is the last request the run has sent, and the run ended
  with that exception: nothing is sent again.
\<close>

theorem webhook_status:
  "(respond env (length (sent w)) (POST Webhook (JObj ((U ''text'', JStr text) # (if py_truthy blocks then [(U ''blocks'', blocks)] else [])))) = Response status body
      \<longrightarrow> (400 \<le> status \<and> status < 600 \<longrightarrow>
             slack_post env text blocks w =
               (Inl (HTTPError status), w\<lparr>sent := sent w @ [POST Webhook (JObj ((U ''text'', JStr text) # (if py_truthy blocks then [(U ''blocks'', blocks)] else [])))]\<rparr>)
             \<and> (py_get p (U ''id'') JNull = Inr pid \<and> py_in pid seen = Inr False
                  \<and> fmt p = Inr blocks \<longrightarrow>
                notify_items env fmt text (p # ps) seen w =
                  (Inl (HTTPError status), w\<lparr>sent := sent w @ [POST Webhook (JObj ((U ''text'', JStr text) # (if py_truthy blocks then [(U ''blocks'', blocks)] else [])))]\<rparr>)))
        \<and> (200 \<le> status \<and> status < 300 \<longrightarrow>
             slack_post env text blocks w =
               (Inr (), w\<lparr>sent := sent w @ [POST Webhook (JObj ((U ''text'', JStr text) # (if py_truthy blocks then [(U ''blocks'', blocks)] else [])))]\<rparr>)))
   \<and> (main env cfg w0 = Some (r, w') \<and> length (sent w0) \<le> k \<and> k < length (sent w')
        \<and> sent w' ! k = POST Webhook payload
        \<and> respond env k (POST Webhook payload) = Response st bd \<and> 400 \<le> st \<and> st < 600
      \<longrightarrow> r = Inl (HTTPError st) \<and> Suc k = length (sent w'))"
proof -
  have req: "webhook_request text blocks = POST Webhook (JObj ((U ''text'', JStr text) # (if py_truthy blocks then [(U ''blocks'', blocks)] else [])))"
    by (simp add: webhook_request_def slack_payload_def)
  have post: "slack_post env text blocks w =
      (raise_for_status status, w\<lparr>sent := sent w @ [POST Webhook (JObj ((U ''text'', JStr text) # (if py_truthy blocks then [(U ''blocks'', blocks)] else [])))]\<rparr>)"
    if "respond env (length (sent w)) (POST Webhook (JObj ((U ''text'', JStr text) # (if py_truthy blocks then [(U ''blocks'', blocks)] else [])))) = Response status body"
    using that by (simp add: slack_post_eq req)
  have first: "respond env (length (sent w)) (POST Webhook (JObj ((U ''text'', JStr text) # (if py_truthy blocks then [(U ''blocks'', blocks)] else [])))) = Response status body
      \<longrightarrow> (400 \<le> status \<and> status < 600 \<longrightarrow>
             slack_post env text blocks w =
               (Inl (HTTPError status), w\<lparr>sent := sent w @ [POST Webhook (JObj ((U ''text'', JStr text) # (if py_truthy blocks then [(U ''blocks'', blocks)] else [])))]\<rparr>)
             \<and> (py_get p (U ''id'') JNull = Inr pid \<and> py_in pid seen = Inr False
                  \<and> fmt p = Inr blocks \<longrightarrow>
                notify_items env fmt text (p # ps) seen w =
                  (Inl (HTTPError status), w\<lparr>sent := sent w @ [POST Webhook (JObj ((U ''text'', JStr text) # (if py_truthy blocks then [(U ''blocks'', blocks)] else [])))]\<rparr>)))
        \<and> (200 \<le> status \<and> status < 300 \<longrightarrow>
             slack_post env text blocks w =
               (Inr (), w\<lparr>sent := sent w @ [POST Webhook (JObj ((U ''text'', JStr text) # (if py_truthy blocks then [(U ''blocks'', blocks)] else [])))]\<rparr>))"
    using post by (simp add: raise_for_status_def)
  have second: "r = Inl (HTTPError st) \<and> Suc k = length (sent w')"
    if a: "main env cfg w0 = Some (r, w') \<and> length (sent w0) \<le> k \<and> k < length (sent w')
        \<and> sent w' ! k = POST Webhook payload
        \<and> respond env k (POST Webhook payload) = Response st bd \<and> 400 \<le> st \<and> st < 600"
  proof -
    from a have run: "main env cfg w0 = Some (r, w')" by simp
    from main_aborts [OF run] obtain ext where ext: "sent w' = sent w0 @ ext"
      and ab: "\<forall>i < length ext. \<forall>e.
                post_error env (length (sent w0) + i) (ext ! i) = Some e
                \<longrightarrow> raised r = Some e \<and> Suc i = length ext"
      unfolding aborts_at_def by blast
    let ?i = "k - length (sent w0)"
    from a ext have i: "?i < length ext" by auto
    from a ext have nth: "ext ! ?i = POST Webhook payload"
      by (auto simp: nth_append split: if_splits)
    from a have "post_error env k (POST Webhook payload) = Some (HTTPError st)"
      by (simp add: post_error_def)
    with a nth have "post_error env (length (sent w0) + ?i) (ext ! ?i) = Some (HTTPError st)"
      by simp
    with ab i have "raised r = Some (HTTPError st) \<and> Suc ?i = length ext" by blast
    with a ext show ?thesis by (cases r) auto
  qed
  from first second show ?thesis by blast
qed

text \<open>
  Claim C3. A run that ends with an exception leaves the checkpoint file as it was,
  whichever call raised it, but for \<^verbatim>\<open>save_state\<close> itself: it is the last call of \<^verbatim>\<open>main\<close>,
  and the one exception it raises is that of the encoding, which no fetch and no post
  raises.
\<close>

theorem failed_run_keeps_checkpoint:
  assumes "main env cfg w = Some (Inl e, w')"
  shows "state_file w' = state_file w
     \<or> e = UnicodeEncodeError \<and> (\<exists>state w3. save_state env state w3 = (Inl e, w'))"
proof (cases "read_checkpoint w")
  case (Inl e')
  with assms show ?thesis by (simp add: main_def)
next
  case (Inr c)
  obtain state last_checked seen0 where c: "c = (state, last_checked, seen0)" by (cases c)
  obtain t w1 where b: "boundary env last_checked w = (t, w1)"
    by (cases "boundary env last_checked w")
  from main_plain [OF Inr [unfolded c] b assms]
  obtain items r3 w3 where s: "run_segment env (\<lambda>req. True) (\<lambda>q. True) seen0 w1 r3 w3 items"
    and f: "case r3 of Inl e' \<Rightarrow> (Inl e :: error + unit) = Inl e' \<and> w' = w3
         | Inr seen3 \<Rightarrow> (Inl e, w') = finish env state seen3 w3"
    by blast
  from s have "state_file w3 = state_file w1" by (simp add: run_segment_def)
  with boundary_world [OF b] have w3: "state_file w3 = state_file w" by simp
  show ?thesis
  proof (cases r3)
    case (Inl e')
    with f w3 show ?thesis by simp
  next
    case (Inr seen3)
    with f have "finish env state seen3 w3 = (Inl e, w')" by simp
    from finish_file [OF this] w3 show ?thesis by auto
  qed
qed









section \<open>The example runs\<close>

lemma read_seen_world:
  "read_checkpoint seen_world =
     Inr (checkpoint_state (Some april_text) [U ''r-a''], JStr april_text, [JStr (U ''r-a'')])"
  by (simp add: read_checkpoint_def load_state_def seen_world_def loads_dump_checkpoint
      set_add_def del: dump.simps)
    (simp add: checkpoint_state_def set_add_def)

lemma april_truthy: "py_truthy (JStr april_text)"
  by (simp add: april_text_def)

lemma repeat_fetch:
  "query_new_db_pages (repeat_env status) (U ''db1'') (JStr april_text) seen_world =
     Some (Inr [record_a, record_c, record_c], seen_world\<lparr>sent := [repeat_query]\<rparr>)"
proof -
  have p: "paged page_results [repeat_page]"
    by (simp add: repeat_page_def page_results_def page_more_def succeeds_def)
  have s: "served (repeat_env status) (length (sent seen_world))
      (query_requests (U ''db1'') (db_payload (JStr april_text)) [repeat_page]) [repeat_page]"
    by (simp add: repeat_env_def scripted_env_def seen_world_def)
  from db_pages_loop_paged [OF p s, of "[]"] show ?thesis
    by (simp add: query_new_db_pages_def repeat_page_def page_results_def repeat_query_def
        seen_world_def del: dump.simps)
qed

lemma format_record_c:
  "format_page_block no_repr record_c =
     Inr (page_blocks no_repr no_title (JStr notion_home) (JStr []))"
  by (simp add: record_c_def format_page_block_def page_title_def page_url_def)

lemma record_ids:
  "py_get record_a (U ''id'') JNull = Inr (JStr (U ''r-a''))"
  "py_get record_c (U ''id'') JNull = Inr (JStr (U ''r-c''))"
  by (simp_all add: record_a_def record_c_def)

lemma repeat_post:
  "slack_post (repeat_env status) new_page_text
      (page_blocks no_repr no_title (JStr notion_home) (JStr []))
      (seen_world\<lparr>sent := [repeat_query]\<rparr>)
   = (raise_for_status status, seen_world\<lparr>sent := [repeat_query, record_c_post]\<rparr>)"
  by (simp add: slack_post_eq record_c_post_def repeat_env_def scripted_env_def
      seen_world_def del: dump.simps)


lemma repeat_notify_fail:
  "notify_items (repeat_env 500) (format_page_block no_repr) new_page_text
     [record_a, record_c, record_c] [JStr (U ''r-a'')] (seen_world\<lparr>sent := [repeat_query]\<rparr>) =
   (Inl (HTTPError 500), seen_world\<lparr>sent := [repeat_query, record_c_post]\<rparr>)"
  by (simp add: record_ids py_in_def format_record_c repeat_post raise_for_status_def set_add_def)

lemma repeat_env_repr: "py_repr (repeat_env status) = no_repr"
  by (simp add: repeat_env_def scripted_env_def)

lemma repeat_boundary:
  "boundary env (JStr april_text) seen_world = (JStr april_text, seen_world)"
  by (simp add: boundary_def april_text_def)

lemma one_db_ids: "DB_IDS one_db = [U ''db1'']" "PAGE_IDS one_db = []"
  by (simp_all add: one_db_def)


lemma repeat_db_phase_fail:
  "db_phase (repeat_env 500) (JStr april_text) [U ''db1''] [JStr (U ''r-a'')] seen_world =
     Some (Inl (HTTPError 500), seen_world\<lparr>sent := [repeat_query, record_c_post]\<rparr>)"
  by (simp only: db_phase.simps repeat_fetch repeat_env_repr repeat_notify_fail
      option.case prod.case sum.case)



lemma repeat_run_fail:
  "main (repeat_env 500) one_db seen_world =
     Some (Inl (HTTPError 500), seen_world\<lparr>sent := [repeat_query, record_c_post]\<rparr>)"
  by (simp only: main_def read_seen_world repeat_boundary one_db_ids repeat_db_phase_fail
      option.case prod.case sum.case)


lemma texts_differ [simp]:
  "april_text \<noteq> may_text" "may_text \<noteq> april_text" "june_text \<noteq> may_text"
  "may_text \<noteq> june_text" "june_text \<noteq> april_text" "april_text \<noteq> june_text"
  "may_text \<noteq> []"
  by (simp_all add: april_text_def may_text_def june_text_def)


















text \<open>C3 at the same run with a webhook that answers 500.\<close>

theorem failed_run_keeps_checkpoint_witness:
  "main (repeat_env 500) one_db seen_world =
     Some (Inl (HTTPError 500), seen_world\<lparr>sent := [repeat_query, record_c_post]\<rparr>)
   \<and> state_file (seen_world\<lparr>sent := [repeat_query, record_c_post]\<rparr>) = state_file seen_world"
proof -
  have "state_file (seen_world\<lparr>sent := [repeat_query, record_c_post]\<rparr>) = state_file seen_world"
  proof (rule disjE [OF failed_run_keeps_checkpoint [OF repeat_run_fail]])
    assume "state_file (seen_world\<lparr>sent := [repeat_query, record_c_post]\<rparr>) = state_file seen_world"
    then show ?thesis .
  next
    assume "HTTPError 500 = UnicodeEncodeError
      \<and> (\<exists>state w3. save_state (repeat_env 500) state w3
            = (Inl (HTTPError 500), seen_world\<lparr>sent := [repeat_query, record_c_post]\<rparr>))"
    then show ?thesis by simp
  qed
  with repeat_run_fail show ?thesis by (simp del: dump.simps)
qed


text \<open>
  C9 at the statuses 500 and 204, and at the run with the repeated record and a webhook
  that answers 500: the post is the second and last request.
\<close>

theorem webhook_status_witness:
  "slack_post (status_env 500) new_page_text (JArr [divider]) world0 =
     (Inl (HTTPError 500), world0\<lparr>sent := [webhook_request new_page_text (JArr [divider])]\<rparr>)
   \<and> notify_items (status_env 500) (format_page_block no_repr) new_page_text
        [hello_page, untitled_page] [] world0 =
     (Inl (HTTPError 500),
      world0\<lparr>sent := [webhook_request new_page_text
         (page_blocks no_repr (U ''Hello World'') (JStr notion_home) (JStr []))]\<rparr>)
   \<and> slack_post (status_env 204) new_page_text (JArr [divider]) world0 =
     (Inr (), world0\<lparr>sent := [webhook_request new_page_text (JArr [divider])]\<rparr>)
   \<and> main (repeat_env 500) one_db seen_world =
       Some (Inl (HTTPError 500), seen_world\<lparr>sent := [repeat_query, record_c_post]\<rparr>)
   \<and> Suc 1 = length (sent (seen_world\<lparr>sent := [repeat_query, record_c_post]\<rparr>))"
proof -
  have r: "\<And>st req. respond (status_env st) (length (sent world0)) req = Response st None"
    by (simp add: status_env_def scripted_env_def)
  have f: "format_page_block no_repr hello_page =
      Inr (page_blocks no_repr (U ''Hello World'') (JStr notion_home) (JStr []))"
    by (simp add: hello_page_def format_page_block_def page_title_def page_url_def
        joined_text_def U_def)
  have i: "py_get hello_page (U ''id'') JNull = Inr (JStr (U ''p1''))"
    by (simp add: hello_page_def)
  have n: "py_in (JStr (U ''p1'')) [] = Inr False" by (simp add: py_in_def)
  have t: "py_truthy (JArr [divider])"
    "py_truthy (page_blocks no_repr (U ''Hello World'') (JStr notion_home) (JStr []))"
    by (simp_all add: page_blocks_def)
  from webhook_status [where env = "status_env 500" and w = world0 and ?text = new_page_text
      and blocks = "JArr [divider]" and status = 500 and body = None] r [of 500]
  have 1: "slack_post (status_env 500) new_page_text (JArr [divider]) world0 =
     (Inl (HTTPError 500), world0\<lparr>sent := [webhook_request new_page_text (JArr [divider])]\<rparr>)"
    by (simp add: world0_def webhook_request_def slack_payload_def)
  from webhook_status [where env = "status_env 500" and w = world0 and ?text = new_page_text
      and blocks = "page_blocks no_repr (U ''Hello World'') (JStr notion_home) (JStr [])"
      and status = 500 and body = None and p = hello_page and pid = "JStr (U ''p1'')"
      and seen = "[]" and fmt = "format_page_block no_repr" and ps = "[untitled_page]"]
    r [of 500] f i n
  have 2: "notify_items (status_env 500) (format_page_block no_repr) new_page_text
        [hello_page, untitled_page] [] world0 =
     (Inl (HTTPError 500),
      world0\<lparr>sent := [webhook_request new_page_text
         (page_blocks no_repr (U ''Hello World'') (JStr notion_home) (JStr []))]\<rparr>)"
    by (simp add: world0_def webhook_request_def slack_payload_def t)
  from webhook_status [where env = "status_env 204" and w = world0 and ?text = new_page_text
      and blocks = "JArr [divider]" and status = 204 and body = None] r [of 204]
  have 3: "slack_post (status_env 204) new_page_text (JArr [divider]) world0 =
     (Inr (), world0\<lparr>sent := [webhook_request new_page_text (JArr [divider])]\<rparr>)"
    by (simp add: world0_def webhook_request_def slack_payload_def)
  have a: "respond (repeat_env 500) 1 req = Response 500 None" for req
    by (simp add: repeat_env_def scripted_env_def)
  have c: "record_c_post = POST Webhook (slack_payload new_page_text
      (page_blocks no_repr no_title (JStr notion_home) (JStr [])))"
    by (simp add: record_c_post_def webhook_request_def)
  from webhook_status [where env = "repeat_env 500" and cfg = one_db and ?w0.0 = seen_world
      and r = "Inl (HTTPError 500)"
      and w' = "seen_world\<lparr>sent := [repeat_query, record_c_post]\<rparr>" and k = 1
      and payload = "slack_payload new_page_text
        (page_blocks no_repr no_title (JStr notion_home) (JStr []))"
      and st = 500 and bd = None]
    repeat_run_fail a c
  have 4: "Suc 1 = length (sent (seen_world\<lparr>sent := [repeat_query, record_c_post]\<rparr>))"
    by (simp add: seen_world_def)
  from 1 2 3 4 repeat_run_fail show ?thesis by (simp only: simp_thms)
qed

end
